(* ===== verification/Prelude.thy ===== *)
theory Prelude
  imports
    Main
    "HOL-Library.Char_ord"
    "HOL-Library.List_Lexorder"
    "HOL-Library.Word"
    "HOL-Library.Code_Target_Nat"
begin

unbundle bit_operations_syntax

text \<open>
  What every component shares: fallible results, Rust strings as lists of
  bytes, the \<open>str\<close> operations of the standard library the source calls,
  decimal numerals and strict UTF-8.

  A Rust \<open>String\<close>, \<open>&str\<close> or \<open>Vec<u8>\<close> is a \<open>string\<close> with one \<open>char\<close> per BYTE,
  so \<open>length\<close> is \<open>str::len\<close>. Code points are read off with \<open>utf8_decode\<close>.
\<close>



type_synonym bytes = string

section \<open>Fallible results\<close>

text \<open>\<open>Result<T, E>\<close> is \<open>'e + 'a\<close>: \<open>Inl\<close> is \<open>Err\<close>, \<open>Inr\<close> is \<open>Ok\<close>; the \<open>?\<close> operator
  is \<open>and_then\<close>.\<close>

fun and_then :: "'e + 'a \<Rightarrow> ('a \<Rightarrow> 'e + 'b) \<Rightarrow> 'e + 'b" where
  "and_then (Inl e) f = Inl e"
| "and_then (Inr a) f = f a"

fun map_err :: "('e \<Rightarrow> 'f) \<Rightarrow> 'e + 'a \<Rightarrow> 'f + 'a" where
  "map_err g (Inl e) = Inl (g e)"
| "map_err g (Inr a) = Inr a"

fun ok_or :: "'e \<Rightarrow> 'a option \<Rightarrow> 'e + 'a" where
  "ok_or e None = Inl e"
| "ok_or e (Some a) = Inr a"

fun is_ok :: "'e + 'a \<Rightarrow> bool" where
  "is_ok (Inl _) = False"
| "is_ok (Inr _) = True"

text \<open>Collecting fallible results from left to right, stopping at the first error.\<close>

fun traverse :: "('a \<Rightarrow> 'e + 'b) \<Rightarrow> 'a list \<Rightarrow> 'e + 'b list" where
  "traverse f [] = Inr []"
| "traverse f (x # xs) = and_then (f x) (\<lambda>y. and_then (traverse f xs) (\<lambda>ys. Inr (y # ys)))"

fun opt_all :: "('a \<Rightarrow> bool) \<Rightarrow> 'a option \<Rightarrow> bool" where
  "opt_all P None = True"
| "opt_all P (Some a) = P a"

text \<open>A guard: \<open>if bad { return Err(e) }\<close>.\<close>

definition reject_if :: "bool \<Rightarrow> 'e \<Rightarrow> 'e + unit" where
  "reject_if b e = (if b then Inl e else Inr ())"

lemma and_then_cong [fundef_cong]:
  "x = x' \<Longrightarrow> (\<And>a. x' = Inr a \<Longrightarrow> f a = f' a) \<Longrightarrow> and_then x f = and_then x' f'"
  by (cases x') auto

lemma and_then_Inr_iff [simp]: "and_then x f = Inr b \<longleftrightarrow> (\<exists>a. x = Inr a \<and> f a = Inr b)"
  by (cases x) auto

lemma and_then_Inl_iff: "and_then x f = Inl e \<longleftrightarrow> x = Inl e \<or> (\<exists>a. x = Inr a \<and> f a = Inl e)"
  by (cases x) auto

lemma map_err_Inr_iff [simp]: "map_err g x = Inr b \<longleftrightarrow> x = Inr b"
  by (cases x) auto

lemma ok_or_Inr_iff [simp]: "ok_or e x = Inr a \<longleftrightarrow> x = Some a"
  by (cases x) auto

lemma is_ok_iff: "is_ok x \<longleftrightarrow> (\<exists>a. x = Inr a)"
  by (cases x) auto

lemma reject_if_Inr_iff [simp]: "reject_if b e = Inr u \<longleftrightarrow> \<not> b"
  by (simp add: reject_if_def)

lemma reject_if_Inl_iff [simp]: "reject_if b e = Inl e' \<longleftrightarrow> b \<and> e' = e"
  by (auto simp: reject_if_def)

lemma traverse_Inr_iff: "traverse f xs = Inr ys \<longleftrightarrow> list_all2 (\<lambda>x y. f x = Inr y) xs ys"
  by (induction xs arbitrary: ys) (auto simp: list_all2_Cons1)

lemma traverse_length: "traverse f xs = Inr ys \<Longrightarrow> length ys = length xs"
  by (metis traverse_Inr_iff list_all2_lengthD)

lemma traverse_set: "traverse f xs = Inr ys \<Longrightarrow> y \<in> set ys \<Longrightarrow> \<exists>x\<in>set xs. f x = Inr y"
  by (induction xs arbitrary: ys) auto

lemma traverse_cong [fundef_cong]:
  "xs = ys \<Longrightarrow> (\<And>x. x \<in> set ys \<Longrightarrow> f x = g x) \<Longrightarrow> traverse f xs = traverse g ys"
  by (induction xs arbitrary: ys) (auto intro!: and_then_cong)

lemma traverse_map_Inr:
  "(\<And>x. x \<in> set xs \<Longrightarrow> f (g x) = Inr x) \<Longrightarrow> traverse f (map g xs) = Inr xs"
  by (induction xs) auto

section \<open>Bytes\<close>

abbreviation byte :: "char \<Rightarrow> nat" where
  "byte c \<equiv> of_char c"

definition in_range :: "nat \<Rightarrow> nat \<Rightarrow> char \<Rightarrow> bool" where
  "in_range lo hi c \<longleftrightarrow> lo \<le> byte c \<and> byte c \<le> hi"

definition is_lower :: "char \<Rightarrow> bool" where "is_lower = in_range 97 122"
definition is_upper :: "char \<Rightarrow> bool" where "is_upper = in_range 65 90"
definition is_digit :: "char \<Rightarrow> bool" where "is_digit = in_range 48 57"
definition is_alpha :: "char \<Rightarrow> bool" where "is_alpha c \<longleftrightarrow> is_lower c \<or> is_upper c"
definition is_alnum :: "char \<Rightarrow> bool" where "is_alnum c \<longleftrightarrow> is_alpha c \<or> is_digit c"
definition is_hexdigit :: "char \<Rightarrow> bool" where
  "is_hexdigit c \<longleftrightarrow> is_digit c \<or> in_range 97 102 c \<or> in_range 65 70 c"

lemmas byte_class_defs = in_range_def is_lower_def is_upper_def is_digit_def
  is_alpha_def is_alnum_def is_hexdigit_def

lemma byte_less_256 [simp]: "byte c < 256"
  by (metis nat_of_char_less_256)

lemma byte_inject [simp]: "byte a = byte b \<longleftrightarrow> a = b"
  by (metis char_of_char)

definition lower_char :: "char \<Rightarrow> char" where
  "lower_char c = (if is_upper c then char_of (byte c + 32) else c)"

definition upper_char :: "char \<Rightarrow> char" where
  "upper_char c = (if is_lower c then char_of (byte c - 32) else c)"

definition to_ascii_lowercase :: "string \<Rightarrow> string" where
  "to_ascii_lowercase s = map lower_char s"

definition eq_ignore_ascii_case :: "string \<Rightarrow> string \<Rightarrow> bool" where
  "eq_ignore_ascii_case s t \<longleftrightarrow> to_ascii_lowercase s = to_ascii_lowercase t"

lemma byte_lower_char: "byte (lower_char c) = (if is_upper c then byte c + 32 else byte c)"
  by (simp add: lower_char_def is_upper_def in_range_def)

lemma not_upper_lower_char [simp]: "\<not> is_upper (lower_char c)"
  by (auto simp: byte_lower_char is_upper_def in_range_def)

lemma lower_char_id: "\<not> is_upper c \<Longrightarrow> lower_char c = c"
  by (simp add: lower_char_def)

lemma lower_char_idem [simp]: "lower_char (lower_char c) = lower_char c"
  by (simp add: lower_char_id)

lemma length_lowercase [simp]: "length (to_ascii_lowercase s) = length s"
  by (simp add: to_ascii_lowercase_def)

lemma lowercase_Nil [simp]: "to_ascii_lowercase [] = []" "to_ascii_lowercase s = [] \<longleftrightarrow> s = []"
  by (simp_all add: to_ascii_lowercase_def)

lemma lowercase_idem [simp]: "to_ascii_lowercase (to_ascii_lowercase s) = to_ascii_lowercase s"
  by (simp add: to_ascii_lowercase_def comp_def)

lemma lowercase_id: "(\<And>c. c \<in> set s \<Longrightarrow> \<not> is_upper c) \<Longrightarrow> to_ascii_lowercase s = s"
  by (induction s) (auto simp: to_ascii_lowercase_def lower_char_id)

section \<open>Splitting and joining\<close>

text \<open>\<open>str::split(c)\<close>, \<open>str::split_once(c)\<close>, \<open>str::rsplit_once(c)\<close> for an ASCII
  separator (so that splitting the bytes is splitting the characters).\<close>

fun split_on :: "char \<Rightarrow> string \<Rightarrow> string list" where
  "split_on d [] = [[]]"
| "split_on d (c # cs) =
     (if c = d then [] # split_on d cs
      else case split_on d cs of [] \<Rightarrow> [[c]] | w # ws \<Rightarrow> (c # w) # ws)"

fun split_once :: "char \<Rightarrow> string \<Rightarrow> (string \<times> string) option" where
  "split_once d [] = None"
| "split_once d (c # cs) =
     (if c = d then Some ([], cs)
      else case split_once d cs of None \<Rightarrow> None | Some (a, b) \<Rightarrow> Some (c # a, b))"

fun rsplit_once :: "char \<Rightarrow> string \<Rightarrow> (string \<times> string) option" where
  "rsplit_once d [] = None"
| "rsplit_once d (c # cs) =
     (case rsplit_once d cs of
        Some (a, b) \<Rightarrow> Some (c # a, b)
      | None \<Rightarrow> if c = d then Some ([], cs) else None)"

fun join :: "string \<Rightarrow> string list \<Rightarrow> string" where
  "join sep [] = []"
| "join sep [w] = w"
| "join sep (w # v # ws) = w @ sep @ join sep (v # ws)"

fun strip_prefix :: "string \<Rightarrow> string \<Rightarrow> string option" where
  "strip_prefix [] s = Some s"
| "strip_prefix (p # ps) [] = None"
| "strip_prefix (p # ps) (c # cs) = (if p = c then strip_prefix ps cs else None)"

definition starts_with :: "string \<Rightarrow> string \<Rightarrow> bool" where
  "starts_with p s \<longleftrightarrow> strip_prefix p s \<noteq> None"

definition strip_suffix :: "string \<Rightarrow> string \<Rightarrow> string option" where
  "strip_suffix p s = map_option rev (strip_prefix (rev p) (rev s))"

definition ends_with :: "string \<Rightarrow> string \<Rightarrow> bool" where
  "ends_with p s \<longleftrightarrow> strip_suffix p s \<noteq> None"

lemma strip_prefix_iff: "strip_prefix p s = Some r \<longleftrightarrow> s = p @ r"
  by (induction p s rule: strip_prefix.induct) auto

lemma strip_prefix_append [simp]: "strip_prefix p (p @ r) = Some r"
  by (simp add: strip_prefix_iff)

lemma starts_with_iff: "starts_with p s \<longleftrightarrow> (\<exists>r. s = p @ r)"
  by (auto simp: starts_with_def strip_prefix_iff)

lemma strip_suffix_iff: "strip_suffix p s = Some r \<longleftrightarrow> s = r @ p"
  by (auto simp: strip_suffix_def strip_prefix_iff)
     (metis rev_append rev_rev_ident)

lemma ends_with_iff: "ends_with p s \<longleftrightarrow> (\<exists>r. s = r @ p)"
  by (auto simp: ends_with_def strip_suffix_iff)

lemma split_on_not_Nil [simp]: "split_on d s \<noteq> []"
  by (induction s) (auto split: list.splits)

lemma split_on_absent: "d \<notin> set s \<Longrightarrow> split_on d s = [s]"
  by (induction s) auto

lemma split_on_append: "d \<notin> set w \<Longrightarrow> split_on d (w @ d # s) = w # split_on d s"
  by (induction w) auto

lemma split_on_parts: "w \<in> set (split_on d s) \<Longrightarrow> d \<notin> set w"
  by (induction s arbitrary: w) (auto split: list.splits if_splits)

lemma split_on_sub: "w \<in> set (split_on d s) \<Longrightarrow> set w \<subseteq> set s"
  by (induction s arbitrary: w) (auto split: list.splits if_splits; fastforce)+

lemma join_split_on [simp]: "join [d] (split_on d s) = s"
proof (induction s)
  case (Cons c s)
  then show ?case
    by (cases "split_on d s" rule: remdups_adj.cases) (auto split: list.splits)
qed simp

lemma split_on_join:
  "ws \<noteq> [] \<Longrightarrow> (\<And>w. w \<in> set ws \<Longrightarrow> d \<notin> set w) \<Longrightarrow> split_on d (join [d] ws) = ws"
  by (induction "[d]" ws rule: join.induct) (auto simp: split_on_absent split_on_append)

lemma set_join: "set (join sep ws) \<subseteq> set sep \<union> (\<Union>w\<in>set ws. set w)"
  by (induction sep ws rule: join.induct) auto

lemma join_eq_Nil: "join [d] ws = [] \<longleftrightarrow> ws = [] \<or> ws = [[]]"
  by (induction "[d]" ws rule: join.induct) auto

lemma split_once_append [simp]: "d \<notin> set a \<Longrightarrow> split_once d (a @ d # b) = Some (a, b)"
  by (induction a) auto

lemma split_once_SomeD: "split_once d s = Some (a, b) \<Longrightarrow> s = a @ d # b \<and> d \<notin> set a"
  by (induction s arbitrary: a) (auto split: if_splits option.splits)

lemma split_once_Some_iff: "split_once d s = Some (a, b) \<longleftrightarrow> s = a @ d # b \<and> d \<notin> set a"
  by (auto dest: split_once_SomeD)

lemma split_once_None_iff [simp]: "split_once d s = None \<longleftrightarrow> d \<notin> set s"
  by (induction s) (auto split: option.splits)

lemma split_once_absent [simp]: "d \<notin> set s \<Longrightarrow> split_once d s = None"
  by simp

lemma rsplit_once_None [simp]: "d \<notin> set b \<Longrightarrow> rsplit_once d b = None"
  by (induction b) auto

lemma rsplit_once_append [simp]: "d \<notin> set b \<Longrightarrow> rsplit_once d (a @ d # b) = Some (a, b)"
  by (induction a) (auto simp: rsplit_once_None)

lemma rsplit_once_None_iff [simp]: "rsplit_once d s = None \<longleftrightarrow> d \<notin> set s"
  by (induction s) (auto split: option.splits if_splits)

lemma rsplit_once_SomeD: "rsplit_once d s = Some (a, b) \<Longrightarrow> s = a @ d # b \<and> d \<notin> set b"
proof (induction s arbitrary: a b)
  case (Cons c s)
  show ?case
  proof (cases "rsplit_once d s")
    case None
    with Cons.prems have "c = d" "a = []" "b = s" by (auto split: if_splits)
    moreover have "d \<notin> set s" using None by simp
    ultimately show ?thesis by simp
  next
    case (Some p)
    then show ?thesis using Cons by (cases p) auto
  qed
qed simp

lemma rsplit_once_Some_iff: "rsplit_once d s = Some (a, b) \<longleftrightarrow> s = a @ d # b \<and> d \<notin> set b"
  by (auto dest: rsplit_once_SomeD)

section \<open>Decimal numerals\<close>

text \<open>\<open>u32::to_string\<close> and \<open>str::parse::<u32>\<close> on a string already known to be digits.\<close>

definition digit_char :: "nat \<Rightarrow> char" where
  "digit_char n = char_of (48 + n)"

definition digit_val :: "char \<Rightarrow> nat" where
  "digit_val c = byte c - 48"

fun dec_of_nat :: "nat \<Rightarrow> string" where
  "dec_of_nat n = (if n < 10 then [digit_char n] else dec_of_nat (n div 10) @ [digit_char (n mod 10)])"

declare dec_of_nat.simps [simp del]

definition nat_of_dec :: "string \<Rightarrow> nat" where
  "nat_of_dec s = foldl (\<lambda>a c. 10 * a + digit_val c) 0 s"

definition all_digits :: "string \<Rightarrow> bool" where
  "all_digits s \<longleftrightarrow> list_all is_digit s"

lemma digit_val_char [simp]: "n < 10 \<Longrightarrow> digit_val (digit_char n) = n"
  by (simp add: digit_val_def digit_char_def)

lemma is_digit_char [simp]: "n < 10 \<Longrightarrow> is_digit (digit_char n)"
  by (simp add: digit_char_def is_digit_def in_range_def)

lemma digit_char_val [simp]: "is_digit c \<Longrightarrow> digit_char (digit_val c) = c"
  by (simp add: digit_val_def digit_char_def is_digit_def in_range_def)

lemma digit_val_less: "is_digit c \<Longrightarrow> digit_val c < 10"
  by (auto simp: digit_val_def is_digit_def in_range_def)

lemma digit_char_0 [simp]: "digit_char 0 = CHR ''0''"
  by code_simp

lemma digit_char_0_iff: "n < 10 \<Longrightarrow> digit_char n = CHR ''0'' \<longleftrightarrow> n = 0"
  by (metis digit_val_char digit_char_0 zero_less_numeral)

lemma nat_of_dec_Nil [simp]: "nat_of_dec [] = 0"
  by (simp add: nat_of_dec_def)

lemma nat_of_dec_snoc: "nat_of_dec (s @ [c]) = 10 * nat_of_dec s + digit_val c"
  by (simp add: nat_of_dec_def)

lemma dec_of_nat_not_Nil [simp]: "dec_of_nat n \<noteq> []"
  by (subst dec_of_nat.simps) simp

lemma nat_of_dec_of_nat [simp]: "nat_of_dec (dec_of_nat n) = n"
proof (induction n rule: dec_of_nat.induct)
  case (1 n)
  then show ?case
    by (subst dec_of_nat.simps) (auto simp: nat_of_dec_snoc nat_of_dec_def)
qed

lemma all_digits_dec_of_nat [simp]: "all_digits (dec_of_nat n)"
proof (induction n rule: dec_of_nat.induct)
  case (1 n)
  then show ?case
    by (subst dec_of_nat.simps) (auto simp: all_digits_def)
qed

lemma dec_of_nat_inject [simp]: "dec_of_nat m = dec_of_nat n \<longleftrightarrow> m = n"
  by (metis nat_of_dec_of_nat)

lemma nat_of_dec_bound: "all_digits s \<Longrightarrow> nat_of_dec s < 10 ^ length s"
proof (induction s rule: rev_induct)
  case (snoc c s)
  then have "nat_of_dec s + 1 \<le> 10 ^ length s" "digit_val c < 10"
    by (auto simp: all_digits_def digit_val_less)
  then have "10 * nat_of_dec s + digit_val c < 10 * 10 ^ length s" by linarith
  then show ?case by (simp add: nat_of_dec_snoc)
qed simp

lemma length_dec_of_nat: "0 < k \<Longrightarrow> n < 10 ^ k \<Longrightarrow> length (dec_of_nat n) \<le> k"
proof (induction n arbitrary: k rule: dec_of_nat.induct)
  case (1 n)
  show ?case
  proof (cases "n < 10")
    case True
    then show ?thesis using 1 by (subst dec_of_nat.simps) simp
  next
    case False
    then obtain j where k: "k = Suc j" "0 < j"
      using 1(2,3) by (cases k; cases "k - 1") auto
    then have "n div 10 < 10 ^ j" using 1(3) by (simp add: less_mult_imp_div_less mult.commute)
    then show ?thesis using 1(1) [OF False] k False by (subst dec_of_nat.simps) simp
  qed
qed

text \<open>No leading zero, except in \<open>0\<close> itself.\<close>

lemma dec_of_nat_no_leading_zero: "dec_of_nat n = CHR ''0'' # r \<Longrightarrow> n = 0 \<and> r = []"
proof (induction n arbitrary: r rule: dec_of_nat.induct)
  case (1 n)
  show ?case
  proof (cases "n < 10")
    case True
    then show ?thesis using 1(2) by (subst (asm) dec_of_nat.simps) (simp add: digit_char_0_iff)
  next
    case False
    then obtain r' where "dec_of_nat (n div 10) = CHR ''0'' # r'"
      using 1(2) dec_of_nat_not_Nil [of "n div 10"]
      by (subst (asm) (2) dec_of_nat.simps) (cases "dec_of_nat (n div 10)"; simp)
    then show ?thesis using 1(1) [OF False] False by auto
  qed
qed

text \<open>\<open>i64::to_string\<close>.\<close>

definition dec_of_int :: "int \<Rightarrow> string" where
  "dec_of_int n = (if n < 0 then ''-'' @ dec_of_nat (nat (- n)) else dec_of_nat (nat n))"

section \<open>Strict UTF-8\<close>

text \<open>\<open>String::from_utf8\<close> followed by \<open>chars\<close>: the code points of a byte string,
  or \<open>None\<close> when it is not well-formed UTF-8 (truncated, overlong, a surrogate,
  or above U+10FFFF).\<close>

definition is_cont :: "char \<Rightarrow> bool" where
  "is_cont = in_range 0x80 0xBF"

definition cont_bits :: "char \<Rightarrow> nat" where
  "cont_bits c = byte c - 0x80"

fun utf8_decode :: "bytes \<Rightarrow> nat list option" where
  "utf8_decode [] = Some []"
| "utf8_decode (a # s) =
     (if byte a < 0x80 then map_option ((#) (byte a)) (utf8_decode s)
      else if in_range 0xC2 0xDF a then
        (case s of
           b # s' \<Rightarrow>
             if is_cont b
             then map_option ((#) ((byte a - 0xC0) * 64 + cont_bits b)) (utf8_decode s')
             else None
         | [] \<Rightarrow> None)
      else if in_range 0xE0 0xEF a then
        (case s of
           b # c # s' \<Rightarrow>
             if is_cont b \<and> is_cont c
               \<and> (byte a = 0xE0 \<longrightarrow> 0xA0 \<le> byte b) \<and> (byte a = 0xED \<longrightarrow> byte b \<le> 0x9F)
             then map_option ((#) ((byte a - 0xE0) * 4096 + cont_bits b * 64 + cont_bits c))
                    (utf8_decode s')
             else None
         | _ \<Rightarrow> None)
      else if in_range 0xF0 0xF4 a then
        (case s of
           b # c # d # s' \<Rightarrow>
             if is_cont b \<and> is_cont c \<and> is_cont d
               \<and> (byte a = 0xF0 \<longrightarrow> 0x90 \<le> byte b) \<and> (byte a = 0xF4 \<longrightarrow> byte b \<le> 0x8F)
             then map_option ((#) ((byte a - 0xF0) * 262144 + cont_bits b * 4096
                    + cont_bits c * 64 + cont_bits d)) (utf8_decode s')
             else None
         | _ \<Rightarrow> None)
      else None)"

text \<open>\<open>char::is_control\<close> (general category Cc).\<close>

definition is_control :: "nat \<Rightarrow> bool" where
  "is_control c \<longleftrightarrow> c \<le> 0x1F \<or> (0x7F \<le> c \<and> c \<le> 0x9F)"

text \<open>\<open>s.chars().any(char::is_control)\<close> on a string known to be UTF-8.\<close>

definition utf8_chars :: "string \<Rightarrow> nat list" where
  "utf8_chars s = (case utf8_decode s of Some cs \<Rightarrow> cs | None \<Rightarrow> [])"

definition has_control :: "string \<Rightarrow> bool" where
  "has_control s \<longleftrightarrow> list_ex is_control (utf8_chars s)"

text \<open>One step of the decoder: a byte below 128 is its own code point; any other
  lead byte consumes continuation bytes only and yields a code point above 127.\<close>

lemma utf8_decode_step:
  assumes "utf8_decode (a # s) = Some cs" "\<not> byte a < 0x80"
  obtains v pre s' cs' where "s = pre @ s'" "list_all is_cont pre" "0x80 \<le> v"
    "utf8_decode s' = Some cs'" "cs = v # cs'"
proof -
  have "\<exists>v pre s' cs'. s = pre @ s' \<and> list_all is_cont pre \<and> 0x80 \<le> v
      \<and> utf8_decode s' = Some cs' \<and> cs = v # cs'"
  proof -
    consider (two) "in_range 0xC2 0xDF a" | (three) "in_range 0xE0 0xEF a" "\<not> in_range 0xC2 0xDF a"
      | (four) "in_range 0xF0 0xF4 a" "\<not> in_range 0xE0 0xEF a" "\<not> in_range 0xC2 0xDF a"
      using assms by (auto split: if_splits)
    then show ?thesis
    proof cases
      case two
      with assms obtain b s' cs' where *: "s = [b] @ s'" "is_cont b" "utf8_decode s' = Some cs'"
        "cs = ((byte a - 0xC0) * 64 + cont_bits b) # cs'"
        by (auto split: list.splits if_splits)
      moreover have "0x80 \<le> (byte a - 0xC0) * 64 + cont_bits b"
        using two by (auto simp: in_range_def)
      ultimately show ?thesis by (metis list.pred_inject)
    next
      case three
      with assms obtain b c s' cs' where *: "s = [b, c] @ s'" "is_cont b" "is_cont c"
        "byte a = 0xE0 \<longrightarrow> 0xA0 \<le> byte b" "utf8_decode s' = Some cs'"
        "cs = ((byte a - 0xE0) * 4096 + cont_bits b * 64 + cont_bits c) # cs'"
        by (auto split: list.splits if_splits)
      moreover have "0x80 \<le> (byte a - 0xE0) * 4096 + cont_bits b * 64 + cont_bits c"
        using three *(4) by (cases "byte a = 0xE0") (auto simp: in_range_def cont_bits_def)
      ultimately show ?thesis by (metis list.pred_inject)
    next
      case four
      with assms obtain b c d s' cs' where *: "s = [b, c, d] @ s'" "is_cont b" "is_cont c" "is_cont d"
        "byte a = 0xF0 \<longrightarrow> 0x90 \<le> byte b" "utf8_decode s' = Some cs'"
        "cs = ((byte a - 0xF0) * 262144 + cont_bits b * 4096 + cont_bits c * 64 + cont_bits d) # cs'"
        by (auto split: list.splits if_splits)
      moreover have "0x80 \<le> (byte a - 0xF0) * 262144 + cont_bits b * 4096 + cont_bits c * 64 + cont_bits d"
        using four *(5) by (cases "byte a = 0xF0") (auto simp: in_range_def cont_bits_def)
      ultimately show ?thesis by (metis list.pred_inject)
    qed
  qed
  then show thesis using that by blast
qed

text \<open>An ASCII character occurs among the code points exactly when its byte
  occurs among the bytes: no multi-byte sequence hides one.\<close>

lemma utf8_decode_ascii:
  "utf8_decode s = Some cs \<Longrightarrow> byte x < 0x80 \<Longrightarrow> byte x \<in> set cs \<longleftrightarrow> x \<in> set s"
proof (induction s arbitrary: cs rule: length_induct)
  case (1 s)
  show ?case
  proof (cases s)
    case Nil
    then show ?thesis using 1(2) by simp
  next
    case (Cons a r)
    show ?thesis
    proof (cases "byte a < 0x80")
      case True
      then obtain cs' where "utf8_decode r = Some cs'" "cs = byte a # cs'"
        using 1(2) Cons by auto
      then show ?thesis using 1(1,3) Cons by (auto dest!: spec [of _ r])
    next
      case False
      obtain v pre s' cs' where *: "r = pre @ s'" "list_all is_cont pre" "0x80 \<le> v"
        "utf8_decode s' = Some cs'" "cs = v # cs'"
        using utf8_decode_step [OF 1(2) [unfolded Cons] False] .
      have "x \<notin> set pre" using *(2) 1(3) by (auto simp: list_all_iff is_cont_def in_range_def)
      moreover have "byte x \<in> set cs' \<longleftrightarrow> x \<in> set s'" using 1(1,3) * Cons by auto
      ultimately show ?thesis using * Cons False 1(3) by auto
    qed
  qed
qed

lemma utf8_decode_Cons_ascii:
  "byte a < 0x80 \<Longrightarrow> utf8_decode (a # s) = map_option ((#) (byte a)) (utf8_decode s)"
  by simp

declare utf8_decode.simps(2) [simp del]

end
