(* ===== verification/Grammar.thy ===== *)
theory Grammar
  imports Prelude
begin

text \<open>
  The shared micro-grammars of \<open>murl-core/src/grammar.rs\<close>: resource ids, roles
  and tags. The mURL selector parser and the manifest validator both call these
  three predicates, so one set of lemmas on their alphabets serves both.
\<close>

definition lower_or_digit :: "char \<Rightarrow> bool" where
  "lower_or_digit b \<longleftrightarrow> is_lower b \<or> is_digit b"

definition is_valid_resource_id :: "string \<Rightarrow> bool" where
  "is_valid_resource_id s \<longleftrightarrow>
     s \<noteq> [] \<and> length s \<le> 64
     \<and> list_all (\<lambda>(i, b). if i = (0::nat) then lower_or_digit b
                          else lower_or_digit b \<or> b = CHR ''-'' \<or> b = CHR ''_'')
         (enumerate 0 s)"

definition is_valid_role :: "string \<Rightarrow> bool" where
  "is_valid_role s \<longleftrightarrow>
     s \<noteq> [] \<and> length s \<le> 32
     \<and> list_all (\<lambda>(i, b). if i = (0::nat) then lower_or_digit b
                          else lower_or_digit b \<or> b = CHR ''-'')
         (enumerate 0 s)"

definition is_valid_tag :: "string \<Rightarrow> bool" where
  "is_valid_tag s \<longleftrightarrow>
     s \<noteq> [] \<and> length s \<le> 32
     \<and> list_all (\<lambda>b. lower_or_digit b \<or> b = CHR ''-'') s"

text \<open>The alphabets, as used by every client: an accepted name has only these
  bytes, so in particular no separator of the mURL syntax.\<close>

lemma list_all_enumerate_Cons:
  "list_all (\<lambda>(i, b). if i = (0::nat) then P b else Q b) (enumerate 0 (c # s))
     \<longleftrightarrow> P c \<and> list_all Q s"
proof -
  have "list_all (\<lambda>(i, b). if i = (0::nat) then P b else Q b) (enumerate (Suc k) s) \<longleftrightarrow> list_all Q s" for k
    by (induction s arbitrary: k) auto
  then show ?thesis by simp
qed

lemma is_valid_resource_id_Cons:
  "is_valid_resource_id (c # s) \<longleftrightarrow> length s < 64 \<and> lower_or_digit c
     \<and> list_all (\<lambda>b. lower_or_digit b \<or> b = CHR ''-'' \<or> b = CHR ''_'') s"
  by (auto simp: is_valid_resource_id_def list_all_enumerate_Cons simp del: enumerate_simps)

lemma is_valid_role_Cons:
  "is_valid_role (c # s) \<longleftrightarrow> length s < 32 \<and> lower_or_digit c
     \<and> list_all (\<lambda>b. lower_or_digit b \<or> b = CHR ''-'') s"
  by (auto simp: is_valid_role_def list_all_enumerate_Cons simp del: enumerate_simps)

lemma is_valid_resource_id_Nil [simp]: "\<not> is_valid_resource_id []"
  by (simp add: is_valid_resource_id_def)

lemma is_valid_role_Nil [simp]: "\<not> is_valid_role []"
  by (simp add: is_valid_role_def)

lemma is_valid_tag_Nil [simp]: "\<not> is_valid_tag []"
  by (simp add: is_valid_tag_def)

lemma resource_id_chars:
  "is_valid_resource_id s \<Longrightarrow> c \<in> set s \<Longrightarrow> lower_or_digit c \<or> c = CHR ''-'' \<or> c = CHR ''_''"
  by (cases s) (auto simp: is_valid_resource_id_Cons list_all_iff)

lemma role_chars: "is_valid_role s \<Longrightarrow> c \<in> set s \<Longrightarrow> lower_or_digit c \<or> c = CHR ''-''"
  by (cases s) (auto simp: is_valid_role_Cons list_all_iff)

lemma tag_chars: "is_valid_tag s \<Longrightarrow> c \<in> set s \<Longrightarrow> lower_or_digit c \<or> c = CHR ''-''"
  by (auto simp: is_valid_tag_def list_all_iff)

text \<open>Every role is a tag and a resource id, never the other way round only by
  length or the underscore.\<close>

lemma role_is_resource_id: "is_valid_role s \<Longrightarrow> is_valid_resource_id s"
  by (cases s) (auto simp: is_valid_role_Cons is_valid_resource_id_Cons list_all_iff)

lemma role_is_tag: "is_valid_role s \<Longrightarrow> is_valid_tag s"
  by (cases s) (auto simp: is_valid_role_Cons is_valid_tag_def list_all_iff)

end
