(* ===== verification/Murl.thy ===== *)
theory Murl
  imports Grammar
begin

text \<open>
  The \<open>murl:\<close> scheme of \<open>murl-core/src/murl.rs\<close>: the data model, the parser
  \<open>Murl::parse\<close> with its helpers, the canonical form (\<open>identity\<close>, \<open>Display\<close>) and
  percent-encoding. The lemmas establish the invariant the source's doc comment
  on \<open>Murl\<close> promises, and that the canonical form is a fixed point of parsing.
\<close>

section \<open>Limits and errors\<close>

definition MAX_MURL_LEN :: nat where "MAX_MURL_LEN = 1024"
definition MAX_SEGMENTS :: nat where "MAX_SEGMENTS = 8"
definition MAX_SEGMENT_BYTES :: nat where "MAX_SEGMENT_BYTES = 64"
definition MAX_AUTHORITY_LEN :: nat where "MAX_AUTHORITY_LEN = 253"
definition MAX_SELECTOR_ITEMS :: nat where "MAX_SELECTOR_ITEMS = 8"
definition LOCAL_AUTHORITY :: string where "LOCAL_AUTHORITY = ''local''"

datatype murl_error =
    TooLong
  | CanonicalTooLong nat
  | InvalidCharacter nat
  | MissingScheme
  | MissingAuthority
  | UserinfoForbidden
  | Ipv6NotSupported
  | InvalidAuthority string
  | InvalidPort string
  | MissingName
  | EmptySegment
  | TooManySegments
  | SegmentTooLong
  | InvalidSegment string
  | InvalidPercentEncoding string
  | MisplacedVersionMarker
  | InvalidVersion string
  | InvalidSelector string
  | InvalidQuery string

definition quoted :: "string \<Rightarrow> string" where
  "quoted s = ''`'' @ s @ ''`''"

text \<open>The messages of the error variants (\<open>thiserror\<close>).\<close>

fun murl_error_display :: "murl_error \<Rightarrow> string" where
  "murl_error_display TooLong = ''mURL exceeds maximum length of '' @ dec_of_nat MAX_MURL_LEN @ '' bytes''"
| "murl_error_display (CanonicalTooLong n) =
     ''mURL is '' @ dec_of_nat n @ '' bytes in canonical form, over the '' @ dec_of_nat MAX_MURL_LEN
     @ ''-byte maximum (percent-encoding expands characters outside the unreserved set)''"
| "murl_error_display (InvalidCharacter i) =
     ''mURL contains a non-printable or non-ASCII byte at offset '' @ dec_of_nat i @ ''; non-ASCII must be percent-encoded''"
| "murl_error_display MissingScheme = ''mURL must start with the scheme `murl://`''"
| "murl_error_display MissingAuthority = ''mURL has an empty authority''"
| "murl_error_display UserinfoForbidden = ''userinfo (`user@host`) is forbidden in mURL authorities''"
| "murl_error_display Ipv6NotSupported = ''IPv6 literals are not supported in mURL v0.1''"
| "murl_error_display (InvalidAuthority e) = ''invalid authority: '' @ e"
| "murl_error_display (InvalidPort e) = ''invalid port: '' @ e"
| "murl_error_display MissingName = ''mURL is missing a name (expected `murl://authority/name`)''"
| "murl_error_display EmptySegment = ''name contains an empty segment''"
| "murl_error_display TooManySegments = ''name has more than '' @ dec_of_nat MAX_SEGMENTS @ '' segments''"
| "murl_error_display SegmentTooLong = ''name segment exceeds '' @ dec_of_nat MAX_SEGMENT_BYTES @ '' bytes after decoding''"
| "murl_error_display (InvalidSegment e) = ''invalid name segment: '' @ e"
| "murl_error_display (InvalidPercentEncoding e) = ''invalid percent-encoding: '' @ e"
| "murl_error_display MisplacedVersionMarker = ''`@` may appear only once, as a version marker on the final name segment''"
| "murl_error_display (InvalidVersion e) = ''invalid version tag: '' @ e"
| "murl_error_display (InvalidSelector e) = ''invalid selector: '' @ e"
| "murl_error_display (InvalidQuery e) = ''invalid query: '' @ e"

section \<open>Authority and version\<close>

datatype authority = Local | Remote (host: string) (port: "16 word option")

fun is_local :: "authority \<Rightarrow> bool" where
  "is_local Local = True"
| "is_local (Remote _ _) = False"

fun is_loopback :: "authority \<Rightarrow> bool" where
  "is_loopback Local = False"
| "is_loopback (Remote h _) = (h = ''localhost'' \<or> h = ''127.0.0.1'' \<or> ends_with ''.localhost'' h)"

fun authority_display :: "authority \<Rightarrow> string" where
  "authority_display Local = LOCAL_AUTHORITY"
| "authority_display (Remote h (Some p)) = h @ '':'' @ dec_of_nat (unat p)"
| "authority_display (Remote h None) = h"

datatype version_tag = Latest | Pinned "32 word list"

fun parse_version_parts :: "string \<Rightarrow> string list \<Rightarrow> murl_error + 32 word list" where
  "parse_version_parts s [] = Inr []"
| "parse_version_parts s (p # ps) =
     (if p = [] \<or> 5 < length p \<or> \<not> all_digits p then
        Inl (InvalidVersion (quoted s @ '': components must be 1-5 digit integers''))
      else if 1 < length p \<and> starts_with ''0'' p then
        Inl (InvalidVersion (quoted s @ '': no leading zeros''))
      else and_then (parse_version_parts s ps) (\<lambda>ns. Inr (of_nat (nat_of_dec p) # ns)))"

definition version_parse :: "string \<Rightarrow> murl_error + version_tag" where
  "version_parse s =
     (if s = ''latest'' then Inr Latest
      else if s = [] then Inl (InvalidVersion ''empty version'')
      else let parts = split_on CHR ''.'' s in
        if 3 < length parts
        then Inl (InvalidVersion (quoted s @ '': at most 3 dotted components''))
        else and_then (parse_version_parts s parts) (\<lambda>ns. Inr (Pinned ns)))"

fun is_latest :: "version_tag \<Rightarrow> bool" where
  "is_latest Latest = True"
| "is_latest (Pinned _) = False"

fun version_display :: "version_tag \<Rightarrow> string" where
  "version_display Latest = ''latest''"
| "version_display (Pinned v) = join ''.'' (map (\<lambda>n. dec_of_nat (unat n)) v)"

section \<open>The parsed mURL\<close>

datatype selector_item = SelId string | SelRole string | SelTag string

fun selector_item_display :: "selector_item \<Rightarrow> string" where
  "selector_item_display (SelId s) = s"
| "selector_item_display (SelRole s) = ''role='' @ s"
| "selector_item_display (SelTag s) = ''tag='' @ s"

record murl =
  mu_authority :: authority
  mu_name :: "string list"
  mu_version :: version_tag
  mu_selector :: "selector_item list option"
  mu_query :: "string option"

section \<open>Percent-encoding\<close>

definition hex_val :: "char \<Rightarrow> nat option" where
  "hex_val b =
     (if in_range 48 57 b then Some (byte b - 48)
      else if in_range 97 102 b then Some (byte b - 97 + 10)
      else if in_range 65 70 b then Some (byte b - 65 + 10)
      else None)"

text \<open>The decoding loop; \<open>whole\<close> is the string the error messages quote.\<close>

fun percent_decode_from :: "string \<Rightarrow> string \<Rightarrow> murl_error + bytes" where
  "percent_decode_from whole [] = Inr []"
| "percent_decode_from whole (b # rest) =
     (if b = CHR ''%'' then
        (case rest of
           x # y # rest' \<Rightarrow>
             (case (hex_val x, hex_val y) of
                (Some h, Some l) \<Rightarrow>
                  and_then (percent_decode_from whole rest')
                    (\<lambda>out. Inr (char_of (push_bit 4 h OR l) # out))
              | _ \<Rightarrow> Inl (InvalidPercentEncoding (''bad hex digits in '' @ quoted whole)))
         | _ \<Rightarrow> Inl (InvalidPercentEncoding (''truncated escape in '' @ quoted whole)))
      else and_then (percent_decode_from whole rest) (\<lambda>out. Inr (b # out)))"

definition percent_decode :: "string \<Rightarrow> murl_error + bytes" where
  "percent_decode s = percent_decode_from s s"

definition unreserved :: "char \<Rightarrow> bool" where
  "unreserved b \<longleftrightarrow> is_alnum b \<or> b \<in> {CHR ''-'', CHR ''.'', CHR ''_'', CHR ''~''}"

text \<open>\<open>char::from_digit(d, 16)\<close> upper-cased.\<close>

definition hex_digit :: "nat \<Rightarrow> char" where
  "hex_digit d = upper_char (if d < 10 then char_of (48 + d) else char_of (97 + (d - 10)))"

fun encode_segment :: "string \<Rightarrow> string" where
  "encode_segment [] = []"
| "encode_segment (b # s) =
     (if unreserved b then [b]
      else [CHR ''%'', hex_digit (drop_bit 4 (byte b)), hex_digit (byte b AND 15)])
     @ encode_segment s"

section \<open>Canonical form\<close>

definition identity :: "murl \<Rightarrow> string" where
  "identity m =
     ''murl://'' @ authority_display (mu_authority m)
     @ concat (map (\<lambda>seg. ''/'' @ encode_segment seg) (mu_name m))
     @ (case mu_version m of Latest \<Rightarrow> [] | Pinned _ \<Rightarrow> ''@'' @ version_display (mu_version m))"

definition short_name :: "murl \<Rightarrow> string" where
  "short_name m = last (mu_name m)"

definition name_path :: "murl \<Rightarrow> string" where
  "name_path m = join ''/'' (mu_name m)"

definition selector_display :: "murl \<Rightarrow> string option" where
  "selector_display m =
     map_option (\<lambda>items. join '','' (map selector_item_display items)) (mu_selector m)"

definition murl_display :: "murl \<Rightarrow> string" where
  "murl_display m =
     identity m
     @ (case mu_query m of None \<Rightarrow> [] | Some q \<Rightarrow> ''?'' @ q)
     @ (case selector_display m of None \<Rightarrow> [] | Some sel \<Rightarrow> ''#'' @ sel)"

section \<open>Parsing\<close>

definition strip_scheme :: "string \<Rightarrow> string option" where
  "strip_scheme input =
     (if length input < 7 then None
      else if eq_ignore_ascii_case (take 7 input) ''murl://'' then Some (drop 7 input)
      else None)"

fun check_labels :: "string \<Rightarrow> string list \<Rightarrow> murl_error + unit" where
  "check_labels h [] = Inr ()"
| "check_labels h (label # rest) =
     (if label = [] \<or> 63 < length label then
        Inl (InvalidAuthority (''bad label in '' @ quoted h))
      else if \<not> list_all (\<lambda>b. is_lower b \<or> is_digit b \<or> b = CHR ''-'') label then
        Inl (InvalidAuthority (''label '' @ quoted label
          @ '' has characters outside [a-z0-9-] (IDN hosts must be punycoded)''))
      else if starts_with ''-'' label \<or> ends_with ''-'' label then
        Inl (InvalidAuthority (''label '' @ quoted label @ '' starts or ends with '' @
          [CHR 0x27, CHR ''-'', CHR 0x27]))
      else check_labels h rest)"

definition parse_host :: "string \<Rightarrow> 16 word option \<Rightarrow> murl_error + authority" where
  "parse_host host_raw prt =
     (let h = to_ascii_lowercase host_raw in
      if MAX_AUTHORITY_LEN < length h then Inl (InvalidAuthority ''host too long'')
      else if h = LOCAL_AUTHORITY then
        (if prt \<noteq> None
         then Inl (InvalidAuthority ''the `local` authority takes no port'')
         else Inr Local)
      else and_then (check_labels h (split_on CHR ''.'' h)) (\<lambda>_. Inr (Remote h prt)))"

definition parse_port :: "string \<Rightarrow> murl_error + 16 word" where
  "parse_port p =
     (if p = [] \<or> 5 < length p \<or> \<not> all_digits p then Inl (InvalidPort p)
      else let n = nat_of_dec p in
        if n = 0 \<or> 65535 < n then Inl (InvalidPort p) else Inr (of_nat n))"

definition parse_authority :: "string \<Rightarrow> murl_error + authority" where
  "parse_authority raw =
     (if raw = [] then Inl MissingAuthority
      else if CHR ''@'' \<in> set raw then Inl UserinfoForbidden
      else if CHR ''['' \<in> set raw \<or> CHR '']'' \<in> set raw then Inl Ipv6NotSupported
      else case split_once CHR '':'' raw of
        Some (h, p) \<Rightarrow> and_then (parse_port p) (\<lambda>n. parse_host h (Some n))
      | None \<Rightarrow> parse_host raw None)"

text \<open>\<open>for c in s.chars()\<close>: the first offending code point decides the message.\<close>

fun check_segment_chars :: "string \<Rightarrow> nat list \<Rightarrow> murl_error + unit" where
  "check_segment_chars raw [] = Inr ()"
| "check_segment_chars raw (c # cs) =
     (if is_control c then
        Inl (InvalidSegment (quoted raw @ '' decodes to a control character''))
      else if c = byte (CHR ''/'') \<or> c = byte (CHR 0x5C) then
        Inl (InvalidSegment (quoted raw @ '' decodes to a path separator''))
      else check_segment_chars raw cs)"

definition decode_segment :: "string \<Rightarrow> murl_error + string" where
  "decode_segment raw =
     (if raw = [] then Inl EmptySegment
      else and_then (percent_decode raw) (\<lambda>s.
        if MAX_SEGMENT_BYTES < length s then Inl SegmentTooLong
        else case utf8_decode s of
          None \<Rightarrow> Inl (InvalidSegment (quoted raw @ '' is not valid UTF-8''))
        | Some cs \<Rightarrow> and_then (check_segment_chars raw cs) (\<lambda>_.
            if s = ''.'' \<or> s = ''..'' then Inl (InvalidSegment ''dot segments are forbidden'')
            else Inr s)))"

definition parse_selector_item :: "string \<Rightarrow> murl_error + selector_item" where
  "parse_selector_item part =
     (case strip_prefix ''role='' part of
        Some role \<Rightarrow>
          if \<not> is_valid_role role
          then Inl (InvalidSelector (quoted part @ '': roles are [a-z0-9][a-z0-9-]{0,31}''))
          else Inr (SelRole role)
      | None \<Rightarrow>
          (case strip_prefix ''tag='' part of
             Some tag \<Rightarrow>
               if \<not> is_valid_tag tag
               then Inl (InvalidSelector (quoted part @ '': tags are [a-z0-9-]{1,32}''))
               else Inr (SelTag tag)
           | None \<Rightarrow>
               if \<not> is_valid_resource_id part
               then Inl (InvalidSelector (quoted part @ '': resource ids are [a-z0-9][a-z0-9_-]{0,63}''))
               else Inr (SelId part)))"

definition parse_selector :: "string \<Rightarrow> murl_error + selector_item list" where
  "parse_selector f =
     (if f = [] then Inl (InvalidSelector ''empty fragment'')
      else let parts = split_on CHR '','' f in
        if MAX_SELECTOR_ITEMS < length parts
        then Inl (InvalidSelector (''at most '' @ dec_of_nat MAX_SELECTOR_ITEMS @ '' comma-separated items''))
        else traverse parse_selector_item parts)"

fun first_invalid_char :: "nat \<Rightarrow> string \<Rightarrow> nat option" where
  "first_invalid_char i [] = None"
| "first_invalid_char i (b # s) =
     (if \<not> in_range 0x21 0x7E b then Some i else first_invalid_char (Suc i) s)"

text \<open>The segment loop: only the final raw segment may carry \<open>@version\<close>.\<close>

fun parse_segments :: "string list \<Rightarrow> murl_error + string list \<times> version_tag" where
  "parse_segments [] = Inr ([], Latest)"
| "parse_segments [raw] =
     (case split_once CHR ''@'' raw of
        Some (base, ver) \<Rightarrow>
          if CHR ''@'' \<in> set ver then Inl MisplacedVersionMarker
          else if base = [] then Inl EmptySegment
          else and_then (version_parse ver) (\<lambda>v.
                 and_then (decode_segment base) (\<lambda>s. Inr ([s], v)))
      | None \<Rightarrow> and_then (decode_segment raw) (\<lambda>s. Inr ([s], Latest)))"
| "parse_segments (raw # rest) =
     (if CHR ''@'' \<in> set raw then Inl MisplacedVersionMarker
      else and_then (decode_segment raw) (\<lambda>s.
             and_then (parse_segments rest) (\<lambda>(ss, v). Inr (s # ss, v))))"

definition parse_path :: "string \<Rightarrow> murl_error + string list \<times> version_tag" where
  "parse_path path_raw =
     (if path_raw = [] then Inl MissingName
      else let raw_segments = split_on CHR ''/'' path_raw in
        if MAX_SEGMENTS < length raw_segments then Inl TooManySegments
        else parse_segments raw_segments)"

definition cut_at :: "char \<Rightarrow> string \<Rightarrow> string \<times> string option" where
  "cut_at d s = (case split_once d s of Some (a, b) \<Rightarrow> (a, Some b) | None \<Rightarrow> (s, None))"

definition murl_parse :: "string \<Rightarrow> murl_error + murl" where
  "murl_parse input =
     (if MAX_MURL_LEN < length input then Inl TooLong
      else case first_invalid_char 0 input of
        Some i \<Rightarrow> Inl (InvalidCharacter i)
      | None \<Rightarrow>
          and_then (ok_or MissingScheme (strip_scheme input)) (\<lambda>rest0.
          let (rest1, fragment) = cut_at CHR ''#'' rest0;
              (rest, query) = cut_at CHR ''?'' rest1 in
          and_then (ok_or MissingName (split_once CHR ''/'' rest)) (\<lambda>(auth_raw, path_raw).
          and_then (parse_authority auth_raw) (\<lambda>auth.
          and_then (parse_path path_raw) (\<lambda>(segments, version).
          and_then (case fragment of None \<Rightarrow> Inr None
                    | Some f \<Rightarrow> and_then (parse_selector f) (\<lambda>items. Inr (Some items))) (\<lambda>sel.
          and_then (case query of None \<Rightarrow> Inr ()
                    | Some q \<Rightarrow> reject_if (CHR ''#'' \<in> set q \<or> 512 < length q) (InvalidQuery q)) (\<lambda>_.
          let m = \<lparr> mu_authority = auth, mu_name = segments, mu_version = version,
                    mu_selector = sel, mu_query = query \<rparr>;
              canonical_len = length (murl_display m) in
          if MAX_MURL_LEN < canonical_len then Inl (CanonicalTooLong canonical_len)
          else Inr m)))))))"

section \<open>The invariant of a parsed mURL\<close>

definition valid_label :: "string \<Rightarrow> bool" where
  "valid_label l \<longleftrightarrow> l \<noteq> [] \<and> length l \<le> 63
     \<and> list_all (\<lambda>b. is_lower b \<or> is_digit b \<or> b = CHR ''-'') l
     \<and> \<not> starts_with ''-'' l \<and> \<not> ends_with ''-'' l"

fun wf_authority :: "authority \<Rightarrow> bool" where
  "wf_authority Local = True"
| "wf_authority (Remote h p) =
     (h \<noteq> LOCAL_AUTHORITY \<and> length h \<le> MAX_AUTHORITY_LEN
      \<and> list_all valid_label (split_on CHR ''.'' h) \<and> p \<noteq> Some 0)"

fun wf_version :: "version_tag \<Rightarrow> bool" where
  "wf_version Latest = True"
| "wf_version (Pinned v) = (v \<noteq> [] \<and> length v \<le> 3 \<and> list_all (\<lambda>n. unat n < 100000) v)"

definition plain_cp :: "nat \<Rightarrow> bool" where
  "plain_cp c \<longleftrightarrow> \<not> is_control c \<and> c \<noteq> byte (CHR ''/'') \<and> c \<noteq> byte (CHR 0x5C)"

definition wf_segment :: "string \<Rightarrow> bool" where
  "wf_segment s \<longleftrightarrow> s \<noteq> [] \<and> length s \<le> MAX_SEGMENT_BYTES \<and> s \<noteq> ''.'' \<and> s \<noteq> ''..''
     \<and> (case utf8_decode s of None \<Rightarrow> False
        | Some cs \<Rightarrow> list_all plain_cp cs)"

fun wf_item :: "selector_item \<Rightarrow> bool" where
  "wf_item (SelId s) = is_valid_resource_id s"
| "wf_item (SelRole s) = is_valid_role s"
| "wf_item (SelTag s) = is_valid_tag s"

definition wf_query :: "string \<Rightarrow> bool" where
  "wf_query q \<longleftrightarrow> list_all (in_range 0x21 0x7E) q \<and> CHR ''#'' \<notin> set q \<and> length q \<le> 512"

definition wf_murl :: "murl \<Rightarrow> bool" where
  "wf_murl m \<longleftrightarrow> wf_authority (mu_authority m)
     \<and> mu_name m \<noteq> [] \<and> length (mu_name m) \<le> MAX_SEGMENTS \<and> list_all wf_segment (mu_name m)
     \<and> wf_version (mu_version m)
     \<and> opt_all (\<lambda>items. items \<noteq> [] \<and> length items \<le> MAX_SELECTOR_ITEMS \<and> list_all wf_item items)
         (mu_selector m)
     \<and> opt_all wf_query (mu_query m)
     \<and> length (murl_display m) \<le> MAX_MURL_LEN"

section \<open>Percent-encoding is a round trip\<close>

lemma hex_digit_upper: "10 \<le> d \<Longrightarrow> d < 16 \<Longrightarrow> hex_digit d = char_of (65 + (d - 10))"
  by (simp add: hex_digit_def upper_char_def is_lower_def in_range_def add.commute)

lemma hex_digit_low: "d < 10 \<Longrightarrow> hex_digit d = char_of (48 + d)"
  by (simp add: hex_digit_def upper_char_def is_lower_def in_range_def)

lemma hex_val_digit [simp]: "d < 16 \<Longrightarrow> hex_val (hex_digit d) = Some d"
  by (cases "d < 10") (auto simp: hex_digit_low hex_digit_upper hex_val_def in_range_def)

lemma hex_val_less: "hex_val b = Some d \<Longrightarrow> d < 16"
  by (auto simp: hex_val_def in_range_def split: if_splits)

lemma low_nibble: "n AND 15 = take_bit 4 (n :: nat)"
  using take_bit_eq_mask [of 4 n] by (simp add: mask_eq_exp_minus_1)

lemma nibbles: "push_bit 4 (drop_bit 4 n) OR (n AND 15) = (n :: nat)"
  unfolding low_nibble by (rule bit_eqI) (auto simp: bit_simps)

lemma high_nibble_less [simp]: "drop_bit 4 (byte b) < 16"
  using byte_less_256 [of b] by (simp add: drop_bit_eq_div less_mult_imp_div_less)

lemma low_nibble_less [simp]: "byte b AND 15 < 16"
  by (simp add: low_nibble take_bit_eq_mod)

lemma unreserved_not_pct [simp]: "\<not> unreserved CHR ''%''"
  by code_simp

lemma percent_decode_encode: "percent_decode_from whole (encode_segment s) = Inr s"
proof (induction s)
  case (Cons b s)
  then show ?case by (cases "unreserved b") (auto simp: nibbles)
qed simp

text \<open>The alphabet of the canonical form of a segment.\<close>

definition canonical_char :: "char \<Rightarrow> bool" where
  "canonical_char c \<longleftrightarrow> unreserved c \<or> c = CHR ''%''"

lemma hex_digit_alnum: "d < 16 \<Longrightarrow> is_alnum (hex_digit d)"
  by (cases "d < 10")
     (auto simp: hex_digit_low hex_digit_upper byte_class_defs)

lemma encode_segment_chars: "c \<in> set (encode_segment s) \<Longrightarrow> canonical_char c"
  by (induction s) (auto simp: canonical_char_def unreserved_def hex_digit_alnum split: if_splits)

lemma encode_segment_Nil [simp]: "encode_segment s = [] \<longleftrightarrow> s = []"
  by (cases s) auto

lemma encode_segment_inject [simp]: "encode_segment s = encode_segment t \<longleftrightarrow> s = t"
  by (metis percent_decode_encode sum.inject(2))

lemma encode_segment_unreserved: "list_all unreserved s \<Longrightarrow> encode_segment s = s"
  by (induction s) auto

lemma length_encode_segment: "length s \<le> length (encode_segment s) \<and> length (encode_segment s) \<le> 3 * length s"
  by (induction s) auto

section \<open>Segments\<close>

lemma check_segment_chars_iff [simp]:
  "check_segment_chars raw cs = Inr u \<longleftrightarrow>
     list_all plain_cp cs"
  by (induction cs) (auto simp: plain_cp_def)

lemma decode_segment_iff:
  "decode_segment raw = Inr s \<longleftrightarrow> raw \<noteq> [] \<and> percent_decode raw = Inr s \<and> length s \<le> MAX_SEGMENT_BYTES
     \<and> s \<noteq> ''.'' \<and> s \<noteq> ''..''
     \<and> (\<exists>cs. utf8_decode s = Some cs \<and>
          list_all plain_cp cs)"
proof (cases "percent_decode raw")
  case (Inr t)
  then show ?thesis
    by (cases "utf8_decode t") (auto simp: decode_segment_def)
qed (simp add: decode_segment_def)

lemma percent_decode_from_Nil: "percent_decode_from whole raw = Inr [] \<Longrightarrow> raw = []"
  by (cases "(whole, raw)" rule: percent_decode_from.cases) (auto split: if_splits list.splits option.splits)

lemma decode_segment_wf: "decode_segment raw = Inr s \<Longrightarrow> wf_segment s"
  by (auto simp: decode_segment_iff wf_segment_def percent_decode_def dest: percent_decode_from_Nil)

lemma decode_encode_segment: "wf_segment s \<Longrightarrow> decode_segment (encode_segment s) = Inr s"
  by (auto simp: decode_segment_iff wf_segment_def percent_decode_def percent_decode_encode
           split: option.splits)

text \<open>No accepted segment can name another directory: no separator byte, no
  NUL or other ASCII control byte, and no dot segment.\<close>

lemma wf_segment_no_separator:
  "wf_segment s \<Longrightarrow> CHR ''/'' \<notin> set s \<and> CHR 0x5C \<notin> set s \<and> (\<forall>c\<in>set s. 0x20 \<le> byte c \<and> byte c \<noteq> 0x7F)"
proof -
  assume wf: "wf_segment s"
  then obtain cs where cs: "utf8_decode s = Some cs"
    "list_all plain_cp cs"
    by (auto simp: wf_segment_def split: option.splits)
  have "byte c \<in> set cs" if "c \<in> set s" "byte c < 0x80" for c
    using utf8_decode_ascii [OF cs(1) that(2)] that(1) by simp
  with cs(2) have *: "plain_cp (byte c)" if "c \<in> set s" "byte c < 0x80" for c
    using that by (simp add: list_all_iff)
  show ?thesis
  proof (intro conjI ballI)
    show "CHR ''/'' \<notin> set s" "CHR 0x5C \<notin> set s"
      using * [of "CHR ''/''"] * [of "CHR 0x5C"] by (auto simp: plain_cp_def)
    fix c assume "c \<in> set s"
    then show "0x20 \<le> byte c" "byte c \<noteq> 0x7F" using * [of c]
      by (cases "byte c < 0x80"; auto simp: plain_cp_def is_control_def)+
  qed
qed

section \<open>Versions\<close>

lemma leading_zero: "1 < length (dec_of_nat n) \<Longrightarrow> \<not> starts_with ''0'' (dec_of_nat n)"
  by (auto simp: starts_with_iff dest: dec_of_nat_no_leading_zero)

lemma parse_version_parts_wf:
  "parse_version_parts s ps = Inr ns \<Longrightarrow> length ns = length ps \<and> list_all (\<lambda>n. unat n < 100000) ns"
proof (induction ps arbitrary: ns)
  case (Cons p ps)
  then obtain ns' where *: "all_digits p" "length p \<le> 5" "parse_version_parts s ps = Inr ns'"
    "ns = of_nat (nat_of_dec p) # ns'"
    by (auto split: if_splits)
  have "nat_of_dec p < 10 ^ length p" using * nat_of_dec_bound by blast
  also have "\<dots> \<le> 10 ^ 5" using *(2) by (intro power_increasing) auto
  finally have "unat (of_nat (nat_of_dec p) :: 32 word) < 100000"
    by (simp add: unat_of_nat)
  with Cons.IH [OF *(3)] *(4) show ?case by simp
qed simp

lemma parse_version_parts_display:
  "list_all (\<lambda>n. unat n < 100000) v \<Longrightarrow>
   parse_version_parts s (map (\<lambda>n. dec_of_nat (unat n)) v) = Inr v"
proof (induction v)
  case (Cons n v)
  then have "length (dec_of_nat (unat n)) \<le> 5"
    by (intro length_dec_of_nat) auto
  with Cons show ?case using leading_zero [of "unat n"] by (auto simp: not_less)
qed simp

lemma dec_of_nat_chars: "c \<in> set (dec_of_nat n) \<Longrightarrow> is_digit c"
  using all_digits_dec_of_nat [of n] by (auto simp: all_digits_def list_all_iff)

lemma version_display_chars:
  "c \<in> set (version_display (Pinned v)) \<Longrightarrow> is_digit c \<or> c = CHR ''.''"
  using set_join [of "''.''" "map (\<lambda>n. dec_of_nat (unat n)) v"]
  by (auto dest: dec_of_nat_chars)

lemma version_parse_wf: "version_parse s = Inr v \<Longrightarrow> wf_version v"
  by (auto simp: version_parse_def Let_def dest!: parse_version_parts_wf split: if_splits)

lemma version_display_parts:
  "v \<noteq> [] \<Longrightarrow> split_on CHR ''.'' (version_display (Pinned v)) = map (\<lambda>n. dec_of_nat (unat n)) v"
  unfolding version_display.simps
  by (rule split_on_join) (auto dest!: dec_of_nat_chars simp: is_digit_def in_range_def)

lemma version_display_not_Nil: "v \<noteq> [] \<Longrightarrow> version_display (Pinned v) \<noteq> []"
  by (cases v) (auto simp: join_eq_Nil)

lemma version_parse_display: "wf_version (Pinned v) \<Longrightarrow> version_parse (version_display (Pinned v)) = Inr (Pinned v)"
proof -
  assume wf: "wf_version (Pinned v)"
  have "CHR ''l'' \<notin> set (version_display (Pinned v))"
    by (auto dest!: version_display_chars simp: is_digit_def in_range_def simp del: version_display.simps)
  then have "version_display (Pinned v) \<noteq> ''latest''" by (metis list.set_intros(1))
  then show ?thesis
    using wf version_display_not_Nil [of v]
    by (simp add: version_parse_def Let_def version_display_parts parse_version_parts_display
             del: version_display.simps)
qed

section \<open>Authorities\<close>

definition host_char :: "char \<Rightarrow> bool" where
  "host_char c \<longleftrightarrow> is_lower c \<or> is_digit c \<or> c = CHR ''-'' \<or> c = CHR ''.''"

lemma check_labels_iff [simp]: "check_labels h ls = Inr u \<longleftrightarrow> list_all valid_label ls"
  by (induction ls) (auto simp: valid_label_def)

lemma wf_host_chars:
  "list_all valid_label (split_on CHR ''.'' h) \<Longrightarrow> c \<in> set h \<Longrightarrow> host_char c"
proof -
  assume *: "list_all valid_label (split_on CHR ''.'' h)" "c \<in> set h"
  have "set h \<subseteq> set ''.'' \<union> (\<Union>w\<in>set (split_on CHR ''.'' h). set w)"
    using set_join [of "''.''" "split_on CHR ''.'' h"] by simp
  with * show ?thesis by (auto simp: valid_label_def list_all_iff host_char_def)
qed

lemma host_char_lower: "host_char c \<Longrightarrow> lower_char c = c"
  by (rule lower_char_id) (auto simp: host_char_def is_lower_def is_upper_def is_digit_def in_range_def)

lemma wf_host_lower:
  "list_all valid_label (split_on CHR ''.'' h) \<Longrightarrow> to_ascii_lowercase h = h"
  unfolding to_ascii_lowercase_def by (rule map_idI) (auto dest: wf_host_chars host_char_lower)

lemma wf_host_not_Nil: "list_all valid_label (split_on CHR ''.'' h) \<Longrightarrow> h \<noteq> []"
  by (auto simp: valid_label_def)

lemma parse_host_wf: "p \<noteq> Some 0 \<Longrightarrow> parse_host h p = Inr a \<Longrightarrow> wf_authority a"
  by (auto simp: parse_host_def Let_def split: if_splits)

lemma parse_host_display:
  "wf_authority (Remote h p) \<Longrightarrow> parse_host h p = Inr (Remote h p)"
  by (simp add: parse_host_def Let_def wf_host_lower)

lemma parse_port_wf: "parse_port s = Inr p \<Longrightarrow> p \<noteq> 0"
proof -
  assume "parse_port s = Inr p"
  then have "p = of_nat (nat_of_dec s)" "nat_of_dec s \<noteq> 0" "nat_of_dec s \<le> 65535"
    by (auto simp: parse_port_def Let_def split: if_splits)
  then show ?thesis by (simp add: word_of_nat_eq_0_iff nat_dvd_not_less)
qed

lemma parse_port_display: "p \<noteq> 0 \<Longrightarrow> parse_port (dec_of_nat (unat p)) = Inr p"
proof -
  assume "p \<noteq> 0"
  moreover have "unat p < 65536" using unsigned_less [of p] by simp
  moreover have "length (dec_of_nat (unat p)) \<le> 5"
    using calculation(2) by (intro length_dec_of_nat) auto
  ultimately show ?thesis by (simp add: parse_port_def Let_def not_less unat_eq_0)
qed

lemma parse_authority_wf: "parse_authority s = Inr a \<Longrightarrow> wf_authority a"
proof (cases "split_once CHR '':'' s")
  case None
  moreover assume "parse_authority s = Inr a"
  ultimately show ?thesis
    using parse_host_wf [of None s a] by (simp add: parse_authority_def split: if_splits)
next
  case (Some hp)
  moreover assume "parse_authority s = Inr a"
  ultimately obtain h p n where "parse_port p = Inr n" "parse_host h (Some n) = Inr a"
    by (cases hp) (auto simp: parse_authority_def split: if_splits)
  then show ?thesis using parse_port_wf parse_host_wf by blast
qed

lemma authority_display_chars:
  "wf_authority a \<Longrightarrow> c \<in> set (authority_display a) \<Longrightarrow> host_char c \<or> c = CHR '':''"
  by (cases a rule: authority_display.cases)
     (auto simp: LOCAL_AUTHORITY_def host_char_def is_lower_def in_range_def
           dest: wf_host_chars [unfolded host_char_def] dec_of_nat_chars)

lemma host_char_not: "host_char c \<Longrightarrow> c \<notin> {CHR ''@'', CHR ''['', CHR '']'', CHR '':'', CHR ''/'', CHR ''?'', CHR ''#''}"
  by (auto simp: host_char_def is_lower_def is_digit_def in_range_def)

lemma host_char_colon: "CHR '':'' \<notin> {CHR ''@'', CHR ''['', CHR '']'', CHR ''/'', CHR ''?'', CHR ''#''}"
  by simp

lemma authority_display_not:
  "wf_authority a \<Longrightarrow> c \<in> {CHR ''@'', CHR ''['', CHR '']'', CHR ''/'', CHR ''?'', CHR ''#''} \<Longrightarrow>
   c \<notin> set (authority_display a)"
  by (metis authority_display_chars host_char_not host_char_colon insert_iff)

lemma wf_host_no_colon: "list_all valid_label (split_on CHR ''.'' h) \<Longrightarrow> CHR '':'' \<notin> set h"
  using wf_host_chars [of h "CHR '':''"] host_char_not by blast

lemma parse_authority_display: "wf_authority a \<Longrightarrow> parse_authority (authority_display a) = Inr a"
proof -
  assume wf: "wf_authority a"
  have no: "CHR ''@'' \<notin> set (authority_display a)" "CHR ''['' \<notin> set (authority_display a)"
    "CHR '']'' \<notin> set (authority_display a)"
    using authority_display_not [OF wf] by auto
  show ?thesis
  proof (cases a rule: authority_display.cases)
    case 1
    have "parse_authority (authority_display Local) = Inr Local" by code_simp
    with 1 show ?thesis by simp
  next
    case (2 h p)
    have h: "CHR '':'' \<notin> set h" "h \<noteq> []"
      using wf_host_no_colon [of h] wf_host_not_Nil [of h] wf 2 by simp_all
    have "parse_authority (authority_display a) = and_then (parse_port (dec_of_nat (unat p))) (\<lambda>n. parse_host h (Some n))"
      using no h 2 by (simp add: parse_authority_def)
    also have "\<dots> = Inr a"
      using wf 2 parse_host_display by (simp add: parse_port_display)
    finally show ?thesis .
  next
    case (3 h)
    have h: "CHR '':'' \<notin> set h" "h \<noteq> []"
      using wf_host_no_colon [of h] wf_host_not_Nil [of h] wf 3 by simp_all
    have "parse_authority (authority_display a) = parse_host h None"
      using no h 3 by (simp add: parse_authority_def)
    then show ?thesis using wf 3 parse_host_display by simp
  qed
qed

section \<open>Selectors\<close>

lemma resource_id_no_eq: "is_valid_resource_id s \<Longrightarrow> CHR ''='' \<notin> set s"
  by (auto dest!: resource_id_chars simp: lower_or_digit_def is_lower_def is_digit_def in_range_def)

lemma resource_id_no_prefix:
  "is_valid_resource_id s \<Longrightarrow> strip_prefix ''role='' s = None \<and> strip_prefix ''tag='' s = None"
proof -
  assume "is_valid_resource_id s"
  then have *: "CHR ''='' \<notin> set s" by (rule resource_id_no_eq)
  have "strip_prefix ''role='' s \<noteq> Some r" "strip_prefix ''tag='' s \<noteq> Some r" for r
    using * by (auto simp: strip_prefix_iff)
  then show ?thesis by (metis not_None_eq)
qed

lemma parse_selector_item_wf: "parse_selector_item p = Inr i \<Longrightarrow> wf_item i"
  by (auto simp: parse_selector_item_def split: option.splits if_splits)

lemma parse_selector_item_display: "wf_item i \<Longrightarrow> parse_selector_item (selector_item_display i) = Inr i"
proof (cases i)
  case (SelTag s)
  moreover assume "wf_item i"
  moreover have "strip_prefix ''role='' (''tag='' @ s) = None" by simp
  ultimately show ?thesis by (simp add: parse_selector_item_def)
qed (auto simp: parse_selector_item_def resource_id_no_prefix)

lemma item_chars:
  "wf_item i \<Longrightarrow> c \<in> set (selector_item_display i) \<Longrightarrow>
   in_range 0x21 0x7E c \<and> c \<noteq> CHR '','' \<and> c \<noteq> CHR ''#''"
  by (cases i)
     (auto dest!: resource_id_chars role_chars tag_chars
           simp: lower_or_digit_def is_lower_def is_digit_def in_range_def)

lemma item_not_Nil: "wf_item i \<Longrightarrow> selector_item_display i \<noteq> []"
  by (cases i) auto

lemma selector_parts:
  "items \<noteq> [] \<Longrightarrow> list_all wf_item items \<Longrightarrow>
   split_on CHR '','' (join '','' (map selector_item_display items)) = map selector_item_display items"
  by (rule split_on_join) (auto simp: list_all_iff dest: item_chars)

lemma parse_selector_wf:
  "parse_selector f = Inr items \<Longrightarrow>
   items \<noteq> [] \<and> length items \<le> MAX_SELECTOR_ITEMS \<and> list_all wf_item items"
proof -
  assume "parse_selector f = Inr items"
  then have *: "traverse parse_selector_item (split_on CHR '','' f) = Inr items"
    "length (split_on CHR '','' f) \<le> MAX_SELECTOR_ITEMS"
    by (auto simp: parse_selector_def Let_def split: if_splits)
  then have "length items = length (split_on CHR '','' f)" by (blast dest: traverse_length)
  moreover have "wf_item i" if "i \<in> set items" for i
    using traverse_set [OF *(1) that] parse_selector_item_wf by blast
  ultimately show ?thesis using *(2) split_on_not_Nil [of "CHR '',''" f]
    by (auto simp: list_all_iff simp del: split_on_not_Nil)
qed

lemma parse_selector_display:
  "items \<noteq> [] \<Longrightarrow> length items \<le> MAX_SELECTOR_ITEMS \<Longrightarrow> list_all wf_item items \<Longrightarrow>
   parse_selector (join '','' (map selector_item_display items)) = Inr items"
  by (auto simp: parse_selector_def Let_def selector_parts list_all_iff join_eq_Nil item_not_Nil
           intro!: traverse_map_Inr parse_selector_item_display)

section \<open>The path\<close>

text \<open>The raw segments that the canonical form of a name and version splits into.\<close>

fun raw_segments :: "string \<Rightarrow> string list \<Rightarrow> string list" where
  "raw_segments ver [] = []"
| "raw_segments ver [s] = [encode_segment s @ ver]"
| "raw_segments ver (s # ss) = encode_segment s # raw_segments ver ss"

definition version_suffix :: "version_tag \<Rightarrow> string" where
  "version_suffix v = (case v of Latest \<Rightarrow> [] | Pinned _ \<Rightarrow> ''@'' @ version_display v)"

lemma raw_segments_join:
  "ss \<noteq> [] \<Longrightarrow> concat (map (\<lambda>seg. ''/'' @ encode_segment seg) ss) @ ver = CHR ''/'' # join ''/'' (raw_segments ver ss)"
proof (induction ver ss rule: raw_segments.induct)
  case (3 ver s t ss)
  then obtain r rs where "raw_segments ver (t # ss) = r # rs" by (cases ss) auto
  with 3 show ?case by simp
qed simp_all

lemma length_raw_segments [simp]: "length (raw_segments ver ss) = length ss"
  by (induction ver ss rule: raw_segments.induct) auto

lemma raw_segments_Nil_iff [simp]: "raw_segments ver ss = [] \<longleftrightarrow> ss = []"
  by (metis length_0_conv length_raw_segments)

lemma raw_segments_chars:
  "r \<in> set (raw_segments ver ss) \<Longrightarrow> c \<in> set r \<Longrightarrow> canonical_char c \<or> c \<in> set ver"
  by (induction ver ss rule: raw_segments.induct) (auto dest: encode_segment_chars)

lemma version_suffix_chars:
  "c \<in> set (version_suffix v) \<Longrightarrow> canonical_char c \<or> c = CHR ''@''"
  by (cases v)
     (auto simp: version_suffix_def canonical_char_def unreserved_def is_alnum_def
           simp del: version_display.simps dest!: version_display_chars)

lemma canonical_char_not:
  "canonical_char c \<Longrightarrow> in_range 0x21 0x7E c \<and> c \<notin> {CHR ''@'', CHR ''/'', CHR ''?'', CHR ''#''}"
  by (auto simp: canonical_char_def unreserved_def byte_class_defs)

lemma encode_no_at: "CHR ''@'' \<notin> set (encode_segment s)"
  using canonical_char_not encode_segment_chars by blast

lemma version_display_no_at: "CHR ''@'' \<notin> set (version_display (Pinned v))"
  by (auto dest!: version_display_chars simp: is_digit_def in_range_def simp del: version_display.simps)

lemma parse_segments_raw:
  "ss \<noteq> [] \<Longrightarrow> list_all wf_segment ss \<Longrightarrow> wf_version v \<Longrightarrow>
   parse_segments (raw_segments (version_suffix v) ss) = Inr (ss, v)"
proof (induction ss rule: induct_list012)
  case (2 s)
  show ?case
  proof (cases v)
    case Latest
    then show ?thesis using 2 by (simp add: version_suffix_def encode_no_at decode_encode_segment)
  next
    case (Pinned ns)
    have "encode_segment s \<noteq> []" using 2(2) by (simp add: wf_segment_def)
    then show ?thesis
      using 2 Pinned version_parse_display version_display_no_at
      by (simp add: version_suffix_def encode_no_at decode_encode_segment del: version_display.simps)
  qed
next
  case (3 s t ss)
  obtain r rs where r: "raw_segments (version_suffix v) (t # ss) = r # rs"
    by (cases "raw_segments (version_suffix v) (t # ss)") (auto simp flip: length_0_conv)
  have "parse_segments (encode_segment s # r # rs) = Inr (s # t # ss, v)"
    using 3 r by (simp add: encode_no_at decode_encode_segment)
  with r show ?case by simp
qed simp

definition canonical_path :: "murl \<Rightarrow> string" where
  "canonical_path m = join ''/'' (raw_segments (version_suffix (mu_version m)) (mu_name m))"

lemma identity_path:
  "mu_name m \<noteq> [] \<Longrightarrow>
   identity m = ''murl://'' @ authority_display (mu_authority m) @ CHR ''/'' # canonical_path m"
  by (simp add: identity_def canonical_path_def flip: raw_segments_join version_suffix_def)

lemma canonical_path_chars:
  "c \<in> set (canonical_path m) \<Longrightarrow> canonical_char c \<or> c = CHR ''@'' \<or> c = CHR ''/''"
  using set_join [of "''/''" "raw_segments (version_suffix (mu_version m)) (mu_name m)"]
  by (auto simp: canonical_path_def dest!: raw_segments_chars version_suffix_chars)

lemma parse_path_canonical:
  assumes "mu_name m \<noteq> []" "length (mu_name m) \<le> MAX_SEGMENTS" "list_all wf_segment (mu_name m)"
    "wf_version (mu_version m)"
  shows "parse_path (canonical_path m) = Inr (mu_name m, mu_version m)"
proof -
  let ?raw = "raw_segments (version_suffix (mu_version m)) (mu_name m)"
  have "split_on CHR ''/'' (join ''/'' ?raw) = ?raw"
    by (rule split_on_join)
       (use assms(1) canonical_char_not raw_segments_chars version_suffix_chars in fastforce)+
  moreover have "join ''/'' ?raw \<noteq> []"
  proof -
    have "?raw \<noteq> [[]]"
      using assms(1,3) by (cases "(version_suffix (mu_version m), mu_name m)" rule: raw_segments.cases)
        (auto simp: wf_segment_def)
    then show ?thesis using assms(1) by (auto simp: join_eq_Nil)
  qed
  ultimately show ?thesis
    using assms by (simp add: parse_path_def canonical_path_def Let_def not_less parse_segments_raw)
qed

lemma parse_segments_wf:
  "parse_segments raws = Inr (ss, v) \<Longrightarrow>
   length ss = length raws \<and> list_all wf_segment ss \<and> wf_version v"
proof (induction raws arbitrary: ss v rule: parse_segments.induct)
  case (2 raw)
  then show ?case
    by (cases "split_once CHR ''@'' raw")
       (use decode_segment_wf version_parse_wf in \<open>auto split: if_splits prod.splits\<close>)
qed (auto dest: decode_segment_wf split: if_splits)

section \<open>The whole mURL\<close>

lemma first_invalid_char_None [simp]: "first_invalid_char i s = None \<longleftrightarrow> list_all (in_range 0x21 0x7E) s"
  by (induction s arbitrary: i) auto

lemma strip_scheme_murl [simp]: "strip_scheme (''murl://'' @ r) = Some r"
  by (simp add: strip_scheme_def eq_ignore_ascii_case_def)

lemma cut_at_absent: "d \<notin> set s \<Longrightarrow> cut_at d s = (s, None)"
  by (simp add: cut_at_def)

lemma cut_at_append: "d \<notin> set a \<Longrightarrow> cut_at d (a @ d # b) = (a, Some b)"
  by (simp add: cut_at_def)

lemma cut_at_chars: "cut_at d s = (a, b) \<Longrightarrow> set a \<subseteq> set s \<and> d \<notin> set a \<and> (\<forall>t. b = Some t \<longrightarrow> set t \<subseteq> set s)"
  by (auto simp: cut_at_def split_once_Some_iff split: option.splits)

text \<open>What an accepted input was made of: the parser as one relation.\<close>

lemma murl_parse_parts:
  assumes "murl_parse s = Inr m"
  obtains rest0 rest1 rest frag auth path where
    "list_all (in_range 0x21 0x7E) s" "strip_scheme s = Some rest0"
    "cut_at CHR ''#'' rest0 = (rest1, frag)" "cut_at CHR ''?'' rest1 = (rest, mu_query m)"
    "split_once CHR ''/'' rest = Some (auth, path)"
    "parse_authority auth = Inr (mu_authority m)" "parse_path path = Inr (mu_name m, mu_version m)"
    "opt_all (\<lambda>f. \<exists>items. mu_selector m = Some items \<and> parse_selector f = Inr items) frag"
    "frag = None \<longrightarrow> mu_selector m = None"
    "opt_all (\<lambda>q. CHR ''#'' \<notin> set q \<and> length q \<le> 512) (mu_query m)"
    "length (murl_display m) \<le> MAX_MURL_LEN"
proof -
  have "first_invalid_char 0 s = None" and "\<not> MAX_MURL_LEN < length s"
    using assms by (cases "first_invalid_char 0 s"; simp add: murl_parse_def split: if_splits)+
  then have 1: "list_all (in_range 0x21 0x7E) s" "first_invalid_char 0 s = None"
    by simp_all
  obtain rest0 where 2: "strip_scheme s = Some rest0"
    using assms by (auto simp: murl_parse_def split: if_splits option.splits)
  obtain rest1 frag where 3: "cut_at CHR ''#'' rest0 = (rest1, frag)" by fastforce
  obtain rest query where 4: "cut_at CHR ''?'' rest1 = (rest, query)" by fastforce
  show thesis
    using assms 1 2 3 4
    by (cases frag; cases query)
       (auto simp: murl_parse_def Let_def not_less split: if_splits option.splits prod.splits intro!: that)
qed

lemma lowercase_scheme_chars: "strip_scheme s = Some r \<Longrightarrow> set r \<subseteq> set s"
  by (auto simp: strip_scheme_def split: if_splits dest: in_set_dropD)

text \<open>The three parts the canonical form is cut into again: scheme-less core,
  query and selector.\<close>

definition canonical_core :: "murl \<Rightarrow> string" where
  "canonical_core m = authority_display (mu_authority m) @ CHR ''/'' # canonical_path m"

definition query_suffix :: "murl \<Rightarrow> string" where
  "query_suffix m = (case mu_query m of None \<Rightarrow> [] | Some q \<Rightarrow> ''?'' @ q)"

definition selector_suffix :: "murl \<Rightarrow> string" where
  "selector_suffix m = (case selector_display m of None \<Rightarrow> [] | Some sel \<Rightarrow> ''#'' @ sel)"

lemma display_parts:
  "wf_murl m \<Longrightarrow> murl_display m = ''murl://'' @ canonical_core m @ query_suffix m @ selector_suffix m"
  by (simp add: wf_murl_def murl_display_def identity_path canonical_core_def query_suffix_def selector_suffix_def)

lemma core_chars:
  assumes "wf_murl m" "c \<in> set (canonical_core m)"
  shows "in_range 0x21 0x7E c \<and> c \<noteq> CHR ''?'' \<and> c \<noteq> CHR ''#''"
proof -
  from assms consider (auth) "host_char c \<or> c = CHR '':''" | (slash) "c = CHR ''/''"
    | (path) "canonical_char c \<or> c = CHR ''@'' \<or> c = CHR ''/''"
    by (auto simp: wf_murl_def canonical_core_def dest: authority_display_chars canonical_path_chars)
  then show ?thesis
    by cases (use canonical_char_not in \<open>auto simp: host_char_def byte_class_defs\<close>)
qed

lemma selector_text_chars:
  "list_all wf_item items \<Longrightarrow> c \<in> set (join '','' (map selector_item_display items)) \<Longrightarrow>
   in_range 0x21 0x7E c \<and> c \<noteq> CHR ''#''"
  using set_join [of "'',''" "map selector_item_display items"]
  by (fastforce simp: list_all_iff in_range_def dest: item_chars)

lemma wf_murl_sound: "murl_parse s = Inr m \<Longrightarrow> wf_murl m"
proof -
  assume "murl_parse s = Inr m"
  then obtain rest0 rest1 rest frag auth path where *:
    "list_all (in_range 0x21 0x7E) s" "strip_scheme s = Some rest0"
    "cut_at CHR ''#'' rest0 = (rest1, frag)" "cut_at CHR ''?'' rest1 = (rest, mu_query m)"
    "parse_authority auth = Inr (mu_authority m)" "parse_path path = Inr (mu_name m, mu_version m)"
    "opt_all (\<lambda>f. \<exists>items. mu_selector m = Some items \<and> parse_selector f = Inr items) frag"
    "frag = None \<longrightarrow> mu_selector m = None"
    "opt_all (\<lambda>q. CHR ''#'' \<notin> set q \<and> length q \<le> 512) (mu_query m)"
    "length (murl_display m) \<le> MAX_MURL_LEN"
    by (rule murl_parse_parts)
  have "list_all wf_segment (mu_name m)" "wf_version (mu_version m)"
    "mu_name m \<noteq> []" "length (mu_name m) \<le> MAX_SEGMENTS"
    using *(6) parse_segments_wf split_on_not_Nil
    by (fastforce simp: parse_path_def Let_def split: if_splits)+
  moreover have "opt_all (\<lambda>items. items \<noteq> [] \<and> length items \<le> MAX_SELECTOR_ITEMS \<and> list_all wf_item items)
      (mu_selector m)"
    using *(7,8) by (cases frag) (auto dest: parse_selector_wf)
  moreover have "set rest0 \<subseteq> set s" using *(2) by (rule lowercase_scheme_chars)
  then have "set q \<subseteq> set s" if "mu_query m = Some q" for q
    using that cut_at_chars [OF *(3)] cut_at_chars [OF *(4)] by blast
  then have "opt_all wf_query (mu_query m)"
    using *(1,9) by (cases "mu_query m") (auto simp: wf_query_def list_all_iff)
  ultimately show ?thesis using * parse_authority_wf by (simp add: wf_murl_def)
qed

lemma query_suffix_chars:
  "wf_murl m \<Longrightarrow> c \<in> set (query_suffix m) \<Longrightarrow> in_range 0x21 0x7E c \<and> c \<noteq> CHR ''#''"
  by (cases "mu_query m") (auto simp: query_suffix_def wf_murl_def wf_query_def list_all_iff in_range_def)

lemma selector_suffix_chars:
  "wf_murl m \<Longrightarrow> c \<in> set (selector_suffix m) \<Longrightarrow> in_range 0x21 0x7E c"
  using selector_text_chars [unfolded in_range_def]
  by (cases "mu_selector m") (auto simp: selector_suffix_def selector_display_def wf_murl_def in_range_def)

lemma display_printable: "wf_murl m \<Longrightarrow> first_invalid_char 0 (murl_display m) = None"
  using core_chars query_suffix_chars selector_suffix_chars
  by (auto simp: display_parts list_all_iff in_range_def)

lemma cut_selector:
  assumes "wf_murl m"
  shows "cut_at CHR ''#'' (canonical_core m @ query_suffix m @ selector_suffix m)
    = (canonical_core m @ query_suffix m, selector_display m)"
proof -
  have no: "CHR ''#'' \<notin> set (canonical_core m @ query_suffix m)"
    using core_chars [OF assms] query_suffix_chars [OF assms] by auto
  then show ?thesis
    using cut_at_append [OF no] cut_at_absent [OF no]
    by (cases "selector_display m") (auto simp: selector_suffix_def)
qed

lemma cut_query:
  assumes "wf_murl m"
  shows "cut_at CHR ''?'' (canonical_core m @ query_suffix m) = (canonical_core m, mu_query m)"
proof -
  have "CHR ''?'' \<notin> set (canonical_core m)" using core_chars [OF assms] by blast
  then show ?thesis
    by (cases "mu_query m") (simp_all add: query_suffix_def cut_at_absent cut_at_append)
qed

lemma parse_selector_of_display:
  "wf_murl m \<Longrightarrow>
   (case selector_display m of None \<Rightarrow> Inr None
    | Some f \<Rightarrow> and_then (parse_selector f) (\<lambda>items. Inr (Some items))) = Inr (mu_selector m)"
  by (cases "mu_selector m") (auto simp: selector_display_def wf_murl_def intro: parse_selector_display)

lemma wf_murl_complete: "wf_murl m \<Longrightarrow> murl_parse (murl_display m) = Inr m"
proof -
  assume wf: "wf_murl m"
  have scheme: "strip_scheme (murl_display m) = Some (canonical_core m @ query_suffix m @ selector_suffix m)"
    unfolding display_parts [OF wf] by (rule strip_scheme_murl)
  have auth: "split_once CHR ''/'' (canonical_core m) = Some (authority_display (mu_authority m), canonical_path m)"
    using wf authority_display_not by (simp add: canonical_core_def wf_murl_def)
  have parts: "parse_authority (authority_display (mu_authority m)) = Inr (mu_authority m)"
    "parse_path (canonical_path m) = Inr (mu_name m, mu_version m)"
    using wf by (auto simp: wf_murl_def intro: parse_authority_display parse_path_canonical)
  have q: "(case mu_query m of None \<Rightarrow> Inr ()
      | Some q \<Rightarrow> reject_if (CHR ''#'' \<in> set q \<or> 512 < length q) (InvalidQuery q)) = Inr ()"
    using wf by (cases "mu_query m") (auto simp: wf_murl_def wf_query_def)
  have len: "length (murl_display m) \<le> MAX_MURL_LEN" using wf by (simp add: wf_murl_def)
  have m: "\<lparr>mu_authority = mu_authority m, mu_name = mu_name m, mu_version = mu_version m,
      mu_selector = mu_selector m, mu_query = mu_query m\<rparr> = m" by simp
  show ?thesis
    using len
    by (simp add: m murl_parse_def display_printable wf scheme cut_selector cut_query auth parts
        parse_selector_of_display q not_less Let_def del: and_then_Inr_iff first_invalid_char_None)
qed

text \<open>\<open>identity\<close> is the canonical form of the mURL without its query and selector.\<close>

definition bare :: "murl \<Rightarrow> murl" where
  "bare m = m\<lparr> mu_selector := None, mu_query := None \<rparr>"

lemma identity_bare: "identity m = murl_display (bare m)"
  by (simp add: bare_def murl_display_def selector_display_def identity_def split: version_tag.split)

lemma wf_bare: "wf_murl m \<Longrightarrow> wf_murl (bare m)"
proof -
  assume wf: "wf_murl m"
  have "length (murl_display (bare m)) \<le> length (murl_display m)"
    unfolding identity_bare [symmetric] by (simp add: murl_display_def)
  with wf show ?thesis by (simp add: wf_murl_def bare_def)
qed

lemma parse_identity: "wf_murl m \<Longrightarrow> murl_parse (identity m) = Inr (bare m)"
  by (simp add: identity_bare wf_murl_complete wf_bare)

section \<open>Properties\<close>

text \<open>
  C14: whatever \<open>Murl::parse\<close> accepts satisfies the invariant stated on \<open>Murl\<close>
  (lower-case reg-name or \<open>local\<close>, at least one decoded segment without
  separators, control characters or dot segments, valid selector items), and
  its canonical form is accepted again and parses to the same value.
\<close>

theorem murl_parse_sound:
  assumes "murl_parse s = Inr m"
  shows "wf_murl m \<and> murl_parse (murl_display m) = Inr m"
  using wf_murl_sound [OF assms] wf_murl_complete by blast

theorem murl_parse_sound_witness:
  "\<exists>m. murl_parse ''MURL://Acme.io:8080/a%20b/c@1.20?x=1#docs,role=x'' = Inr m
       \<and> wf_murl m \<and> murl_parse (murl_display m) = Inr m"
proof -
  have "is_ok (murl_parse ''MURL://Acme.io:8080/a%20b/c@1.20?x=1#docs,role=x'')" by code_simp
  then obtain m where "murl_parse ''MURL://Acme.io:8080/a%20b/c@1.20?x=1#docs,role=x'' = Inr m"
    by (auto simp: is_ok_iff)
  then show ?thesis using murl_parse_sound by blast
qed

text \<open>
  C15: the parser is complete on canonical forms: every value satisfying the
  invariant is the parse of its own \<open>Display\<close>.
\<close>

theorem murl_display_parse:
  assumes "wf_murl m"
  shows "murl_parse (murl_display m) = Inr m"
  using assms by (rule wf_murl_complete)

theorem murl_display_parse_witness:
  "murl_parse (murl_display \<lparr> mu_authority = Remote ''acme.io'' (Some 80), mu_name = [''a b'', ''c''],
      mu_version = Pinned [1, 20], mu_selector = Some [SelRole ''docs''], mu_query = None \<rparr>)
   = Inr \<lparr> mu_authority = Remote ''acme.io'' (Some 80), mu_name = [''a b'', ''c''],
      mu_version = Pinned [1, 20], mu_selector = Some [SelRole ''docs''], mu_query = None \<rparr>"
  by (rule murl_display_parse) code_simp

lemma identity_fields:
  assumes "wf_murl m" "wf_murl m'" "identity m = identity m'"
  shows "mu_authority m = mu_authority m' \<and> mu_name m = mu_name m' \<and> mu_version m = mu_version m'"
proof -
  have "bare m = bare m'" using assms by (metis parse_identity sum.inject(2))
  then show ?thesis
    by (simp add: bare_def murl.defs(1-4)) (metis murl.ext_inject murl.surjective murl.update_convs)
qed

text \<open>
  \<open>identity()\<close>, the cache key and cycle-detection key, identifies exactly
  authority, name and version, and parses back to them.
\<close>

lemma identity_identifies:
  assumes "wf_murl m" "wf_murl m'"
  shows "(identity m = identity m' \<longleftrightarrow>
      mu_authority m = mu_authority m' \<and> mu_name m = mu_name m' \<and> mu_version m = mu_version m')
    \<and> murl_parse (identity m) = Inr (m\<lparr> mu_selector := None, mu_query := None \<rparr>)"
proof
  show "identity m = identity m' \<longleftrightarrow>
      mu_authority m = mu_authority m' \<and> mu_name m = mu_name m' \<and> mu_version m = mu_version m'"
    using identity_fields [OF assms] by (auto simp: identity_def split: version_tag.splits)
  show "murl_parse (identity m) = Inr (m\<lparr> mu_selector := None, mu_query := None \<rparr>)"
    using parse_identity [OF assms(1)] by (simp add: bare_def)
qed

lemma identity_identifies_witness:
  "(let m = \<lparr> mu_authority = Local, mu_name = [''a b''], mu_version = Pinned [1],
               mu_selector = Some [SelTag ''x''], mu_query = Some ''k=v'' \<rparr>;
        m' = \<lparr> mu_authority = Local, mu_name = [''a b''], mu_version = Latest,
               mu_selector = None, mu_query = None \<rparr>
    in identity m \<noteq> identity m'
       \<and> murl_parse (identity m) = Inr (m\<lparr> mu_selector := None, mu_query := None \<rparr>))"
proof -
  let ?m = "\<lparr> mu_authority = Local, mu_name = [''a b''], mu_version = Pinned [1],
               mu_selector = Some [SelTag ''x''], mu_query = Some ''k=v'' \<rparr>"
  let ?m' = "\<lparr> mu_authority = Local, mu_name = [''a b''], mu_version = Latest,
               mu_selector = None, mu_query = None \<rparr>"
  have "wf_murl ?m" "wf_murl ?m'" by code_simp+
  from identity_identifies [OF this] show ?thesis by simp
qed

lemma cut_at_prefix:
  assumes "d \<notin> set a" "d \<noteq> e"
  obtains p f where "cut_at d (a @ e # path) = (a @ e # p, f)"
proof (cases "split_once d path")
  case None
  then have "cut_at d (a @ e # path) = (a @ e # path, None)" using assms by (intro cut_at_absent) auto
  then show ?thesis by (rule that)
next
  case (Some xy)
  then obtain x y where "path = x @ d # y" "d \<notin> set x" by (cases xy) (auto dest: split_once_SomeD)
  then have "cut_at d (a @ e # path) = (a @ e # x, Some y)"
    using cut_at_append [of d "a @ e # x" y] assms by simp
  then show ?thesis by (rule that)
qed

text \<open>
  No accepted name can leave the directory it is resolved in. Each segment is
  a non-empty file name without separator, NUL or control byte that is neither
  \<open>.\<close> nor \<open>..\<close>, and joining the segments with \<open>/\<close> loses nothing.
\<close>

lemma murl_name_safe:
  assumes "murl_parse s = Inr m"
  shows "split_on CHR ''/'' (name_path m) = mu_name m
    \<and> (\<forall>seg\<in>set (mu_name m). seg \<notin> {[], ''.'', ''..''} \<and> CHR 0x5C \<notin> set seg
         \<and> (\<forall>c\<in>set seg. 0x20 \<le> byte c \<and> byte c \<noteq> 0x7F))"
proof -
  have wf: "mu_name m \<noteq> []" "\<forall>seg\<in>set (mu_name m). wf_segment seg"
    using wf_murl_sound [OF assms] by (auto simp: wf_murl_def list_all_iff)
  have "split_on CHR ''/'' (name_path m) = mu_name m"
    unfolding name_path_def using wf by (intro split_on_join) (auto dest: wf_segment_no_separator)
  moreover have "\<forall>seg\<in>set (mu_name m). seg \<notin> {[], ''.'', ''..''} \<and> CHR 0x5C \<notin> set seg
         \<and> (\<forall>c\<in>set seg. 0x20 \<le> byte c \<and> byte c \<noteq> 0x7F)"
    using wf(2) wf_segment_no_separator by (auto simp: wf_segment_def)
  ultimately show ?thesis by blast
qed

lemma murl_name_safe_witness:
  "\<exists>m. murl_parse ''murl://local/a%2e%2eb/x'' = Inr m
       \<and> split_on CHR ''/'' (name_path m) = mu_name m"
proof -
  have "is_ok (murl_parse ''murl://local/a%2e%2eb/x'')" by code_simp
  then obtain m where m: "murl_parse ''murl://local/a%2e%2eb/x'' = Inr m" by (auto simp: is_ok_iff)
  with murl_name_safe [OF m] show ?thesis by blast
qed

text \<open>
  Userinfo is never interpreted. A printable mURL within the length limit
  whose authority (the text up to the first \<open>/\<close>, before any query or fragment)
  contains an \<open>@\<close> is the error \<open>UserinfoForbidden\<close>, whatever follows.
\<close>

lemma userinfo_forbidden:
  assumes "CHR ''@'' \<in> set auth" "CHR ''/'' \<notin> set auth" "CHR ''?'' \<notin> set auth" "CHR ''#'' \<notin> set auth"
    and "list_all (in_range 0x21 0x7E) (auth @ CHR ''/'' # path)" "length auth + length path \<le> 1016"
  shows "murl_parse (''murl://'' @ auth @ CHR ''/'' # path) = Inl UserinfoForbidden"
proof -
  have "first_invalid_char 0 (''murl://'' @ auth @ CHR ''/'' # path) = None"
    using assms(5) by (simp add: in_range_def)
  moreover obtain p1 f where "cut_at CHR ''#'' (auth @ CHR ''/'' # path) = (auth @ CHR ''/'' # p1, f)"
    by (rule cut_at_prefix [OF assms(4), of "CHR ''/''" path]) auto
  moreover obtain p2 q where "cut_at CHR ''?'' (auth @ CHR ''/'' # p1) = (auth @ CHR ''/'' # p2, q)"
    by (rule cut_at_prefix [OF assms(3), of "CHR ''/''" p1]) auto
  moreover have "parse_authority auth = Inl UserinfoForbidden"
    using assms(1) by (auto simp: parse_authority_def)
  moreover have "strip_scheme (''murl://'' @ auth @ CHR ''/'' # path) = Some (auth @ CHR ''/'' # path)"
    by (rule strip_scheme_murl)
  ultimately show ?thesis
    using assms(2,6) by (simp add: murl_parse_def MAX_MURL_LEN_def del: first_invalid_char_None)
qed

lemma userinfo_forbidden_witness:
  "murl_parse (''murl://'' @ ''github.com@evil.example'' @ CHR ''/'' # ''x'') = Inl UserinfoForbidden"
  by (rule userinfo_forbidden) code_simp+

end
