(* ===== verification/Errors.thy ===== *)
theory Errors
  imports Murl
begin

text \<open>
  The shared error type (\<open>murl-core/src/error.rs\<close>) and the limits
  (\<open>murl-core/src/limits.rs\<close>). The wrapped \<open>std::io::Error\<close> and \<open>serde_json::Error\<close>
  are represented by their messages.
\<close>

datatype error =
    EParse murl_error
  | EManifest string
  | EValidation string
  | EResolution string
  | ELimitExceeded string
  | ECycle string
  | ETrust string
  | EDenied string
  | ENotFound string
  | EFetch string
  | EDispatch string
  | EIo string
  | EJson string

fun error_display :: "error \<Rightarrow> string" where
  "error_display (EParse e) = ''parse error: '' @ murl_error_display e"
| "error_display (EManifest e) = ''manifest error: '' @ e"
| "error_display (EValidation e) = ''validation failed: '' @ e"
| "error_display (EResolution e) = ''resolution error: '' @ e"
| "error_display (ELimitExceeded e) = ''limit exceeded: '' @ e"
| "error_display (ECycle e) = ''cycle detected: '' @ e"
| "error_display (ETrust e) = ''trust error: '' @ e"
| "error_display (EDenied e) = ''denied by policy: '' @ e"
| "error_display (ENotFound e) = ''not found: '' @ e"
| "error_display (EFetch e) = ''fetch error: '' @ e"
| "error_display (EDispatch e) = ''dispatch error: '' @ e"
| "error_display (EIo e) = ''i/o error: '' @ e"
| "error_display (EJson e) = ''json error: '' @ e"

record limits =
  max_depth :: nat
  max_total_resources :: nat
  max_nested_manifests :: nat
  max_manifest_bytes :: nat
  fetch_timeout_secs :: nat
  cache_ttl_secs :: nat
  dispatch_stagger_ms :: nat
  max_redirects :: nat

definition default_limits :: limits where
  "default_limits = \<lparr>
     max_depth = 3,
     max_total_resources = 64,
     max_nested_manifests = 8,
     max_manifest_bytes = 256 * 1024,
     fetch_timeout_secs = 10,
     cache_ttl_secs = 3600,
     dispatch_stagger_ms = 150,
     max_redirects = 0 \<rparr>"

end
