(* ===== verification/Fetch.thy ===== *)
theory Fetch
  imports Errors Murl "HOL-Library.AList" "HOL-Library.Sublist"
begin

text \<open>
  Manifest sources, \<open>murl-core/src/fetch.rs\<close>: the well-known URL of a remote name
  and the local name store.

  The file system below the store's root is a finite map from component lists to
  files and directories; \<open>std::fs\<close> calls fail the way POSIX makes them fail on it.
\<close>

section \<open>The well-known URL\<close>

definition well_known_url :: "murl \<Rightarrow> string option" where
  "well_known_url m =
     (case mu_authority m of
        Local \<Rightarrow> None
      | Remote h p \<Rightarrow>
          let scheme = (if is_loopback (mu_authority m) then ''http'' else ''https'');
              hostport = (case p of Some n \<Rightarrow> h @ '':'' @ dec_of_nat (unat n) | None \<Rightarrow> h);
              path = concat (map (\<lambda>seg. ''/'' @ encode_segment seg) (mu_name m));
              suffix = (case mu_version m of Latest \<Rightarrow> [] | Pinned v \<Rightarrow> ''@'' @ version_display (Pinned v))
          in Some (scheme @ ''://'' @ hostport @ ''/.well-known/murl'' @ path @ suffix @ ''.murl.json''))"

section \<open>A file system\<close>

datatype io_error = IoNotFound | IoOther string

datatype fs_node = FFile bytes | FDir

type_synonym path = "string list"
type_synonym fs = "(path \<times> fs_node) list"

definition fs_get :: "fs \<Rightarrow> path \<Rightarrow> fs_node option" where
  "fs_get f p = (if p = [] then Some FDir else map_of f p)"

fun is_file :: "fs_node option \<Rightarrow> bool" where
  "is_file (Some (FFile _)) = True"
| "is_file _ = False"

text \<open>Proper prefixes of a path, shortest first.\<close>

definition ancestors :: "path \<Rightarrow> path list" where
  "ancestors p = map (\<lambda>n. take n p) [0..<length p]"

definition blocked :: "fs \<Rightarrow> path \<Rightarrow> bool" where
  "blocked f p \<longleftrightarrow> list_ex (\<lambda>q. is_file (fs_get f q)) (ancestors p)"

definition fs_read :: "fs \<Rightarrow> path \<Rightarrow> io_error + bytes" where
  "fs_read f p =
     (if blocked f p then Inl (IoOther ''Not a directory'')
      else case fs_get f p of
        Some (FFile b) \<Rightarrow> Inr b
      | Some FDir \<Rightarrow> Inl (IoOther ''Is a directory'')
      | None \<Rightarrow> Inl IoNotFound)"

text \<open>\<open>create_dir_all\<close>: every missing directory on the way, or an error when a file is
  in the way.\<close>

definition fs_create_dir_all :: "path \<Rightarrow> fs \<Rightarrow> io_error + fs" where
  "fs_create_dir_all p f =
     (if blocked f p \<or> is_file (fs_get f p) then Inl (IoOther ''Not a directory'')
      else Inr (fold (\<lambda>q g. if fs_get g q = None then AList.update q FDir g else g) (ancestors p @ [p]) f))"

definition fs_write :: "path \<Rightarrow> bytes \<Rightarrow> fs \<Rightarrow> io_error + fs" where
  "fs_write p b f =
     (if blocked f p then Inl (IoOther ''Not a directory'')
      else if fs_get f (butlast p) = None then Inl IoNotFound
      else if fs_get f p = Some FDir then Inl (IoOther ''Is a directory'')
      else Inr (AList.update p (FFile b) f))"

definition fs_remove_file :: "path \<Rightarrow> fs \<Rightarrow> io_error + fs" where
  "fs_remove_file p f =
     (if blocked f p then Inl (IoOther ''Not a directory'')
      else case fs_get f p of
        Some (FFile _) \<Rightarrow> Inr (AList.delete p f)
      | Some FDir \<Rightarrow> Inl (IoOther ''Is a directory'')
      | None \<Rightarrow> Inl IoNotFound)"

fun io_message :: "io_error \<Rightarrow> string" where
  "io_message IoNotFound = ''No such file or directory''"
| "io_message (IoOther e) = e"

section \<open>Files by their path\<close>

text \<open>
  What the commands see of the files named on the command line: what reading a path
  returns. \<open>refuses p\<close> is the error of a write that fails; it leaves the file as it was,
  where \<open>std::fs::write\<close> may leave it cut short. \<open>Path::exists\<close> is false for a path
  whose metadata cannot be read; a path that exists but cannot be read and one whose
  metadata cannot be read are not told apart here, and both exist.
\<close>

type_synonym disk = "string \<Rightarrow> io_error + bytes"

definition disk_write :: "(string \<Rightarrow> string option) \<Rightarrow> string \<Rightarrow> bytes \<Rightarrow> disk \<Rightarrow> (error + unit) \<times> disk" where
  "disk_write refuses p b d = (case refuses p of Some e \<Rightarrow> (Inl (EIo e), d) | None \<Rightarrow> (Inr (), d(p := Inr b)))"

definition disk_exists :: "disk \<Rightarrow> string \<Rightarrow> bool" where
  "disk_exists d p \<longleftrightarrow> d p \<noteq> Inl IoNotFound"

section \<open>The local name store\<close>

definition plain_component_byte :: "char \<Rightarrow> bool" where
  "plain_component_byte b \<longleftrightarrow> is_alnum b \<or> b = CHR ''.'' \<or> b = CHR ''_'' \<or> b = CHR ''-''"

fun sanitize_component :: "string \<Rightarrow> string" where
  "sanitize_component [] = []"
| "sanitize_component (b # s) =
     (if plain_component_byte b then [b]
      else [CHR ''%'', hex_digit (drop_bit 4 (byte b)), hex_digit (byte b AND 15)])
     @ sanitize_component s"

definition manifest_path :: "murl \<Rightarrow> path" where
  "manifest_path m =
     map sanitize_component (butlast (mu_name m))
     @ [sanitize_component (short_name m)
        @ (case mu_version m of Latest \<Rightarrow> [] | Pinned v \<Rightarrow> ''@'' @ version_display (Pinned v)) @ ''.murl.json'']"

text \<open>\<open>root\<close> is the displayed path of the store's directory.\<close>

definition path_display :: "string \<Rightarrow> path \<Rightarrow> string" where
  "path_display root p = join ''/'' (root # p)"

definition store_load :: "string \<Rightarrow> fs \<Rightarrow> murl \<Rightarrow> error + bytes \<times> path" where
  "store_load root f m =
     (let p = manifest_path m in
      case fs_read f p of
        Inr b \<Rightarrow> Inr (b, p)
      | Inl IoNotFound \<Rightarrow>
          Inl (ENotFound (quoted (identity m) @ '' is not in the local name store (expected ''
            @ path_display root p @ ''); add it with `murl name add`''))
      | Inl e \<Rightarrow> Inl (EIo (io_message e)))"

definition store_add :: "murl \<Rightarrow> bytes \<Rightarrow> fs \<Rightarrow> (error + path) \<times> fs" where
  "store_add m b f =
     (let p = manifest_path m in
      case fs_create_dir_all (butlast p) f of
        Inl e \<Rightarrow> (Inl (EIo (io_message e)), f)
      | Inr g \<Rightarrow>
          (case fs_write p b g of
             Inl e \<Rightarrow> (Inl (EIo (io_message e)), g)
           | Inr h \<Rightarrow> (Inr p, h)))"

definition store_remove :: "murl \<Rightarrow> fs \<Rightarrow> (error + bool) \<times> fs" where
  "store_remove m f =
     (case fs_remove_file (manifest_path m) f of
        Inr g \<Rightarrow> (Inr True, g)
      | Inl IoNotFound \<Rightarrow> (Inr False, f)
      | Inl e \<Rightarrow> (Inl (EIo (io_message e)), f))"

text \<open>The directory walk visits every file once; the result is sorted, so the order in
  which \<open>read_dir\<close> yields entries does not matter.\<close>

definition listed_identity :: "path \<times> fs_node \<Rightarrow> string option" where
  "listed_identity e =
     (case e of
        (p, FDir) \<Rightarrow> None
      | (p, FFile _) \<Rightarrow>
          (case strip_suffix ''.murl.json'' (last p) of
             None \<Rightarrow> None
           | Some stem \<Rightarrow>
               let i = ''murl://local'' @ concat (map (\<lambda>c. ''/'' @ c) (butlast p)) @ ''/'' @ stem in
               if is_ok (murl_parse i) then Some i else None))"

definition store_list :: "fs \<Rightarrow> string list" where
  "store_list f = sort (List.map_filter listed_identity f)"

section \<open>Where a name is stored\<close>

lemma sanitize_no_special: "c \<in> set (sanitize_component s) \<Longrightarrow> plain_component_byte c \<or> c = CHR ''%''"
  by (induction s) (auto simp: plain_component_byte_def hex_digit_alnum split: if_splits)

lemma plain_is_unreserved: "plain_component_byte b \<Longrightarrow> unreserved b"
  by (auto simp: plain_component_byte_def unreserved_def)

lemma percent_decode_sanitize: "percent_decode_from whole (sanitize_component s) = Inr s"
proof (induction s)
  case (Cons b s)
  have "plain_component_byte b \<Longrightarrow> b \<noteq> CHR ''%''"
    using plain_is_unreserved unreserved_not_pct by blast
  then show ?case using Cons by (cases "plain_component_byte b") (auto simp: nibbles)
qed simp

lemma sanitize_inject: "sanitize_component s = sanitize_component t \<longleftrightarrow> s = t"
  by (metis percent_decode_sanitize sum.inject(2))

lemma sanitize_no_at: "CHR ''@'' \<notin> set (sanitize_component s)"
  by (auto dest!: sanitize_no_special simp: plain_component_byte_def byte_class_defs)

lemma sanitize_no_slash: "CHR ''/'' \<notin> set (sanitize_component s)"
  by (auto dest!: sanitize_no_special simp: plain_component_byte_def byte_class_defs)

lemma manifest_path_def': "manifest_path m =
    map sanitize_component (butlast (mu_name m)) @ [sanitize_component (short_name m) @ version_suffix (mu_version m) @ ''.murl.json'']"
  by (simp add: manifest_path_def version_suffix_def split: version_tag.split)

lemma version_suffix_inject:
  assumes "wf_version v" "wf_version w" "version_suffix v = version_suffix w"
  shows "v = w"
proof (cases v; cases w)
  fix a b assume v: "v = Pinned a" and w: "w = Pinned b"
  then have "version_display v = version_display w"
    using assms(3) by (simp add: version_suffix_def del: version_display.simps)
  then have "Inr v = (Inr w :: murl_error + version_tag)"
    using version_parse_display assms(1,2) unfolding v w by metis
  then show "v = w" by simp
qed (use assms in \<open>simp_all add: version_suffix_def\<close>)

lemma takeWhile_stop:
  assumes "d \<notin> set a" "s = [] \<or> hd s = d"
  shows "takeWhile (\<lambda>c. c \<noteq> d) (a @ s) = a"
proof -
  have "takeWhile (\<lambda>c. c \<noteq> d) s = []" using assms(2) by (cases s) simp_all
  then show ?thesis using assms(1) by (subst takeWhile_append2) auto
qed

lemma cut_unique:
  assumes "a @ s = b @ t" "d \<notin> set a" "d \<notin> set b" "s = [] \<or> hd s = d" "t = [] \<or> hd t = d"
  shows "a = b \<and> s = t"
proof -
  have "a = b"
    using takeWhile_stop [OF assms(2,4)] takeWhile_stop [OF assms(3,5)] unfolding assms(1) by (rule trans [OF sym])
  then show ?thesis using assms(1) by blast
qed

lemma version_suffix_hd: "version_suffix v = [] \<or> hd (version_suffix v) = CHR ''@''"
  by (cases v) (simp_all add: version_suffix_def)

text \<open>What a name has to have for its file to be its own.\<close>

definition file_slot :: "murl \<Rightarrow> bool" where
  "file_slot m \<longleftrightarrow> mu_name m \<noteq> [] \<and> wf_version (mu_version m)"

lemma file_slot_wf: "wf_murl m \<Longrightarrow> file_slot m"
  by (simp add: file_slot_def wf_murl_def)

lemma manifest_path_inject:
  assumes "file_slot m" "file_slot m'" "manifest_path m = manifest_path m'"
  shows "mu_name m = mu_name m' \<and> mu_version m = mu_version m'"
proof -
  have n: "mu_name m \<noteq> []" "mu_name m' \<noteq> []" and v: "wf_version (mu_version m)" "wf_version (mu_version m')"
    using assms(1,2) by (auto simp: file_slot_def)
  have eq: "map sanitize_component (butlast (mu_name m)) = map sanitize_component (butlast (mu_name m'))"
    "sanitize_component (short_name m) @ version_suffix (mu_version m)
      = sanitize_component (short_name m') @ version_suffix (mu_version m')"
    using assms(3) unfolding manifest_path_def' by simp_all
  have "inj sanitize_component" by (rule injI) (simp add: sanitize_inject)
  then have "butlast (mu_name m) = butlast (mu_name m')" using eq(1) by (metis inj_map_eq_map)
  moreover have "sanitize_component (short_name m) = sanitize_component (short_name m')
      \<and> version_suffix (mu_version m) = version_suffix (mu_version m')"
    using cut_unique [OF eq(2) sanitize_no_at sanitize_no_at version_suffix_hd version_suffix_hd] .
  ultimately show ?thesis
    using n v version_suffix_inject sanitize_inject unfolding short_name_def
    by (metis append_butlast_last_id)
qed

section \<open>The file system below the store\<close>

text \<open>Everything stored has directories above it.\<close>

definition fs_wf :: "fs \<Rightarrow> bool" where
  "fs_wf f \<longleftrightarrow> list_all (\<lambda>e. list_all (\<lambda>q. fs_get f q = Some FDir) (ancestors (fst e))) f"

definition fs_file :: "fs \<Rightarrow> path \<Rightarrow> bytes option" where
  "fs_file f p = (case fs_read f p of Inr b \<Rightarrow> Some b | Inl _ \<Rightarrow> None)"

lemma ancestors_prefix: "q \<in> set (ancestors p) \<longleftrightarrow> strict_prefix q p"
proof
  assume "q \<in> set (ancestors p)"
  then show "strict_prefix q p" by (auto simp: ancestors_def strict_prefix_def take_is_prefix)
next
  assume "strict_prefix q p"
  then obtain r where "p = q @ r" "r \<noteq> []" by (auto simp: strict_prefix_def prefix_def)
  then show "q \<in> set (ancestors p)"
    unfolding ancestors_def set_map by (intro image_eqI [of _ _ "length q"]) auto
qed

lemma fs_wf_iff: "fs_wf f \<longleftrightarrow> (\<forall>p q. fs_get f p \<noteq> None \<longrightarrow> strict_prefix q p \<longrightarrow> fs_get f q = Some FDir)"
proof -
  have "fs_get f p \<noteq> None \<longleftrightarrow> p = [] \<or> p \<in> fst ` set f" for p
    unfolding fs_get_def by (simp add: map_of_eq_None_iff del: not_None_eq)
  then show ?thesis by (auto simp: fs_wf_def list_all_iff ancestors_prefix)
qed

lemma blocked_iff: "blocked f p \<longleftrightarrow> (\<exists>q. strict_prefix q p \<and> is_file (fs_get f q))"
  by (auto simp: blocked_def list_ex_iff ancestors_prefix)

lemma fs_file_get: "fs_wf f \<Longrightarrow> fs_file f p = (case fs_get f p of Some (FFile b) \<Rightarrow> Some b | _ \<Rightarrow> None)"
  unfolding fs_file_def fs_read_def blocked_iff fs_wf_iff
  by (auto split: option.splits fs_node.splits)

lemma fs_get_update: "fs_get (AList.update p n f) q = (if q = p \<and> p \<noteq> [] then Some n else fs_get f q)"
  by (simp add: fs_get_def update_conv')

lemma fs_get_mkdirs:
  "fs_get (fold (\<lambda>q g. if fs_get g q = None then AList.update q FDir g else g) ps f) q
   = (if q \<in> set ps \<and> fs_get f q = None then Some FDir else fs_get f q)"
proof (induction ps arbitrary: f)
  case (Cons p ps)
  have "fs_get f p = None \<Longrightarrow> p \<noteq> []" by (auto simp: fs_get_def)
  then show ?case by (auto simp: Cons fs_get_update)
qed simp

lemma fs_get_create:
  assumes "fs_create_dir_all p f = Inr g"
  shows "fs_get g q = (if prefix q p \<and> fs_get f q = None then Some FDir else fs_get f q)"
    and "\<And>q. prefix q p \<Longrightarrow> fs_get g q = Some FDir"
proof -
  have g: "g = fold (\<lambda>q g. if fs_get g q = None then AList.update q FDir g else g) (ancestors p @ [p]) f"
    and nb: "\<not> blocked f p" "\<not> is_file (fs_get f p)"
    using assms by (auto simp: fs_create_dir_all_def split: if_splits)
  have mem: "r \<in> set (ancestors p @ [p]) \<longleftrightarrow> prefix r p" for r
    by (auto simp: ancestors_prefix strict_prefix_def)
  show *: "fs_get g q = (if prefix q p \<and> fs_get f q = None then Some FDir else fs_get f q)" for q
    unfolding g fs_get_mkdirs mem ..
  fix q assume "prefix q p"
  then have "\<not> is_file (fs_get f q)" using nb by (cases "q = p") (auto simp: blocked_iff strict_prefix_def)
  then show "fs_get g q = Some FDir" using * \<open>prefix q p\<close> by (cases "fs_get f q" rule: is_file.cases) auto
qed

lemma fs_create_keeps:
  assumes "fs_create_dir_all p f = Inr g" "fs_wf f"
  shows "fs_wf g \<and> fs_file g = fs_file f"
proof -
  note get = fs_get_create(1) [OF assms(1)]
  have "fs_wf g"
    unfolding fs_wf_iff
  proof (intro allI impI)
    fix r q assume r: "fs_get g r \<noteq> None" and q: "strict_prefix q r"
    show "fs_get g q = Some FDir"
    proof (cases "fs_get f r = None")
      case True
      then have "prefix r p" using r get by (auto split: if_splits)
      then show ?thesis using q fs_get_create(2) [OF assms(1)] by (meson prefix_order.dual_order.trans strict_prefixE prefixI prefix_order.less_imp_le)
    next
      case False
      then show ?thesis using assms(2) q get unfolding fs_wf_iff by auto
    qed
  qed
  moreover have "fs_file g q = fs_file f q" for q
    unfolding fs_file_get [OF assms(2)] fs_file_get [OF \<open>fs_wf g\<close>] get by simp
  ultimately show ?thesis by auto
qed

lemma fs_write_effect:
  assumes "fs_write p b f = Inr g" "fs_wf f" "p \<noteq> []"
  shows "fs_wf g \<and> fs_file g = (fs_file f)(p \<mapsto> b)"
proof -
  have nb: "\<not> blocked f p" and parent: "fs_get f (butlast p) \<noteq> None" and nd: "fs_get f p \<noteq> Some FDir"
    and g: "g = AList.update p (FFile b) f"
    using assms(1) by (auto simp: fs_write_def split: if_splits)
  have get: "fs_get g q = (if q = p then Some (FFile b) else fs_get f q)" for q
    using assms(3) by (simp add: g fs_get_update)
  have above: "fs_get f q = Some FDir" if "strict_prefix q p" for q
  proof (cases "q = butlast p")
    case True
    then have "\<not> is_file (fs_get f q)" using nb that by (auto simp: blocked_iff)
    then show ?thesis using parent True by (cases "fs_get f q" rule: is_file.cases) auto
  next
    case False
    have "prefix q (butlast p)"
      using that assms(3) by (metis append_butlast_last_id prefix_order.less_le prefix_snoc)
    then show ?thesis using False parent assms(2) by (simp add: fs_wf_iff strict_prefix_def)
  qed
  have "fs_wf g"
    unfolding fs_wf_iff
  proof (intro allI impI)
    fix r q assume r: "fs_get g r \<noteq> None" and q: "strict_prefix q r"
    have "fs_get f q = Some FDir"
    proof (cases "r = p")
      case True then show ?thesis using above q by simp
    next
      case False
      then have "fs_get f r \<noteq> None" using r get by simp
      then show ?thesis using assms(2) q fs_wf_iff by blast
    qed
    then show "fs_get g q = Some FDir" using nd get by auto
  qed
  moreover have "fs_file g q = ((fs_file f)(p \<mapsto> b)) q" for q
    unfolding fs_file_get [OF \<open>fs_wf g\<close>] fun_upd_def fs_file_get [OF assms(2)] get by simp
  ultimately show ?thesis by auto
qed

lemma fs_remove_effect:
  assumes "fs_remove_file p f = Inr g" "fs_wf f"
  shows "fs_wf g \<and> fs_file g = (fs_file f)(p := None)"
proof -
  obtain b where b: "fs_get f p = Some (FFile b)" and g: "g = AList.delete p f"
    using assms(1) by (auto simp: fs_remove_file_def split: if_splits option.splits fs_node.splits)
  have get: "fs_get g q = (if q = p then None else fs_get f q)" for q
    using b by (auto simp: g fs_get_def delete_conv' split: if_splits)
  have "fs_wf g"
    unfolding fs_wf_iff
  proof (intro allI impI)
    fix r q assume r: "fs_get g r \<noteq> None" and q: "strict_prefix q r"
    have "fs_get f r \<noteq> None" using r get by (auto split: if_splits)
    then have "fs_get f q = Some FDir" using assms(2) q fs_wf_iff by blast
    then show "fs_get g q = Some FDir" using b get by auto
  qed
  moreover have "fs_file g q = ((fs_file f)(p := None)) q" for q
    unfolding fs_file_get [OF \<open>fs_wf g\<close>] fun_upd_def fs_file_get [OF assms(2)] get by simp
  ultimately show ?thesis by auto
qed

section \<open>The store is a map from names to documents\<close>

datatype ('k, 'v) store_op = Put 'k 'v | Del 'k

fun op_key :: "('k, 'v) store_op \<Rightarrow> 'k" where
  "op_key (Put k _) = k"
| "op_key (Del k) = k"

fun op_value :: "('k, 'v) store_op \<Rightarrow> 'v option" where
  "op_value (Put _ v) = Some v"
| "op_value (Del _) = None"

text \<open>Runs operations and logs which of them succeeded; \<open>replay\<close> is what a log means
  for a map.\<close>

fun run_ops :: "(('k, 'v) store_op \<Rightarrow> 's \<Rightarrow> bool \<times> 's) \<Rightarrow> ('k, 'v) store_op list \<Rightarrow> 's
    \<Rightarrow> (('k, 'v) store_op \<times> bool) list \<times> 's" where
  "run_ops exec [] s = ([], s)"
| "run_ops exec (p # ps) s =
     (case exec p s of (ok, s') \<Rightarrow> (case run_ops exec ps s' of (log, s'') \<Rightarrow> ((p, ok) # log, s'')))"

fun replay :: "(('k, 'v) store_op \<times> bool) list \<Rightarrow> ('k \<Rightarrow> 'v option) \<Rightarrow> 'k \<Rightarrow> 'v option" where
  "replay [] m = m"
| "replay ((p, ok) # log) m = replay log (if ok then m(op_key p := op_value p) else m)"

locale keyed_store =
  fixes inv :: "'s \<Rightarrow> bool"
    and key :: "'k \<Rightarrow> bool"
    and look :: "'s \<Rightarrow> 'k \<Rightarrow> 'v option"
    and exec :: "('k, 'v) store_op \<Rightarrow> 's \<Rightarrow> bool \<times> 's"
  assumes exec_inv: "inv s \<Longrightarrow> key (op_key p) \<Longrightarrow> exec p s = (ok, s') \<Longrightarrow> inv s'"
    and exec_look: "inv s \<Longrightarrow> key (op_key p) \<Longrightarrow> key k \<Longrightarrow> exec p s = (ok, s') \<Longrightarrow>
      look s' k = (if ok \<and> k = op_key p then op_value p else look s k)"
begin

lemma run_replay:
  assumes "run_ops exec ops s = (log, s')" "inv s" "list_all (\<lambda>p. key (op_key p)) ops"
    "\<And>k. key k \<Longrightarrow> look s k = m k" "key k"
  shows "inv s' \<and> look s' k = replay log m k"
  using assms
proof (induction ops arbitrary: s log m)
  case (Cons p ops)
  obtain ok s1 where p: "exec p s = (ok, s1)" by fastforce
  obtain log1 where r: "run_ops exec ops s1 = (log1, s')" and log: "log = (p, ok) # log1"
    using Cons.prems(1) by (auto simp: p split: prod.splits)
  have kp: "key (op_key p)" and ops: "list_all (\<lambda>p. key (op_key p)) ops" using Cons.prems(3) by simp_all
  have "look s1 k' = (if ok then m(op_key p := op_value p) else m) k'" if "key k'" for k'
    using exec_look [OF Cons.prems(2) kp that p] Cons.prems(4) [OF that] by simp
  from Cons.IH [OF r exec_inv [OF Cons.prems(2) kp p] ops this Cons.prems(5)]
  show ?case by (simp add: log)
qed simp

end

text \<open>The keys are local names without a selector and a query: the only ones
  \<open>murl name\<close> passes on.\<close>

definition store_key :: "murl \<Rightarrow> bool" where
  "store_key m \<longleftrightarrow> wf_murl m \<and> mu_authority m = Local \<and> mu_selector m = None \<and> mu_query m = None"

definition store_content :: "fs \<Rightarrow> murl \<Rightarrow> bytes option" where
  "store_content f m = (case store_load ''names'' f m of Inr (b, _) \<Rightarrow> Some b | Inl _ \<Rightarrow> None)"

fun store_exec :: "(murl, bytes) store_op \<Rightarrow> fs \<Rightarrow> bool \<times> fs" where
  "store_exec (Put m b) f = (is_ok (fst (store_add m b f)), snd (store_add m b f))"
| "store_exec (Del m) f = (is_ok (fst (store_remove m f)), snd (store_remove m f))"

lemma store_content_file: "store_content f m = fs_file f (manifest_path m)"
  by (auto simp: store_content_def store_load_def fs_file_def Let_def split: sum.split io_error.split)

lemma manifest_path_nonempty: "manifest_path m \<noteq> []"
  by (simp add: manifest_path_def)

lemma store_key_path:
  "store_key m \<Longrightarrow> store_key m' \<Longrightarrow> manifest_path m = manifest_path m' \<longleftrightarrow> m = m'"
  using manifest_path_inject [of m m'] file_slot_wf unfolding store_key_def by (auto intro: murl.equality)

lemma store_add_file:
  assumes "fs_wf f"
  shows "fs_wf (snd (store_add m b f)) \<and>
    fs_file (snd (store_add m b f)) = (if is_ok (fst (store_add m b f)) then (fs_file f)(manifest_path m \<mapsto> b) else fs_file f)"
proof (cases "fs_create_dir_all (butlast (manifest_path m)) f")
  case (Inl e)
  then show ?thesis using assms by (simp add: store_add_def Let_def)
next
  case (Inr g)
  note g = fs_create_keeps [OF Inr assms]
  then show ?thesis
    using fs_write_effect [of _ b g] manifest_path_nonempty [of m]
    by (cases "fs_write (manifest_path m) b g") (simp_all add: store_add_def Let_def Inr)
qed

lemma store_remove_file:
  assumes "fs_wf f"
  shows "fs_wf (snd (store_remove m f)) \<and>
    fs_file (snd (store_remove m f)) = (if is_ok (fst (store_remove m f)) then (fs_file f)(manifest_path m := None) else fs_file f)"
proof (cases "fs_remove_file (manifest_path m) f")
  case (Inl e)
  have "fs_file f (manifest_path m) = None" if "e = IoNotFound"
    using Inl that by (auto simp: fs_remove_file_def fs_file_def fs_read_def split: if_splits option.splits fs_node.splits)
  then show ?thesis using assms Inl by (cases e) (auto simp: store_remove_def)
next
  case (Inr g)
  then show ?thesis using fs_remove_effect [OF Inr assms] by (simp add: store_remove_def)
qed

interpretation names: keyed_store fs_wf store_key store_content store_exec
proof
  fix f p ok f'
  assume "fs_wf f" and p: "store_exec p f = (ok, f')"
  then show "fs_wf f'"
    using store_add_file store_remove_file by (cases p) auto
  fix k assume "store_key (op_key p)" "store_key k"
  then show "store_content f' k = (if ok \<and> k = op_key p then op_value p else store_content f k)"
    using p store_add_file [OF \<open>fs_wf f\<close>] store_remove_file [OF \<open>fs_wf f\<close>] store_key_path
    by (cases p) (auto simp: store_content_file)
qed

text \<open>C18: the local name store is a finite map. After any sequence of \<open>add\<close> and
  \<open>remove\<close> calls on local names, whichever of them failed, loading a name returns what
  the last successful call for exactly that name and version left: the bytes of the
  last successful \<open>add\<close>, verbatim, and nothing after a successful \<open>remove\<close>. No two names
  share a file.\<close>

theorem store_refines_map:
  assumes "fs_wf f" "list_all (\<lambda>p. store_key (op_key p)) ops" "store_key m"
    and "run_ops store_exec ops f = (log, f')"
  shows "store_content f' m = replay log (store_content f) m"
  using names.run_replay [OF assms(4,1,2) refl assms(3)] by simp

theorem store_refines_map_witness:
  "let m = \<lparr> mu_authority = Local, mu_name = [''team'', ''a~b''], mu_version = Latest, mu_selector = None, mu_query = None \<rparr>;
       n = m\<lparr> mu_version := Pinned [1, 2] \<rparr>;
       ops = [Put m ''one'', Put n ''two'', Del n, Put m ''three'']
   in store_content (snd (run_ops store_exec ops [])) m = Some ''three''"
proof -
  let ?m = "\<lparr> mu_authority = Local, mu_name = [''team'', ''a~b''], mu_version = Latest, mu_selector = None, mu_query = None \<rparr>"
  let ?n = "?m\<lparr> mu_version := Pinned [1, 2] \<rparr>"
  let ?ops = "[Put ?m ''one'', Put ?n ''two'', Del ?n, Put ?m ''three'']"
  have "list_all (\<lambda>p. store_key (op_key p)) ?ops" "store_key ?m" by code_simp+
  moreover have "fs_wf []" by code_simp
  moreover have "replay (fst (run_ops store_exec ?ops [])) (store_content []) ?m = Some ''three''" by code_simp
  ultimately show ?thesis
    unfolding Let_def by (subst store_refines_map [OF _ _ _ prod.collapse [symmetric]])
qed

text \<open>The file of the name \<open>a\<close> and the directory of \<open>a.murl.json/b\<close> are the same path:
  once one is stored, the other cannot be.\<close>

lemma store_add_collision:
  "let m = \<lparr> mu_authority = Local, mu_name = [''a.murl.json'', ''b''], mu_version = Latest, mu_selector = None, mu_query = None \<rparr>;
       n = m\<lparr> mu_name := [''a''] \<rparr>
   in store_key m \<and> store_key n \<and> fst (store_add n ''x'' (snd (store_add m ''y'' []))) = Inl (EIo ''Is a directory'')"
  by code_simp

text \<open>\<open>list\<close> reports file names; they are not the canonical identity when the name
  has a tilde.\<close>

lemma store_list_not_canonical:
  "let m = \<lparr> mu_authority = Local, mu_name = [''a~b''], mu_version = Latest, mu_selector = None, mu_query = None \<rparr>
   in store_list (snd (store_add m ''y'' [])) = [''murl://local/a%7Eb''] \<and> identity m = ''murl://local/a~b''"
  by code_simp

section \<open>Well-known URLs are unambiguous\<close>

lemma path_suffix_canonical:
  "mu_name m \<noteq> [] \<Longrightarrow>
   concat (map (\<lambda>seg. ''/'' @ encode_segment seg) (mu_name m)) @ version_suffix (mu_version m) = CHR ''/'' # canonical_path m"
  unfolding canonical_path_def by (rule raw_segments_join)

lemma well_known_url_parts:
  assumes "mu_authority m \<noteq> Local" "mu_name m \<noteq> []"
  shows "well_known_url m = Some ((if is_loopback (mu_authority m) then ''http'' else ''https'')
    @ CHR '':'' # ''//'' @ authority_display (mu_authority m) @ CHR ''/'' # ''.well-known/murl/'' @ canonical_path m @ ''.murl.json'')"
proof -
  obtain h p where a: "mu_authority m = Remote h p" using assms(1) by (cases "mu_authority m") auto
  have "well_known_url m = Some ((if is_loopback (mu_authority m) then ''http'' else ''https'') @ ''://''
      @ authority_display (mu_authority m) @ ''/.well-known/murl''
      @ (concat (map (\<lambda>seg. ''/'' @ encode_segment seg) (mu_name m)) @ version_suffix (mu_version m)) @ ''.murl.json'')"
    by (cases p) (simp_all add: well_known_url_def version_suffix_def Let_def a split: version_tag.split del: version_display.simps)
  then show ?thesis unfolding path_suffix_canonical [OF assms(2)] by simp
qed

text \<open>The well-known URL of a remote name is unambiguous: it starts with \<open>http://\<close>
  exactly for loopback authorities and with \<open>https://\<close> otherwise, and two well-formed
  remote names have the same URL exactly when they have the same identity (authority,
  name and version).\<close>

lemma well_known_url_identifies:
  assumes "wf_murl m" "wf_murl m'" "well_known_url m = Some u" "well_known_url m' = Some u'"
  shows "(u = u' \<longleftrightarrow> identity m = identity m')
    \<and> (\<exists>rest. u = (if is_loopback (mu_authority m) then ''http://'' else ''https://'') @ rest)"
proof -
  have loc: "mu_authority m \<noteq> Local" "mu_authority m' \<noteq> Local"
    using assms(3,4) by (auto simp: well_known_url_def)
  have n: "mu_name m \<noteq> []" "mu_name m' \<noteq> []" and wa: "wf_authority (mu_authority m)" "wf_authority (mu_authority m')"
    using assms(1,2) by (auto simp: wf_murl_def)
  define sch :: "murl \<Rightarrow> string" where "sch k = (if is_loopback (mu_authority k) then ''http'' else ''https'')" for k
  note parts = well_known_url_parts [folded sch_def]
  have u: "u = sch m @ CHR '':'' # ''//'' @ authority_display (mu_authority m) @ CHR ''/'' # ''.well-known/murl/'' @ canonical_path m @ ''.murl.json''"
    and u': "u' = sch m' @ CHR '':'' # ''//'' @ authority_display (mu_authority m') @ CHR ''/'' # ''.well-known/murl/'' @ canonical_path m' @ ''.murl.json''"
    using assms(3,4) parts loc n by simp_all
  have "identity m = identity m'" if "u = u'"
  proof -
    have nc: "CHR '':'' \<notin> set (sch k)" for k by (simp add: sch_def)
    have ns: "CHR ''/'' \<notin> set (authority_display (mu_authority k))" if "wf_authority (mu_authority k)" for k
      using authority_display_chars [OF that, of "CHR ''/''"] by (auto simp: host_char_def byte_class_defs)
    from cut_unique [OF that [unfolded u u'] nc nc]
    have "authority_display (mu_authority m) @ CHR ''/'' # ''.well-known/murl/'' @ canonical_path m @ ''.murl.json''
        = authority_display (mu_authority m') @ CHR ''/'' # ''.well-known/murl/'' @ canonical_path m' @ ''.murl.json''"
      by simp
    from cut_unique [OF this ns [OF wa(1)] ns [OF wa(2)]]
    show ?thesis unfolding identity_path [OF n(1)] identity_path [OF n(2)] by simp
  qed
  moreover have "u = u'" if "identity m = identity m'"
  proof -
    have "mu_authority m = mu_authority m'" "mu_name m = mu_name m'" "mu_version m = mu_version m'"
      using identity_fields [OF assms(1,2) that] by simp_all
    then show ?thesis unfolding u u' sch_def canonical_path_def by simp
  qed
  moreover have "\<exists>rest. u = (if is_loopback (mu_authority m) then ''http://'' else ''https://'') @ rest"
    unfolding u sch_def by simp
  ultimately show ?thesis by blast
qed

lemma well_known_url_identifies_witness:
  "let m = \<lparr> mu_authority = Remote ''localhost'' (Some 8080), mu_name = [''t'', ''a b''], mu_version = Pinned [1, 4],
             mu_selector = None, mu_query = None \<rparr>
   in \<exists>rest. well_known_url m = Some (''http://'' @ rest)"
proof -
  let ?m = "\<lparr> mu_authority = Remote ''localhost'' (Some 8080), mu_name = [''t'', ''a b''], mu_version = Pinned [1, 4],
             mu_selector = None, mu_query = None \<rparr>"
  have wf: "wf_murl ?m" and l: "is_loopback (mu_authority ?m)" by code_simp+
  have "well_known_url ?m = Some ''http://localhost:8080/.well-known/murl/t/a%20b@1.4.murl.json''" by code_simp
  with conjunct2 [OF well_known_url_identifies [OF wf wf this this]] l show ?thesis
    unfolding Let_def by simp
qed

end
