(* ===== verification/Net.thy ===== *)
theory Net
  imports Fetch
begin

text \<open>
  The HTTPS fetcher, \<open>murl-net/src/lib.rs\<close>: which URLs it accepts, how it configures the
  client, which addresses its DNS guard lets through, and how much it reads. The HTTP
  client (\<open>ureq\<close>) is a parameter: a function of its configuration and the URL.
\<close>

section \<open>Addresses\<close>

datatype ip =
    V4 "8 word" "8 word" "8 word" "8 word"
  | V6 "16 word" "16 word" "16 word" "16 word" "16 word" "16 word" "16 word" "16 word"

text \<open>\<open>Ipv6Addr::to_ipv4_mapped\<close>, the address an IPv4-mapped one carries.\<close>

fun unmapped :: "ip \<Rightarrow> ip" where
  "unmapped (V6 s0 s1 s2 s3 s4 s5 s6 s7) =
     (if s0 = 0 \<and> s1 = 0 \<and> s2 = 0 \<and> s3 = 0 \<and> s4 = 0 \<and> s5 = 0xFFFF
      then V4 (ucast (drop_bit 8 s6)) (ucast s6) (ucast (drop_bit 8 s7)) (ucast s7)
      else V6 s0 s1 s2 s3 s4 s5 s6 s7)"
| "unmapped (V4 a b c d) = V4 a b c d"

fun ip_is_loopback :: "ip \<Rightarrow> bool" where
  "ip_is_loopback (V4 a b c d) = (a = 127)"
| "ip_is_loopback (V6 s0 s1 s2 s3 s4 s5 s6 s7) =
     (s0 = 0 \<and> s1 = 0 \<and> s2 = 0 \<and> s3 = 0 \<and> s4 = 0 \<and> s5 = 0 \<and> s6 = 0 \<and> s7 = 1)"

text \<open>The predicates of \<open>Ipv4Addr\<close> and \<open>Ipv6Addr\<close> the guard asks.\<close>

definition v4_is_private :: "8 word \<Rightarrow> 8 word \<Rightarrow> bool" where
  "v4_is_private a b \<longleftrightarrow> a = 10 \<or> (a = 172 \<and> 16 \<le> b \<and> b \<le> 31) \<or> (a = 192 \<and> b = 168)"

definition v4_is_link_local :: "8 word \<Rightarrow> 8 word \<Rightarrow> bool" where
  "v4_is_link_local a b \<longleftrightarrow> a = 169 \<and> b = 254"

definition v4_is_broadcast :: "8 word \<Rightarrow> 8 word \<Rightarrow> 8 word \<Rightarrow> 8 word \<Rightarrow> bool" where
  "v4_is_broadcast a b c d \<longleftrightarrow> a = 255 \<and> b = 255 \<and> c = 255 \<and> d = 255"

definition v4_is_multicast :: "8 word \<Rightarrow> bool" where
  "v4_is_multicast a \<longleftrightarrow> 224 \<le> a \<and> a \<le> 239"

unbundle bit_operations_syntax

fun ip_public :: "ip \<Rightarrow> bool" where
  "ip_public (V4 a b c d) \<longleftrightarrow>
     \<not> (ip_is_loopback (V4 a b c d) \<or> v4_is_private a b \<or> v4_is_link_local a b \<or> v4_is_broadcast a b c d
        \<or> v4_is_multicast a \<or> a = 0 \<or> (a = 100 \<and> (b AND 0xC0) = 64))"
| "ip_public (V6 s0 s1 s2 s3 s4 s5 s6 s7) \<longleftrightarrow>
     \<not> (ip_is_loopback (V6 s0 s1 s2 s3 s4 s5 s6 s7)
        \<or> (s0 = 0 \<and> s1 = 0 \<and> s2 = 0 \<and> s3 = 0 \<and> s4 = 0 \<and> s5 = 0 \<and> s6 = 0 \<and> s7 = 0)
        \<or> (s0 AND 0xFF00) = 0xFF00 \<or> (s0 AND 0xFE00) = 0xFC00 \<or> (s0 AND 0xFFC0) = 0xFE80)"

definition ip_allowed :: "ip \<Rightarrow> bool \<Rightarrow> bool" where
  "ip_allowed a loopback = (if loopback then ip_is_loopback (unmapped a) else ip_public (unmapped a))"

text \<open>The DNS guard: \<open>lookup\<close> is what the system's resolver returns.\<close>

definition guarded_resolve :: "bool \<Rightarrow> (string \<Rightarrow> string + ip list) \<Rightarrow> string \<Rightarrow> string + ip list" where
  "guarded_resolve loopback lookup netloc =
     and_then (lookup netloc) (\<lambda>addrs.
       let allowed = filter (\<lambda>a. ip_allowed a loopback) addrs in
       if allowed = [] \<and> 0 < length addrs
       then Inl (if loopback
                 then quoted netloc @ '' is a loopback name but resolves to non-loopback addresses; plain-http manifest fetches never leave this machine''
                 else quoted netloc @ '' resolves only to blocked address ranges (private/link-local/loopback); manifest resolution refuses to reach into local networks'')
       else Inr allowed)"

section \<open>A fetch\<close>

definition url_host :: "string \<Rightarrow> string option" where
  "url_host url =
     (case (case strip_prefix ''https://'' url of Some r \<Rightarrow> Some r | None \<Rightarrow> strip_prefix ''http://'' url) of
        None \<Rightarrow> None
      | Some rest \<Rightarrow>
          (let auth = takeWhile (\<lambda>c. c \<noteq> CHR ''/'' \<and> c \<noteq> CHR ''?'' \<and> c \<noteq> CHR ''#'') rest in
           Some (case rsplit_once CHR '':'' auth of Some (h, _) \<Rightarrow> h | None \<Rightarrow> auth)))"

definition host_is_loopback :: "string \<Rightarrow> bool" where
  "host_is_loopback h \<longleftrightarrow> h = ''localhost'' \<or> h = ''127.0.0.1'' \<or> ends_with ''.localhost'' h"

text \<open>\<open>ureq_redirects\<close>: a saturating successor on 32 bits, but 0 stays 0.\<close>

definition ureq_redirects :: "nat \<Rightarrow> nat" where
  "ureq_redirects n = (if n = 0 then 0 else min (n + 1) (2 ^ 32 - 1))"

record client_config =
  cc_timeout_secs :: nat
  cc_redirects :: nat
  cc_https_only :: bool
  cc_loopback :: bool

text \<open>A response body: the bytes that arrive, and the error that ends it early, if any.\<close>

record http_response =
  hr_status :: nat
  hr_body :: bytes
  hr_broken :: "string option"

datatype http_error = StatusError nat | TransportError string

definition read_capped :: "http_response \<Rightarrow> nat \<Rightarrow> string \<Rightarrow> error + bytes" where
  "read_capped resp cap url =
     (let buf = take (cap + 1) (hr_body resp) in
      case (if length (hr_body resp) < cap + 1 then hr_broken resp else None) of
        Some e \<Rightarrow> Inl (EFetch (''reading '' @ url @ '': '' @ e))
      | None \<Rightarrow>
          if cap < length buf
          then Inl (ELimitExceeded (''manifest at '' @ url @ '' exceeds '' @ dec_of_nat cap @ '' bytes''))
          else Inr buf)"

definition fetch_config :: "string \<Rightarrow> limits \<Rightarrow> client_config" where
  "fetch_config url lim = \<lparr> cc_timeout_secs = fetch_timeout_secs lim, cc_redirects = ureq_redirects (max_redirects lim),
     cc_https_only = starts_with ''https://'' url,
     cc_loopback = (case url_host url of Some h \<Rightarrow> host_is_loopback h | None \<Rightarrow> False) \<rparr>"

definition fetch :: "(client_config \<Rightarrow> string \<Rightarrow> http_error + http_response) \<Rightarrow> string \<Rightarrow> limits \<Rightarrow> error + bytes" where
  "fetch client url lim =
     (let cfg = fetch_config url lim in
      if \<not> (cc_https_only cfg \<or> (starts_with ''http://'' url \<and> cc_loopback cfg))
      then Inl (EFetch (''refusing non-HTTPS manifest URL '' @ quoted url @ '' (http is allowed for loopback only)''))
      else
        (case client cfg url of
           Inr resp \<Rightarrow>
             if 200 \<le> hr_status resp \<and> hr_status resp \<le> 299 then read_capped resp (max_manifest_bytes lim) url
             else Inl (EFetch (''HTTP '' @ dec_of_nat (hr_status resp) @ '' from '' @ url))
         | Inl (StatusError code) \<Rightarrow> Inl (EFetch (''HTTP '' @ dec_of_nat code @ '' from '' @ url))
         | Inl (TransportError e) \<Rightarrow> Inl (EFetch (url @ '': '' @ e))))"

section \<open>Masks and ranges\<close>

lemma high_bits: "x AND NOT (mask n) = push_bit n (drop_bit n (x :: 'a::len word))"
  by (rule bit_word_eqI) (auto simp: bit_simps)
lemma drop_high: "drop_bit n (push_bit n (drop_bit n x)) = drop_bit n (x :: 'a::len word)"
  by (rule bit_word_eqI) (auto simp: bit_simps dest: bit_imp_le_length)
lemma prefix_mask:
  assumes "take_bit n c = (0 :: 'a::len word)"
  shows "x AND NOT (mask n) = c \<longleftrightarrow> drop_bit n x = drop_bit n c"
proof
  assume "x AND NOT (mask n) = c"
  then show "drop_bit n x = drop_bit n c" unfolding high_bits by (metis drop_high)
next
  assume "drop_bit n x = drop_bit n c"
  then have "x AND NOT (mask n) = c AND NOT (mask n)" by (simp add: high_bits)
  also have "\<dots> = c"
  proof (rule bit_word_eqI)
    fix k assume "k < LENGTH('a)"
    have "\<not> bit c k" if "k < n" using assms that by (metis bit_take_bit_iff bit_0_eq bot_apply bot_bool_def)
    then show "bit (c AND NOT (mask n)) k = bit c k" using \<open>k < LENGTH('a)\<close> by (auto simp: bit_simps)
  qed
  finally show "x AND NOT (mask n) = c" .
qed
lemma div_range:
  fixes n k q :: nat
  assumes "0 < k"
  shows "n div k = q \<longleftrightarrow> q * k \<le> n \<and> n < Suc q * k"
proof -
  have "n div k = q \<longleftrightarrow> q \<le> n div k \<and> n div k < Suc q" by auto
  then show ?thesis using less_eq_div_iff_mult_less_eq [OF assms] div_less_iff_less_mult [OF assms] by simp
qed

lemma nat_prefix: "(b AND 0xC0) = 64 \<longleftrightarrow> unat b div 64 = 1" for b :: "8 word"
proof -
  have "(0xC0 :: 8 word) = NOT (mask 6)" by (simp add: mask_eq_exp_minus_1)
  then have "(b AND 0xC0) = 64 \<longleftrightarrow> drop_bit 6 b = 1" using prefix_mask [of 6 "64" b] by simp
  then show ?thesis by (simp add: word_unat_eq_iff drop_bit_eq_div unat_div)
qed
lemma segment_ranges: "(s AND 0xFF00) = 0xFF00 \<longleftrightarrow> 0xFF00 \<le> unat s" "(s AND 0xFE00) = 0xFC00 \<longleftrightarrow> 0xFC00 \<le> unat s \<and> unat s < 0xFE00"
   "(s AND 0xFFC0) = 0xFE80 \<longleftrightarrow> 0xFE80 \<le> unat s \<and> unat s < 0xFEC0"
  for s :: "16 word"
proof -
  have "(0xFF00 :: 16 word) = NOT (mask 8)" "(0xFE00 :: 16 word) = NOT (mask 9)" "(0xFFC0 :: 16 word) = NOT (mask 6)"
    by (simp_all add: mask_eq_exp_minus_1)
  then have "(s AND 0xFF00) = 0xFF00 \<longleftrightarrow> drop_bit 8 s = 0xFF" "(s AND 0xFE00) = 0xFC00 \<longleftrightarrow> drop_bit 9 s = 0x7E"
     "(s AND 0xFFC0) = 0xFE80 \<longleftrightarrow> drop_bit 6 s = 0x3FA"
    using prefix_mask [of 8 "0xFF00" s] prefix_mask [of 9 "0xFC00" s] prefix_mask [of 6 "0xFE80" s] by simp_all
  then show "(s AND 0xFF00) = 0xFF00 \<longleftrightarrow> 0xFF00 \<le> unat s" "(s AND 0xFE00) = 0xFC00 \<longleftrightarrow> 0xFC00 \<le> unat s \<and> unat s < 0xFE00"
   "(s AND 0xFFC0) = 0xFE80 \<longleftrightarrow> 0xFE80 \<le> unat s \<and> unat s < 0xFEC0"
    using unsigned_less [of s, where ?'a = nat] by (simp_all add: word_unat_eq_iff drop_bit_eq_div unat_div div_range)
qed
text \<open>An IPv4 address as a number, and the blocks it may be in.\<close>

definition v4_num :: "8 word \<Rightarrow> 8 word \<Rightarrow> 8 word \<Rightarrow> 8 word \<Rightarrow> nat" where
  "v4_num a b c d = ((unat a * 256 + unat b) * 256 + unat c) * 256 + unat d"

definition in_block :: "nat \<Rightarrow> nat \<times> nat \<Rightarrow> bool" where
  "in_block n blk = (n div 2 ^ (32 - snd blk) = fst blk div 2 ^ (32 - snd blk))"

text \<open>127/8, 10/8, 172.16/12, 192.168/16, 169.254/16, 255.255.255.255/32, 224/4, 0/8, 100.64/10.\<close>

definition blocked_v4 :: "(nat \<times> nat) list" where
  "blocked_v4 = [(0x7F000000, 8), (0x0A000000, 8), (0xAC100000, 12), (0xC0A80000, 16), (0xA9FE0000, 16),
     (0xFFFFFFFF, 32), (0xE0000000, 4), (0, 8), (0x64400000, 10)]"

lemma octet: "unat (w :: 8 word) < 256" using unsigned_less [of w, where ?'a = nat] by simp
lemma num_div:
  "v4_num a b c d div 2 ^ 24 = unat a" "v4_num a b c d div 2 ^ 16 = unat a * 256 + unat b"
  "v4_num a b c d div 2 ^ 20 = unat a * 16 + unat b div 16" "v4_num a b c d div 2 ^ 22 = unat a * 4 + unat b div 64"
  "v4_num a b c d div 2 ^ 28 = unat a div 16"
  using octet [of a] octet [of b] octet [of c] octet [of d] by (simp_all add: v4_num_def)

lemma digits:
  fixes k n x :: nat
  assumes "k < n" "k' < n"
  shows "x * n + k = x' * n + k' \<longleftrightarrow> x = x' \<and> k = k'"
proof
  assume e: "x * n + k = x' * n + k'"
  have "(x * n + k) div n = x" "(x' * n + k') div n = x'" using assms by simp_all
  then have "x = x'" unfolding e by simp
  then show "x = x' \<and> k = k'" using e by simp
qed simp

lemma octet_arith:
  fixes x y :: nat
  assumes "y < 256"
  shows "x = 172 \<and> 16 \<le> y \<and> y \<le> 31 \<longleftrightarrow> x * 16 + y div 16 = 0xAC1" "x = 192 \<and> y = 168 \<longleftrightarrow> x * 256 + y = 0xC0A8"
    "x = 169 \<and> y = 254 \<longleftrightarrow> x * 256 + y = 0xA9FE" "x = 100 \<and> y div 64 = 1 \<longleftrightarrow> x * 4 + y div 64 = 0x191"
    "224 \<le> x \<and> x \<le> 239 \<longleftrightarrow> x div 16 = 14"
proof -
  have r: "y div 16 < 16" "y div 64 < 4" using assms by simp_all
  have "y div 16 = 1 \<longleftrightarrow> 16 \<le> y \<and> y \<le> 31" by (auto simp: div_range)
  then show "x = 172 \<and> 16 \<le> y \<and> y \<le> 31 \<longleftrightarrow> x * 16 + y div 16 = 0xAC1"
    using digits [OF r(1), of 1 x 172] by simp
  show "x = 192 \<and> y = 168 \<longleftrightarrow> x * 256 + y = 0xC0A8" using digits [OF assms, of 168 x 192] by simp
  show "x = 169 \<and> y = 254 \<longleftrightarrow> x * 256 + y = 0xA9FE" using digits [OF assms, of 254 x 169] by simp
  show "x = 100 \<and> y div 64 = 1 \<longleftrightarrow> x * 4 + y div 64 = 0x191" using digits [OF r(2), of 1 x 100] by simp
  show "224 \<le> x \<and> x \<le> 239 \<longleftrightarrow> x div 16 = 14" by (auto simp: div_range)
qed

lemma v4_blocks: "ip_public (V4 a b c d) \<longleftrightarrow> \<not> list_ex (in_block (v4_num a b c d)) blocked_v4"
proof -
  note o = octet [of a] octet [of b] octet [of c] octet [of d]
  have eq: "x = y \<longleftrightarrow> unat x = unat y" "x \<le> y \<longleftrightarrow> unat x \<le> unat y" for x y :: "8 word"
    by (simp_all add: word_unat_eq_iff word_le_nat_alt)
  note ar = octet_arith [OF octet [of b], of "unat a"]
  have prv: "v4_is_private a b \<longleftrightarrow> unat a = 10 \<or> unat a * 16 + unat b div 16 = 0xAC1 \<or> unat a * 256 + unat b = 0xC0A8"
    unfolding ar(1,2) [symmetric] by (simp add: v4_is_private_def eq)
  have link: "v4_is_link_local a b \<longleftrightarrow> unat a * 256 + unat b = 0xA9FE"
    unfolding ar(3) [symmetric] by (simp add: v4_is_link_local_def eq)
  have broad: "v4_is_broadcast a b c d \<longleftrightarrow> v4_num a b c d = 0xFFFFFFFF"
    using digits [OF o(4), of 255 "(unat a * 256 + unat b) * 256 + unat c" 16777215] digits [OF o(3), of 255 "unat a * 256 + unat b" 65535]
      digits [OF o(2), of 255 "unat a" 255]
    by (simp add: v4_is_broadcast_def eq v4_num_def)
  have multi: "v4_is_multicast a \<longleftrightarrow> unat a div 16 = 14"
    unfolding ar(5) [symmetric] by (simp add: v4_is_multicast_def eq)
  have nat: "a = 100 \<and> (b AND 0xC0) = 64 \<longleftrightarrow> unat a * 4 + unat b div 64 = 0x191"
    unfolding ar(4) [symmetric] nat_prefix by (simp add: eq)
  have zero: "a = 0 \<longleftrightarrow> unat a = 0" "a = 127 \<longleftrightarrow> unat a = 127" by (simp_all add: eq)
  show ?thesis
    unfolding ip_public.simps ip_is_loopback.simps prv link broad multi nat zero
    using num_div [of a b c d] by (simp add: blocked_v4_def in_block_def)
qed

lemma v6_ranges:
  "ip_public (V6 t0 t1 t2 t3 t4 t5 t6 t7) \<longleftrightarrow>
     \<not> (t0 = 0 \<and> t1 = 0 \<and> t2 = 0 \<and> t3 = 0 \<and> t4 = 0 \<and> t5 = 0 \<and> t6 = 0 \<and> (t7 = 0 \<or> t7 = 1))
     \<and> (unat t0 < 0xFC00 \<or> 0xFE00 \<le> unat t0 \<and> unat t0 < 0xFE80 \<or> 0xFEC0 \<le> unat t0 \<and> unat t0 < 0xFF00)"
proof -
  have "\<not> (0xFF00 \<le> n \<or> 0xFC00 \<le> n \<and> n < 0xFE00 \<or> 0xFE80 \<le> n \<and> n < 0xFEC0) \<longleftrightarrow>
      n < 0xFC00 \<or> 0xFE00 \<le> n \<and> n < 0xFE80 \<or> 0xFEC0 \<le> n \<and> n < (0xFF00 :: nat)" for n
    by linarith
  then show ?thesis
    unfolding ip_public.simps ip_is_loopback.simps segment_ranges by blast
qed

section \<open>Properties\<close>

text \<open>
  The address guard, as a block list. Without the loopback exception, an IPv4
  address is let through exactly when it is in none of 127/8, 10/8, 172.16/12,
  192.168/16, 169.254/16, 224/4, 0/8, 100.64/10 and not the broadcast address; an IPv6
  address only if its first segment is below 0xfc00 or in the gap between the
  unique-local and the link-local range or between that and multicast; an IPv4-mapped
  address is judged as the IPv4 address it carries. With the exception, exactly the
  loopback addresses are.
\<close>

lemma guard_blocks:
  "(ip_allowed (V4 a b c d) False \<longleftrightarrow> \<not> list_ex (in_block (v4_num a b c d)) blocked_v4)
   \<and> (ip_allowed (V4 a b c d) True \<longleftrightarrow> a = 127)
   \<and> ip_allowed (V6 0 0 0 0 0 0xFFFF s6 s7) loopback
       = ip_allowed (V4 (ucast (drop_bit 8 s6)) (ucast s6) (ucast (drop_bit 8 s7)) (ucast s7)) loopback
   \<and> (if unmapped (V6 t0 t1 t2 t3 t4 t5 t6 t7) = V6 t0 t1 t2 t3 t4 t5 t6 t7
        then ip_allowed (V6 t0 t1 t2 t3 t4 t5 t6 t7) False \<longleftrightarrow>
          \<not> (t0 = 0 \<and> t1 = 0 \<and> t2 = 0 \<and> t3 = 0 \<and> t4 = 0 \<and> t5 = 0 \<and> t6 = 0 \<and> (t7 = 0 \<or> t7 = 1))
          \<and> (unat t0 < 0xFC00 \<or> 0xFE00 \<le> unat t0 \<and> unat t0 < 0xFE80 \<or> 0xFEC0 \<le> unat t0 \<and> unat t0 < 0xFF00)
        else True)"
proof (intro conjI)
  show "ip_allowed (V4 a b c d) False \<longleftrightarrow> \<not> list_ex (in_block (v4_num a b c d)) blocked_v4"
    using v4_blocks [of a b c d] by (simp add: ip_allowed_def del: ip_public.simps)
  show "ip_allowed (V4 a b c d) True \<longleftrightarrow> a = 127" by (simp add: ip_allowed_def)
  show "ip_allowed (V6 0 0 0 0 0 0xFFFF s6 s7) loopback
       = ip_allowed (V4 (ucast (drop_bit 8 s6)) (ucast s6) (ucast (drop_bit 8 s7)) (ucast s7)) loopback"
    by (simp add: ip_allowed_def del: ip_public.simps ip_is_loopback.simps)
qed (simp add: ip_allowed_def v6_ranges del: unmapped.simps ip_public.simps)

text \<open>The header speaks of all special ranges; benchmarking, reserved and site-local addresses
  and the NAT64 form of a private one pass.\<close>

lemma special_ranges_pass:
  "ip_allowed (V4 198 18 0 1) False" "ip_allowed (V4 240 0 0 1) False" "ip_allowed (V6 0xFEC0 0 0 0 0 0 0 1) False"
  "ip_allowed (V6 0x64 0xFF9B 0 0 0 0 0x0A00 1) False"
  by code_simp+

lemma read_capped_bound: "read_capped resp cap url = Inr b \<Longrightarrow> b = hr_body resp \<and> length b \<le> cap"
  by (auto simp: read_capped_def Let_def split: if_splits option.splits)

lemma authority_no_delim:
  assumes "wf_authority (Remote h p)"
  shows "list_all (\<lambda>c. c \<noteq> CHR ''/'' \<and> c \<noteq> CHR ''?'' \<and> c \<noteq> CHR ''#'') (authority_display (Remote h p))" "CHR '':'' \<notin> set h"
proof -
  have n: "\<not> host_char CHR ''/''" "\<not> host_char CHR ''?''" "\<not> host_char CHR ''#''" "\<not> host_char CHR '':''"
    by code_simp+
  have d: "\<not> is_digit CHR ''/''" "\<not> is_digit CHR ''?''" "\<not> is_digit CHR ''#''" by code_simp+
  have h: "host_char c" if "c \<in> set h" for c using wf_host_chars that assms by auto
  have "is_digit c" if "c \<in> set (dec_of_nat k)" for c k
    using all_digits_dec_of_nat [of k] that by (simp add: all_digits_def list_all_iff del: all_digits_dec_of_nat)
  then have "host_char c \<or> is_digit c \<or> c = CHR '':''" if "c \<in> set (authority_display (Remote h p))" for c
    using that h by (cases p) auto
  then show "list_all (\<lambda>c. c \<noteq> CHR ''/'' \<and> c \<noteq> CHR ''?'' \<and> c \<noteq> CHR ''#'') (authority_display (Remote h p))"
    unfolding list_all_iff using n(1-3) d by fastforce
  show "CHR '':'' \<notin> set h" using h n(4) by blast
qed

lemma url_host_authority:
  assumes "wf_authority (Remote h p)" "url = ''https://'' @ authority_display (Remote h p) @ CHR ''/'' # rest
      \<or> url = ''http://'' @ authority_display (Remote h p) @ CHR ''/'' # rest"
  shows "url_host url = Some h"
proof -
  let ?a = "authority_display (Remote h p)"
  have s: "(case strip_prefix ''https://'' url of Some r \<Rightarrow> Some r | None \<Rightarrow> strip_prefix ''http://'' url) = Some (?a @ CHR ''/'' # rest)"
    using assms(2) by auto
  have t: "takeWhile (\<lambda>c. c \<noteq> CHR ''/'' \<and> c \<noteq> CHR ''?'' \<and> c \<noteq> CHR ''#'') (?a @ CHR ''/'' # rest) = ?a"
    using authority_no_delim(1) [OF assms(1)] by (simp add: takeWhile_append2 list_all_iff del: authority_display.simps)
  have "(case rsplit_once CHR '':'' ?a of Some (h, _) \<Rightarrow> h | None \<Rightarrow> ?a) = h"
  proof (cases p)
    case None
    then show ?thesis using authority_no_delim(2) [OF assms(1)] by simp
  next
    case (Some k)
    have "CHR '':'' \<notin> set (dec_of_nat (unat k))"
    proof -
      have "\<not> is_digit CHR '':''" by code_simp
      then show ?thesis using all_digits_dec_of_nat [of "unat k"] by (auto simp: all_digits_def list_all_iff simp del: all_digits_dec_of_nat)
    qed
    then show ?thesis by (simp add: Some)
  qed
  then show ?thesis unfolding url_host_def s option.case t Let_def by simp
qed

text \<open>
  C26: what fetching a name asks of the network. For the well-known URL of a well-formed
  remote name the client is asked with https only, unless the authority is a loopback
  one; the DNS guard has the loopback exception exactly then; no redirect is followed
  under the default limits. What comes back is the whole body of a 2xx response within
  the size cap, and at most one byte more than the cap is ever read.
\<close>

theorem fetch_of_name:
  assumes "wf_murl m" "well_known_url m = Some url"
  shows "fetch_config url lim = \<lparr> cc_timeout_secs = fetch_timeout_secs lim, cc_redirects = ureq_redirects (max_redirects lim),
       cc_https_only = (\<not> is_loopback (mu_authority m)), cc_loopback = is_loopback (mu_authority m) \<rparr>
    \<and> cc_redirects (fetch_config url default_limits) = 0
    \<and> (case fetch client url lim of
         Inl e \<Rightarrow> True
       | Inr b \<Rightarrow> length b \<le> max_manifest_bytes lim
           \<and> (\<exists>resp. client (fetch_config url lim) url = Inr resp \<and> b = hr_body resp \<and> 200 \<le> hr_status resp \<and> hr_status resp \<le> 299))
    \<and> (\<forall>resp more. cap < length (hr_body resp) \<longrightarrow>
         read_capped (resp\<lparr> hr_body := take (cap + 1) (hr_body resp) @ more \<rparr>) cap url = read_capped resp cap url)"
proof -
  obtain h p where a: "mu_authority m = Remote h p"
    using assms(2) by (cases "mu_authority m") (auto simp: well_known_url_def)
  have wf: "wf_authority (Remote h p)" "mu_name m \<noteq> []" using assms(1) by (simp_all add: wf_murl_def a)
  have "\<exists>rest. url = (if is_loopback (mu_authority m) then ''http'' else ''https'') @ CHR '':'' # ''//''
      @ authority_display (Remote h p) @ CHR ''/'' # rest"
    using well_known_url_parts [of m] assms(2) wf(2) a by auto
  then obtain rest where u: "url = (if is_loopback (mu_authority m) then ''http://'' else ''https://'')
      @ authority_display (Remote h p) @ CHR ''/'' # rest" by auto
  have host: "url_host url = Some h" by (rule url_host_authority [OF wf(1), of _ rest]) (simp add: u)
  have "starts_with ''https://'' url \<longleftrightarrow> \<not> is_loopback (mu_authority m)"
    unfolding u by (simp add: starts_with_def)
  then have cfg: "fetch_config url lim = \<lparr> cc_timeout_secs = fetch_timeout_secs lim, cc_redirects = ureq_redirects (max_redirects lim),
       cc_https_only = (\<not> is_loopback (mu_authority m)), cc_loopback = is_loopback (mu_authority m) \<rparr>" for lim
    by (simp add: fetch_config_def host host_is_loopback_def a)
  have "case fetch client url lim of
         Inl e \<Rightarrow> True
       | Inr b \<Rightarrow> length b \<le> max_manifest_bytes lim
           \<and> (\<exists>resp. client (fetch_config url lim) url = Inr resp \<and> b = hr_body resp \<and> 200 \<le> hr_status resp \<and> hr_status resp \<le> 299)"
    by (auto simp: fetch_def Let_def dest!: read_capped_bound split: sum.splits if_splits http_error.splits)
  moreover have "read_capped (resp\<lparr> hr_body := take (cap + 1) (hr_body resp) @ more \<rparr>) cap url = read_capped resp cap url"
    if "cap < length (hr_body resp)" for resp :: http_response and more
    using that by (simp add: read_capped_def Let_def)
  ultimately show ?thesis unfolding cfg by (simp add: ureq_redirects_def default_limits_def)
qed

definition sample_client :: "client_config \<Rightarrow> string \<Rightarrow> http_error + http_response" where
  "sample_client c u = (if cc_https_only c then Inr \<lparr> hr_status = 200, hr_body = ''{}'', hr_broken = None \<rparr> else Inl (StatusError 404))"

theorem fetch_of_name_witness:
  "let m = \<lparr> mu_authority = Remote ''vendor.example'' None, mu_name = [''t''], mu_version = Latest, mu_selector = None, mu_query = None \<rparr>
   in \<exists>url. well_known_url m = Some url \<and> cc_https_only (fetch_config url default_limits) \<and> \<not> cc_loopback (fetch_config url default_limits)"
proof -
  let ?m = "\<lparr> mu_authority = Remote ''vendor.example'' None, mu_name = [''t''], mu_version = Latest, mu_selector = None, mu_query = None \<rparr>"
  have wf: "wf_murl ?m" and l: "\<not> is_loopback (mu_authority ?m)" by code_simp+
  have w: "well_known_url ?m = Some ''https://vendor.example/.well-known/murl/t.murl.json''" by code_simp
  from conjunct1 [OF fetch_of_name [OF wf w, of default_limits]] l w show ?thesis unfolding Let_def by auto
qed

end
