(* ===== verification/Json.thy ===== *)
theory Json
  imports Prelude "HOL-Library.Multiset"
begin

text \<open>
  Strict JSON, \<open>murl-core/src/json.rs\<close>.

  serde\_json's tokenizer is a parameter: it turns bytes into a tree of visitor
  events, in which an object is the list of its members in document order,
  duplicates included. What the source adds, the visitor that rejects duplicate
  members, is modelled here. \<open>serde_json::Map\<close> is a \<open>BTreeMap\<close>: an association
  list sorted by key. A 64-bit float is its bit pattern.
\<close>

section \<open>Values\<close>

datatype number = NInt int | NFloat "64 word"

datatype json =
    JNull
  | JBool bool
  | JNum number
  | JStr string
  | JArr "json list"
  | JObj "(string \<times> json) list"

text \<open>The visitor calls serde makes on a document.\<close>

datatype raw =
    RUnit
  | RBool bool
  | RI64 int
  | RU64 int
  | RF64 "64 word"
  | RStr string
  | RSeq "raw list"
  | RMap "(string \<times> raw) list"

text \<open>An IEEE 754 double is finite unless its exponent bits are all ones.\<close>

definition f64_finite :: "64 word \<Rightarrow> bool" where
  "f64_finite w \<longleftrightarrow> take_bit 11 (drop_bit 52 w) \<noteq> 0x7FF"

text \<open>\<open>BTreeMap::insert\<close>: the new map, and whether the key was present.\<close>

fun map_insert :: "'k::linorder \<Rightarrow> 'v \<Rightarrow> ('k \<times> 'v) list \<Rightarrow> ('k \<times> 'v) list \<times> bool" where
  "map_insert k v [] = ([(k, v)], False)"
| "map_insert k v ((k', v') # m) =
     (if k < k' then ((k, v) # (k', v') # m, False)
      else if k = k' then ((k, v) # m, True)
      else let (m', b) = map_insert k v m in ((k', v') # m', b))"

section \<open>The duplicate-rejecting visitor\<close>

fun visit :: "raw \<Rightarrow> string + json"
  and visit_seq :: "raw list \<Rightarrow> string + json list"
  and visit_map :: "(string \<times> json) list \<Rightarrow> (string \<times> raw) list \<Rightarrow> string + (string \<times> json) list"
where
  "visit RUnit = Inr JNull"
| "visit (RBool b) = Inr (JBool b)"
| "visit (RI64 i) = Inr (JNum (NInt i))"
| "visit (RU64 i) = Inr (JNum (NInt i))"
| "visit (RF64 f) = (if f64_finite f then Inr (JNum (NFloat f)) else Inl ''non-finite number'')"
| "visit (RStr s) = Inr (JStr s)"
| "visit (RSeq xs) = and_then (visit_seq xs) (\<lambda>vs. Inr (JArr vs))"
| "visit (RMap ms) = and_then (visit_map [] ms) (\<lambda>m. Inr (JObj m))"
| "visit_seq [] = Inr []"
| "visit_seq (x # xs) = and_then (visit x) (\<lambda>v. and_then (visit_seq xs) (\<lambda>vs. Inr (v # vs)))"
| "visit_map out [] = Inr out"
| "visit_map out ((key, x) # ms) =
     and_then (visit x) (\<lambda>v.
       let (out', present) = map_insert key v out in
       if present then Inl (''duplicate object member `'' @ key @ ''`'')
       else visit_map out' ms)"

text \<open>\<open>events\<close> stands for serde\_json's reader on the whole input, \<open>de.end()\<close> included.\<close>

definition from_slice_strict :: "(bytes \<Rightarrow> string + raw) \<Rightarrow> bytes \<Rightarrow> string + json" where
  "from_slice_strict events bytes = and_then (events bytes) visit"

section \<open>Well-formed values\<close>

definition wf_map :: "('k::linorder \<times> 'v) list \<Rightarrow> bool" where
  "wf_map m \<longleftrightarrow> sorted_wrt (<) (map fst m)"

fun wf_json :: "json \<Rightarrow> bool" where
  "wf_json (JArr vs) = (\<forall>v\<in>set vs. wf_json v)"
| "wf_json (JObj m) = (wf_map m \<and> (\<forall>kv\<in>set m. wf_json (snd kv)))"
| "wf_json _ = True"

text \<open>What the visitor accepts: no member twice, at any level, and finite numbers.\<close>

fun strict_raw :: "raw \<Rightarrow> bool" where
  "strict_raw (RF64 f) = f64_finite f"
| "strict_raw (RSeq xs) = (\<forall>x\<in>set xs. strict_raw x)"
| "strict_raw (RMap ms) = (distinct (map fst ms) \<and> (\<forall>kx\<in>set ms. strict_raw (snd kx)))"
| "strict_raw _ = True"

lemma wf_map_Nil [simp]: "wf_map []"
  by (simp add: wf_map_def)

lemma wf_map_Cons [simp]: "wf_map ((k, v) # m) \<longleftrightarrow> (\<forall>k'\<in>fst ` set m. k < k') \<and> wf_map m"
  by (simp add: wf_map_def)

lemma wf_map_distinct: "wf_map m \<Longrightarrow> distinct (map fst m)"
  using strict_sorted_iff by (auto simp: wf_map_def)

lemma map_insert_spec:
  assumes "map_insert k v m = (m', b)" "wf_map m"
  shows "wf_map m' \<and> map_of m' = (map_of m)(k \<mapsto> v) \<and> (b \<longleftrightarrow> k \<in> fst ` set m)
    \<and> fst ` set m' = insert k (fst ` set m)"
  using assms
proof (induction k v m arbitrary: m' b rule: map_insert.induct)
  case (2 k v k' v' m)
  consider "k < k'" | "k = k'" | "\<not> k < k'" "k \<noteq> k'" by blast
  then show ?case
  proof cases
    case 3
    then obtain m'' b'' where i: "map_insert k v m = (m'', b'')" by fastforce
    have wf: "wf_map m" "\<forall>x\<in>fst ` set m. k' < x" using 2(3) by simp_all
    have m': "m' = (k', v') # m''" "b = b''" using 2(2) i 3 by auto
    show ?thesis
      using 2(1) [OF 3 i wf(1)] wf(2) 3 unfolding m' by (auto simp: fun_upd_twist)
  next
    case 1
    then show ?thesis using 2(2,3) by fastforce
  next
    case 2
    then show ?thesis using \<open>map_insert k v ((k', v') # m) = (m', b)\<close> \<open>wf_map ((k', v') # m)\<close> by auto
  qed
qed auto

lemma wf_map_unique:
  assumes "wf_map m" "wf_map m'" "map_of m = map_of m'"
  shows "m = m'"
proof -
  have *: "m = map (\<lambda>k. (k, the (map_of m k))) (map fst m)" if "wf_map m" for m :: "('a \<times> 'b) list"
    using map_of_is_SomeI [OF wf_map_distinct [OF that]]
    by (simp add: comp_def) (rule map_idI [symmetric], force)
  have "set (map fst m) = set (map fst m')" using assms(3) by (metis dom_map_of_conv_image_fst list.set_map)
  then have "map fst m = map fst m'"
    using assms(1,2) unfolding wf_map_def by (metis strict_sorted_equal)
  then show ?thesis using * [OF assms(1)] * [OF assms(2)] assms(3) by metis
qed

section \<open>What the visitor accepts and builds\<close>

lemma visit_map_spec:
  "visit_map out ms = Inr m \<Longrightarrow> wf_map out \<Longrightarrow>
   wf_map m \<and> distinct (map fst ms) \<and> fst ` set ms \<inter> fst ` set out = {}
   \<and> (\<forall>(k, x)\<in>set ms. \<exists>v. visit x = Inr v \<and> map_of m k = Some v)
   \<and> (\<forall>k. k \<notin> fst ` set ms \<longrightarrow> map_of m k = map_of out k)"
proof (induction ms arbitrary: out)
  case (Cons kx ms)
  obtain k x where kx: "kx = (k, x)" by fastforce
  obtain v where v: "visit x = Inr v" using Cons.prems(1) kx by auto
  obtain out' b where i: "map_insert k v out = (out', b)" by fastforce
  have r: "\<not> b" "visit_map out' ms = Inr m"
    using Cons.prems(1) kx v i by (auto split: if_splits)
  have spec: "wf_map out'" "map_of out' = (map_of out)(k \<mapsto> v)" "k \<notin> fst ` set out"
    "fst ` set out' = insert k (fst ` set out)"
    using map_insert_spec [OF i Cons.prems(2)] r(1) by blast+
  note IH = Cons.IH [OF r(2) spec(1)]
  have nk: "k \<notin> fst ` set ms" using IH spec(4) by blast
  show ?case
    unfolding kx using IH spec nk v by (auto simp: fun_upd_def)
qed simp

lemma visit_map_total:
  assumes "distinct (map fst ms)" "fst ` set ms \<inter> fst ` set out = {}" "wf_map out"
    "\<forall>kx\<in>set ms. is_ok (visit (snd kx))"
  shows "is_ok (visit_map out ms)"
  using assms
proof (induction ms arbitrary: out)
  case (Cons kx ms)
  obtain k x where kx: "kx = (k, x)" by fastforce
  obtain v where v: "visit x = Inr v" using Cons.prems(4) kx by (auto simp: is_ok_iff)
  obtain out' b where i: "map_insert k v out = (out', b)" by fastforce
  have spec: "wf_map out'" "\<not> b" "fst ` set out' = insert k (fst ` set out)"
    using map_insert_spec [OF i Cons.prems(3)] Cons.prems(2) kx by auto
  have "is_ok (visit_map out' ms)"
    using Cons.prems kx spec by (intro Cons.IH) auto
  then show ?case using kx v i spec(2) by simp
qed simp

lemma visit_seq_traverse: "visit_seq xs = traverse visit xs"
  by (induction xs) auto

lemma traverse_ok: "is_ok (traverse f xs) \<longleftrightarrow> (\<forall>x\<in>set xs. is_ok (f x))"
  by (induction xs) (auto simp: is_ok_iff)

lemma visit_ok_iff: "is_ok (visit r) \<longleftrightarrow> strict_raw r"
proof (induction r rule: strict_raw.induct)
  case (2 xs)
  have "is_ok (visit (RSeq xs)) \<longleftrightarrow> is_ok (traverse visit xs)"
    by (auto simp: visit_seq_traverse is_ok_iff)
  then show ?case using 2 by (simp add: traverse_ok)
next
  case (3 ms)
  show ?case
  proof
    assume "is_ok (visit (RMap ms))"
    then obtain m where "visit_map [] ms = Inr m" by (auto simp: is_ok_iff)
    from visit_map_spec [OF this] show "strict_raw (RMap ms)"
      using 3 by (fastforce simp: is_ok_iff)
  next
    assume "strict_raw (RMap ms)"
    then have "is_ok (visit_map [] ms)" using 3 by (intro visit_map_total) auto
    then show "is_ok (visit (RMap ms))" by (auto simp: is_ok_iff)
  qed
qed (simp_all add: is_ok_iff)

lemma visit_wf: "visit r = Inr v \<Longrightarrow> wf_json v"
proof (induction r arbitrary: v rule: strict_raw.induct)
  case (2 xs)
  then obtain vs where vs: "traverse visit xs = Inr vs" "v = JArr vs" by (auto simp: visit_seq_traverse)
  have "wf_json u" if "u \<in> set vs" for u
    using 2(1) traverse_set [OF vs(1) that] by blast
  then show ?case using vs(2) by simp
next
  case (3 ms)
  then obtain m where m: "visit_map [] ms = Inr m" "v = JObj m" by auto
  have spec: "wf_map m" "\<And>k x. (k, x) \<in> set ms \<Longrightarrow> \<exists>v. visit x = Inr v \<and> map_of m k = Some v"
    "\<And>k. k \<notin> fst ` set ms \<Longrightarrow> map_of m k = None"
    using visit_map_spec [OF m(1)] by auto
  have "wf_json u" if "(k, u) \<in> set m" for k u
  proof -
    have u: "map_of m k = Some u" using that wf_map_distinct [OF spec(1)] by simp
    then obtain x where "(k, x) \<in> set ms" using spec(3) by fastforce
    then show ?thesis using spec(2) u 3(1) by (metis option.inject snd_conv)
  qed
  then show ?case using m(2) spec(1) by auto
qed (auto split: if_splits)

text \<open>The value depends on the set of members only, not on their order.\<close>

lemma visit_map_order:
  assumes "strict_raw (RMap ms)" "mset ms = mset ms'"
  shows "visit (RMap ms) = visit (RMap ms')"
proof -
  have sets: "set ms = set ms'" "distinct (map fst ms) = distinct (map fst ms')"
    using assms(2) by (metis set_mset_mset) (metis assms(2) mset_map mset_eq_imp_distinct_iff)
  then have "strict_raw (RMap ms')" using assms(1) by simp
  then obtain m m' where m: "visit_map [] ms = Inr m" and m': "visit_map [] ms' = Inr m'"
    using assms(1) visit_ok_iff by (metis and_then_Inr_iff is_ok_iff visit.simps(8))
  note s = visit_map_spec [OF m wf_map_Nil] and s' = visit_map_spec [OF m' wf_map_Nil]
  have "map_of m k = map_of m' k" for k
  proof (cases "k \<in> fst ` set ms")
    case True
    then obtain x where "(k, x) \<in> set ms" by auto
    then have "\<exists>v. visit x = Inr v \<and> map_of m k = Some v" "\<exists>v. visit x = Inr v \<and> map_of m' k = Some v"
      using s s' sets(1) by auto
    then show ?thesis by auto
  next
    case False
    then show ?thesis using s s' sets(1) by simp
  qed
  then have "m = m'" using s s' by (intro wf_map_unique ext) auto
  then show ?thesis using m m' by simp
qed

section \<open>Properties\<close>

text \<open>
  C11: the strict parser accepts a document the tokenizer reads exactly when no
  object at any level names a member twice and every float is finite, and then its
  objects are sorted by key without duplicates.
\<close>

theorem strict_accepts_iff:
  "(is_ok (visit r) \<longleftrightarrow> strict_raw r) \<and> (case visit r of Inr v \<Rightarrow> wf_json v | Inl _ \<Rightarrow> True)"
  using visit_ok_iff visit_wf by (auto split: sum.split)

text \<open>
  The value of an accepted object does not depend on the order in which the
  document lists its members.
\<close>

lemma strict_member_order:
  assumes "is_ok (visit (RMap ms))" "mset ms = mset ms'"
  shows "visit (RMap ms) = visit (RMap ms')"
  using assms visit_ok_iff visit_map_order by blast

lemma strict_member_order_witness:
  "visit (RMap [(''b'', RUnit), (''a'', RStr ''x'')]) = visit (RMap [(''a'', RStr ''x''), (''b'', RUnit)])"
proof (rule strict_member_order)
  show "is_ok (visit (RMap [(''b'', RUnit), (''a'', RStr ''x'')]))" by code_simp
qed simp

end
