(* ===== verification/Doc.thy ===== *)
theory Doc
  imports Errors Json
begin

text \<open>
  The typed manifest document (\<open>ManifestDoc\<close> and its parts in
  \<open>murl-core/src/manifest.rs\<close>) and \<open>Manifest::from_slice\<close>.

  The struct declarations carry their reader: what \<open>derive(Deserialize)\<close> with the
  attributes \<open>rename_all\<close>, \<open>default\<close> and \<open>Option\<close> fields accepts is written out
  here, following serde's documented rules. A struct is read from an object by
  member name (unknown members are skipped) or from an array by position; a
  missing member takes its default or is an error; \<open>null\<close> is \<open>None\<close> for an
  \<open>Option\<close>. The wording of serde's own messages is not reproduced.
\<close>

section \<open>The documents\<close>

record signature_block =
  sg_alg :: string
  sg_key_id :: string
  sg_public_key :: string
  sg_sig :: string

record resource_doc =
  rd_id :: string
  rd_kind :: string
  rd_target :: string
  rd_label :: "string option"
  rd_role :: "string option"
  rd_required :: bool
  rd_order :: int
  rd_depends_on :: "string list"
  rd_tags :: "string list"
  rd_integrity :: "string option"
  rd_meta :: "json option"

record relation =
  rl_from :: string
  rl_rel :: string
  rl_to :: string

record manifest_doc =
  md_murl_version :: string
  md_id :: "string option"
  md_name :: string
  md_description :: "string option"
  md_version :: "string option"
  md_not_before :: "string option"
  md_expires :: "string option"
  md_resources :: "resource_doc list"
  md_relations :: "relation list"
  md_signature :: "signature_block option"

record manifest =
  mf_raw :: json
  mf_doc :: manifest_doc

definition default_order :: int where
  "default_order = 100"

section \<open>Reading a struct\<close>

text \<open>The members of a struct value, by field name.\<close>

definition fields_of :: "string list \<Rightarrow> json \<Rightarrow> string + (string \<Rightarrow> json option)" where
  "fields_of names v =
     (case v of
        JObj m \<Rightarrow> Inr (map_of m)
      | JArr xs \<Rightarrow>
          if length xs \<le> length names then Inr (map_of (zip names xs)) else Inl ''invalid length''
      | _ \<Rightarrow> Inl ''invalid type: expected struct'')"

definition required :: "(json \<Rightarrow> string + 'a) \<Rightarrow> (string \<Rightarrow> json option) \<Rightarrow> string \<Rightarrow> string + 'a" where
  "required rd f k = (case f k of Some v \<Rightarrow> rd v | None \<Rightarrow> Inl (''missing field '' @ quoted k))"

definition defaulted :: "'a \<Rightarrow> (json \<Rightarrow> string + 'a) \<Rightarrow> (string \<Rightarrow> json option) \<Rightarrow> string \<Rightarrow> string + 'a" where
  "defaulted d rd f k = (case f k of Some v \<Rightarrow> rd v | None \<Rightarrow> Inr d)"

definition optional :: "(json \<Rightarrow> string + 'a) \<Rightarrow> (string \<Rightarrow> json option) \<Rightarrow> string \<Rightarrow> string + 'a option" where
  "optional rd f k =
     (case f k of
        None \<Rightarrow> Inr None
      | Some JNull \<Rightarrow> Inr None
      | Some v \<Rightarrow> and_then (rd v) (\<lambda>a. Inr (Some a)))"

definition de_string :: "json \<Rightarrow> string + string" where
  "de_string v = (case v of JStr s \<Rightarrow> Inr s | _ \<Rightarrow> Inl ''invalid type: expected a string'')"

definition de_bool :: "json \<Rightarrow> string + bool" where
  "de_bool v = (case v of JBool b \<Rightarrow> Inr b | _ \<Rightarrow> Inl ''invalid type: expected a boolean'')"

definition de_i64 :: "json \<Rightarrow> string + int" where
  "de_i64 v =
     (case v of
        JNum (NInt i) \<Rightarrow> if - (2 ^ 63) \<le> i \<and> i < 2 ^ 63 then Inr i else Inl ''invalid value: expected i64''
      | _ \<Rightarrow> Inl ''invalid type: expected i64'')"

definition de_value :: "json \<Rightarrow> string + json" where
  "de_value v = Inr v"

definition de_vec :: "(json \<Rightarrow> string + 'a) \<Rightarrow> json \<Rightarrow> string + 'a list" where
  "de_vec rd v = (case v of JArr xs \<Rightarrow> traverse rd xs | _ \<Rightarrow> Inl ''invalid type: expected a sequence'')"

definition de_signature :: "json \<Rightarrow> string + signature_block" where
  "de_signature v =
     and_then (fields_of [''alg'', ''keyId'', ''publicKey'', ''sig''] v) (\<lambda>f.
     and_then (required de_string f ''alg'') (\<lambda>alg.
     and_then (required de_string f ''keyId'') (\<lambda>key_id.
     and_then (required de_string f ''publicKey'') (\<lambda>public_key.
     and_then (required de_string f ''sig'') (\<lambda>sig.
       Inr \<lparr> sg_alg = alg, sg_key_id = key_id, sg_public_key = public_key, sg_sig = sig \<rparr>)))))"

definition RESOURCE_FIELDS :: "string list" where
  "RESOURCE_FIELDS =
     [''id'', ''kind'', ''target'', ''label'', ''role'', ''required'', ''order'', ''dependsOn'', ''tags'', ''integrity'', ''meta'']"

definition de_resource :: "json \<Rightarrow> string + resource_doc" where
  "de_resource v =
     and_then (fields_of RESOURCE_FIELDS v) (\<lambda>f.
     and_then (required de_string f ''id'') (\<lambda>id.
     and_then (required de_string f ''kind'') (\<lambda>kind.
     and_then (required de_string f ''target'') (\<lambda>target.
     and_then (optional de_string f ''label'') (\<lambda>label.
     and_then (optional de_string f ''role'') (\<lambda>role.
     and_then (defaulted False de_bool f ''required'') (\<lambda>req.
     and_then (defaulted default_order de_i64 f ''order'') (\<lambda>ord.
     and_then (defaulted [] (de_vec de_string) f ''dependsOn'') (\<lambda>deps.
     and_then (defaulted [] (de_vec de_string) f ''tags'') (\<lambda>tags.
     and_then (optional de_string f ''integrity'') (\<lambda>integrity.
     and_then (optional de_value f ''meta'') (\<lambda>meta.
       Inr \<lparr> rd_id = id, rd_kind = kind, rd_target = target, rd_label = label, rd_role = role,
             rd_required = req, rd_order = ord, rd_depends_on = deps, rd_tags = tags,
             rd_integrity = integrity, rd_meta = meta \<rparr>))))))))))))"

definition de_relation :: "json \<Rightarrow> string + relation" where
  "de_relation v =
     and_then (fields_of [''from'', ''rel'', ''to''] v) (\<lambda>f.
     and_then (required de_string f ''from'') (\<lambda>from.
     and_then (required de_string f ''rel'') (\<lambda>rel.
     and_then (required de_string f ''to'') (\<lambda>to.
       Inr \<lparr> rl_from = from, rl_rel = rel, rl_to = to \<rparr>))))"

definition MANIFEST_FIELDS :: "string list" where
  "MANIFEST_FIELDS =
     [''murlVersion'', ''id'', ''name'', ''description'', ''version'', ''notBefore'', ''expires'', ''resources'', ''relations'', ''signature'']"

definition de_manifest :: "json \<Rightarrow> string + manifest_doc" where
  "de_manifest v =
     and_then (fields_of MANIFEST_FIELDS v) (\<lambda>f.
     and_then (required de_string f ''murlVersion'') (\<lambda>murl_version.
     and_then (optional de_string f ''id'') (\<lambda>id.
     and_then (required de_string f ''name'') (\<lambda>name.
     and_then (optional de_string f ''description'') (\<lambda>description.
     and_then (optional de_string f ''version'') (\<lambda>version.
     and_then (optional de_string f ''notBefore'') (\<lambda>not_before.
     and_then (optional de_string f ''expires'') (\<lambda>expires.
     and_then (required (de_vec de_resource) f ''resources'') (\<lambda>resources.
     and_then (defaulted [] (de_vec de_relation) f ''relations'') (\<lambda>relations.
     and_then (optional de_signature f ''signature'') (\<lambda>signature.
       Inr \<lparr> md_murl_version = murl_version, md_id = id, md_name = name, md_description = description,
             md_version = version, md_not_before = not_before, md_expires = expires,
             md_resources = resources, md_relations = relations, md_signature = signature \<rparr>)))))))))))"

section \<open>Reading a manifest\<close>

fun is_object :: "json \<Rightarrow> bool" where
  "is_object (JObj _) = True"
| "is_object _ = False"

text \<open>\<open>Manifest::from_slice\<close>: the size cap comes before any parsing.\<close>

definition manifest_from_slice :: "(bytes \<Rightarrow> string + raw) \<Rightarrow> limits \<Rightarrow> bytes \<Rightarrow> error + manifest" where
  "manifest_from_slice events lim bytes =
     (if max_manifest_bytes lim < length bytes
      then Inl (ELimitExceeded (''manifest is '' @ dec_of_nat (length bytes) @ '' bytes, limit is ''
             @ dec_of_nat (max_manifest_bytes lim)))
      else
        and_then (map_err (\<lambda>e. EManifest (''invalid JSON: '' @ e)) (from_slice_strict events bytes)) (\<lambda>raw.
          if \<not> is_object raw then Inl (EManifest ''top-level JSON value must be an object'')
          else
            and_then (map_err (\<lambda>e. EManifest (''schema mismatch: '' @ e)) (de_manifest raw)) (\<lambda>doc.
              Inr \<lparr> mf_raw = raw, mf_doc = doc \<rparr>)))"

section \<open>Lemmas\<close>

lemma manifest_from_slice_ok:
  assumes "manifest_from_slice events lim bytes = Inr mf"
  shows "length bytes \<le> max_manifest_bytes lim \<and> (\<exists>m. mf_raw mf = JObj m \<and> wf_json (JObj m))
    \<and> de_manifest (mf_raw mf) = Inr (mf_doc mf)"
proof -
  obtain r where r: "events bytes = Inr r" "visit r = Inr (mf_raw mf)" "is_object (mf_raw mf)"
    "length bytes \<le> max_manifest_bytes lim" "de_manifest (mf_raw mf) = Inr (mf_doc mf)"
    using assms by (auto simp: manifest_from_slice_def from_slice_strict_def split: if_splits)
  then show ?thesis using visit_wf [OF r(2)] by (cases "mf_raw mf") auto
qed

text \<open>
  The specification asks for resource \<^emph>\<open>objects\<close>. A struct reader also takes an
  array of the field values in declaration order, so this spelling is accepted.
\<close>

lemma resource_as_array:
  "de_resource (JArr [JStr ''a'', JStr ''https'', JStr ''https://x.example/''])
   = Inr \<lparr> rd_id = ''a'', rd_kind = ''https'', rd_target = ''https://x.example/'', rd_label = None,
           rd_role = None, rd_required = False, rd_order = 100, rd_depends_on = [], rd_tags = [],
           rd_integrity = None, rd_meta = None \<rparr>"
  by code_simp

end
