(* ===== verification/Graph.thy ===== *)
theory Graph
  imports Doc
begin

text \<open>
  Dispatch order over one manifest, \<open>execution_order\<close> of \<open>murl-core/src/graph.rs\<close>:
  Kahn's algorithm with ties broken by \<open>(order, index)\<close>. The lemmas show that the
  result is the unique greedy topological order, and that the only failure is a
  dependency cycle.
\<close>

section \<open>The algorithm\<close>

text \<open>\<open>resources.iter().position(|r| r.id == id)\<close>\<close>

fun position :: "('a \<Rightarrow> bool) \<Rightarrow> 'a list \<Rightarrow> nat option" where
  "position P [] = None"
| "position P (x # xs) = (if P x then Some 0 else map_option Suc (position P xs))"

definition deps_of :: "resource_doc list \<Rightarrow> nat \<Rightarrow> nat list" where
  "deps_of rs i =
     filter (\<lambda>j. i \<noteq> j) (List.map_filter (\<lambda>d. position (\<lambda>r. rd_id r = d) rs) (rd_depends_on (rs ! i)))"

definition ready :: "nat list list \<Rightarrow> bool list \<Rightarrow> nat \<Rightarrow> bool" where
  "ready deps dn i \<longleftrightarrow> \<not> (dn ! i \<or> \<not> list_all (\<lambda>j. dn ! j) (deps ! i))"

definition lex_less :: "int \<Rightarrow> nat \<Rightarrow> int \<Rightarrow> nat \<Rightarrow> bool" where
  "lex_less o1 i1 o2 i2 \<longleftrightarrow> o1 < o2 \<or> (o1 = o2 \<and> i1 < i2)"

definition pick_step :: "resource_doc list \<Rightarrow> nat list list \<Rightarrow> bool list \<Rightarrow> nat \<Rightarrow> nat option \<Rightarrow> nat option" where
  "pick_step rs deps dn i pick =
     (if \<not> ready deps dn i then pick
      else case pick of
        None \<Rightarrow> Some i
      | Some p \<Rightarrow> if lex_less (rd_order (rs ! i)) i (rd_order (rs ! p)) p then Some i else Some p)"

definition pick_next :: "resource_doc list \<Rightarrow> nat list list \<Rightarrow> bool list \<Rightarrow> nat option" where
  "pick_next rs deps dn = fold (pick_step rs deps dn) [0..<length rs] None"

definition stuck_ids :: "resource_doc list \<Rightarrow> bool list \<Rightarrow> string list" where
  "stuck_ids rs dn = map (\<lambda>i. rd_id (rs ! i)) (filter (\<lambda>i. \<not> dn ! i) [0..<length rs])"

function order_loop :: "resource_doc list \<Rightarrow> nat list list \<Rightarrow> bool list \<Rightarrow> nat list \<Rightarrow> string + nat list" where
  "order_loop rs deps dn out =
     (if length out < length rs then
        (case pick_next rs deps dn of
           Some i \<Rightarrow> order_loop rs deps (dn[i := True]) (out @ [i])
         | None \<Rightarrow> Inl (''dependsOn cycle among resources: '' @ join '' -> '' (stuck_ids rs dn)))
      else Inr out)"
  by pat_completeness auto
termination
  by (relation "measure (\<lambda>(rs, deps, dn, out). length rs - length out)") auto

definition execution_order :: "resource_doc list \<Rightarrow> string + nat list" where
  "execution_order rs =
     order_loop rs (map (deps_of rs) [0..<length rs]) (replicate (length rs) False) []"

declare order_loop.simps [simp del]

section \<open>The dependency graph\<close>

lemma position_Some: "position P xs = Some j \<Longrightarrow> j < length xs \<and> P (xs ! j) \<and> (\<forall>k<j. \<not> P (xs ! k))"
  by (induction xs arbitrary: j) (auto simp: less_Suc_eq_0_disj split: if_splits)

lemma position_None: "position P xs = None \<longleftrightarrow> (\<forall>x\<in>set xs. \<not> P x)"
  by (induction xs) auto

lemma deps_of_less: "j \<in> set (deps_of rs i) \<Longrightarrow> j < length rs"
  by (auto simp: deps_of_def map_filter_def dest: position_Some)

definition dep_edges :: "resource_doc list \<Rightarrow> (nat \<times> nat) set" where
  "dep_edges rs = {(j, i). i < length rs \<and> j \<in> set (deps_of rs i)}"

lemma finite_dep_edges: "finite (dep_edges rs)"
proof (rule finite_subset)
  show "dep_edges rs \<subseteq> {..<length rs} \<times> {..<length rs}"
    by (auto simp: dep_edges_def dest: deps_of_less)
qed simp

text \<open>Node \<open>i\<close> may be dispatched once the nodes of \<open>out\<close> have been.\<close>

definition available :: "resource_doc list \<Rightarrow> nat list \<Rightarrow> nat \<Rightarrow> bool" where
  "available rs out i \<longleftrightarrow> i < length rs \<and> i \<notin> set out \<and> set (deps_of rs i) \<subseteq> set out"

definition done_flags :: "resource_doc list \<Rightarrow> nat list \<Rightarrow> bool list" where
  "done_flags rs out = map (\<lambda>i. i \<in> set out) [0..<length rs]"

lemma ready_available:
  "i < length rs \<Longrightarrow> ready (map (deps_of rs) [0..<length rs]) (done_flags rs out) i \<longleftrightarrow> available rs out i"
  using deps_of_less [of _ rs i] by (auto simp: ready_def available_def done_flags_def list_all_iff)

definition not_after :: "resource_doc list \<Rightarrow> nat \<Rightarrow> nat \<Rightarrow> bool" where
  "not_after rs i j \<longleftrightarrow> rd_order (rs ! i) < rd_order (rs ! j) \<or> (rd_order (rs ! i) = rd_order (rs ! j) \<and> i \<le> j)"

lemma pick_fold:
  "case fold (pick_step rs deps dn) xs None of
     None \<Rightarrow> \<forall>i\<in>set xs. \<not> ready deps dn i
   | Some p \<Rightarrow> p \<in> set xs \<and> ready deps dn p \<and> (\<forall>i\<in>set xs. ready deps dn i \<longrightarrow> not_after rs p i)"
proof (induction xs rule: rev_induct)
  case (snoc x xs)
  then show ?case
    by (auto simp: pick_step_def lex_less_def not_after_def split: option.splits)
qed simp

lemma pick_next_spec:
  "case pick_next rs (map (deps_of rs) [0..<length rs]) (done_flags rs out) of
     None \<Rightarrow> \<forall>i. \<not> available rs out i
   | Some p \<Rightarrow> available rs out p \<and> (\<forall>i. available rs out i \<longrightarrow> not_after rs p i)"
  using pick_fold [where rs = rs and deps = "map (deps_of rs) [0..<length rs]" and dn = "done_flags rs out"
      and xs = "[0..<length rs]"]
  by (auto simp: pick_next_def ready_available available_def split: option.splits)

section \<open>The invariant of the loop\<close>

definition greedy :: "resource_doc list \<Rightarrow> nat list \<Rightarrow> bool" where
  "greedy rs out \<longleftrightarrow> (\<forall>k<length out. available rs (take k out) (out ! k)
     \<and> (\<forall>i. available rs (take k out) i \<longrightarrow> not_after rs (out ! k) i))"

lemma greedy_snoc:
  "greedy rs (out @ [i]) \<longleftrightarrow> greedy rs out \<and> available rs out i \<and> (\<forall>j. available rs out j \<longrightarrow> not_after rs i j)"
proof -
  have "greedy rs (out @ [i]) \<longleftrightarrow>
      (\<forall>k<length out. available rs (take k out) (out ! k) \<and> (\<forall>j. available rs (take k out) j \<longrightarrow> not_after rs (out ! k) j))
      \<and> available rs out i \<and> (\<forall>j. available rs out j \<longrightarrow> not_after rs i j)"
    unfolding greedy_def by (simp add: less_Suc_eq nth_append all_conj_distrib imp_conjR) auto
  then show ?thesis by (simp add: greedy_def)
qed

lemma greedy_distinct: "greedy rs out \<Longrightarrow> distinct out \<and> set out \<subseteq> {..<length rs}"
  by (induction out rule: rev_induct) (auto simp: greedy_snoc available_def)

lemma done_flags_update:
  "i < length rs \<Longrightarrow> (done_flags rs out)[i := True] = done_flags rs (out @ [i])"
  by (rule nth_equalityI) (auto simp: done_flags_def nth_list_update)

lemma order_loop_spec:
  assumes "greedy rs out"
  shows "case order_loop rs (map (deps_of rs) [0..<length rs]) (done_flags rs out) out of
      Inr res \<Rightarrow> greedy rs res \<and> length res \<ge> length rs
    | Inl _ \<Rightarrow> \<exists>out'. greedy rs out' \<and> length out' < length rs \<and> (\<forall>i. \<not> available rs out' i)"
  using assms
proof (induction "length rs - length out" arbitrary: out rule: less_induct)
  case less
  note unf = order_loop.simps [of rs "map (deps_of rs) [0..<length rs]" "done_flags rs out" out]
  show ?case
  proof (cases "length out < length rs")
    case False
    then show ?thesis using less.prems by (simp add: unf)
  next
    case True
    show ?thesis
    proof (cases "pick_next rs (map (deps_of rs) [0..<length rs]) (done_flags rs out)")
      case None
      then have "\<forall>i. \<not> available rs out i" using pick_next_spec [of rs out] by simp
      then show ?thesis using True None less.prems by (auto simp: unf)
    next
      case (Some i)
      then have i: "available rs out i" "\<forall>j. available rs out j \<longrightarrow> not_after rs i j"
        using pick_next_spec [of rs out] by simp_all
      then have "greedy rs (out @ [i])" using less.prems by (simp add: greedy_snoc)
      moreover have "i < length rs" using i by (simp add: available_def)
      ultimately show ?thesis
        using less.hyps [of "out @ [i]"] True Some by (simp add: unf done_flags_update)
    qed
  qed
qed

lemma execution_order_spec:
  "case execution_order rs of
      Inr res \<Rightarrow> greedy rs res \<and> length res \<ge> length rs
    | Inl _ \<Rightarrow> \<exists>out'. greedy rs out' \<and> length out' < length rs \<and> (\<forall>i. \<not> available rs out' i)"
proof -
  have "done_flags rs [] = replicate (length rs) False"
    by (rule nth_equalityI) (auto simp: done_flags_def)
  then show ?thesis
    using order_loop_spec [of rs "[]"] by (simp add: execution_order_def greedy_def)
qed

lemma execution_order_greedy:
  assumes "execution_order rs = Inr out"
  shows "greedy rs out \<and> distinct out \<and> set out = {..<length rs}"
proof -
  have g: "greedy rs out" "length out \<ge> length rs" using execution_order_spec [of rs] assms by simp_all
  then have d: "distinct out" "set out \<subseteq> {..<length rs}" using greedy_distinct by blast+
  then have "card (set out) \<ge> card {..<length rs}" using g(2) by (simp add: distinct_card)
  then have "set out = {..<length rs}" using d(2) by (intro card_seteq) auto
  with g d show ?thesis by blast
qed

lemma greedy_unique:
  "greedy rs out \<Longrightarrow> greedy rs out' \<Longrightarrow> length out = length out' \<Longrightarrow> out = out'"
proof (induction out arbitrary: out' rule: rev_induct)
  case (snoc i out)
  show ?case
  proof (cases out' rule: rev_cases)
    case Nil
    then show ?thesis using snoc.prems(3) by simp
  next
    case o': (snoc o' i')
    have out: "greedy rs out" "available rs out i" "\<forall>j. available rs out j \<longrightarrow> not_after rs i j"
      using snoc.prems(1) unfolding greedy_snoc by blast+
    have out': "greedy rs o'" "available rs o' i'" "\<forall>j. available rs o' j \<longrightarrow> not_after rs i' j"
      using snoc.prems(2) unfolding o' greedy_snoc by blast+
    have "length out = length o'" using snoc.prems(3) o' by simp
    then have eq: "out = o'" by (rule snoc.IH [OF out(1) out'(1)])
    have "not_after rs i i'" "not_after rs i' i" using out out' eq by blast+
    then have "i = i'" unfolding not_after_def by linarith
    then show ?thesis using o' eq by simp
  qed
qed simp

section \<open>Failure is a cycle\<close>

lemma order_respects_edges:
  assumes "greedy rs out" "(j, i) \<in> dep_edges rs" "i \<in> set out"
  shows "\<exists>k l. k < l \<and> l < length out \<and> out ! k = j \<and> out ! l = i"
proof -
  obtain l where l: "l < length out" "out ! l = i" using assms(3) by (auto simp: in_set_conv_nth)
  then have "available rs (take l out) i" using assms(1) by (auto simp: greedy_def)
  then have "j \<in> set (take l out)" using assms(2) by (auto simp: available_def dep_edges_def)
  then obtain k where "k < l" "out ! k = j" using l(1) by (auto simp: in_set_conv_nth)
  then show ?thesis using l by blast
qed

lemma execution_order_acyclic:
  assumes "execution_order rs = Inr out"
  shows "acyclic (dep_edges rs)"
proof -
  note g = execution_order_greedy [OF assms]
  define idx where "idx i = (THE k. k < length out \<and> out ! k = i)" for i
  have idx: "idx (out ! k) = k" if "k < length out" for k
    unfolding idx_def
  proof (rule the_equality)
    show "k < length out \<and> out ! k = out ! k" using that by simp
    fix l assume "l < length out \<and> out ! l = out ! k"
    then show "l = k" using that g by (metis nth_eq_iff_index_eq)
  qed
  have "dep_edges rs \<subseteq> measure idx"
  proof
    fix e assume e: "e \<in> dep_edges rs"
    obtain j i where ji: "e = (j, i)" by fastforce
    then have "i \<in> set out" using e g by (auto simp: dep_edges_def)
    then obtain k l where "k < l" "l < length out" "out ! k = j" "out ! l = i"
      using order_respects_edges [of rs out j i] g e ji by blast
    then show "e \<in> measure idx" using idx [of k] idx [of l] ji by auto
  qed
  then show ?thesis by (metis wf_measure wf_subset wf_acyclic)
qed

lemma acyclic_execution_order:
  assumes "acyclic (dep_edges rs)"
  shows "is_ok (execution_order rs)"
proof (rule ccontr)
  assume "\<not> is_ok (execution_order rs)"
  then obtain out where out: "greedy rs out" "length out < length rs" "\<forall>i. \<not> available rs out i"
    using execution_order_spec [of rs] by (auto split: sum.splits)
  have "wf (dep_edges rs)" using assms finite_dep_edges by (rule finite_acyclic_wf [rotated])
  moreover have "\<exists>i. i \<in> {..<length rs} - set out"
  proof (rule ccontr)
    assume "\<not> ?thesis"
    then have "{..<length rs} \<subseteq> set out" by auto
    then have "length rs \<le> card (set out)" using card_mono [of "set out" "{..<length rs}"] by simp
    then show False using out(2) card_length [of out] by linarith
  qed
  ultimately obtain i where i: "i \<in> {..<length rs} - set out"
    "\<And>j. (j, i) \<in> dep_edges rs \<Longrightarrow> j \<notin> {..<length rs} - set out"
    by (metis wfE_min)
  then have "available rs out i"
    by (auto simp: available_def dep_edges_def dest: deps_of_less)
  then show False using out(3) by blast
qed

section \<open>Properties\<close>

text \<open>
  C9: \<open>execution_order\<close> returns a permutation of the resource indices in which every
  resource follows all its dependencies, and at each step the one with the least
  \<open>(order, index)\<close> among the ready ones. No other list has this property, so a plan
  is the same on every run.
\<close>

theorem execution_order_correct:
  assumes "execution_order rs = Inr out"
  shows "distinct out \<and> set out = {..<length rs}
    \<and> (\<forall>i j. (j, i) \<in> dep_edges rs \<longrightarrow> (\<exists>k l. k < l \<and> l < length out \<and> out ! k = j \<and> out ! l = i))
    \<and> (\<forall>out'. greedy rs out' \<and> length out' = length rs \<longleftrightarrow> out' = out)"
proof -
  note g = execution_order_greedy [OF assms]
  have len: "length out = length rs" using g by (metis card_lessThan distinct_card)
  have "\<exists>k l. k < l \<and> l < length out \<and> out ! k = j \<and> out ! l = i" if "(j, i) \<in> dep_edges rs" for i j
    using order_respects_edges [OF _ that] g that by (auto simp: dep_edges_def)
  moreover have "greedy rs out' \<and> length out' = length rs \<longleftrightarrow> out' = out" for out'
    using greedy_unique [of rs out' out] g len by auto
  ultimately show ?thesis using g by blast
qed

definition sample_resource :: "string \<Rightarrow> int \<Rightarrow> string list \<Rightarrow> resource_doc" where
  "sample_resource i ord deps =
     \<lparr> rd_id = i, rd_kind = ''https'', rd_target = ''https://x.example/'', rd_label = None, rd_role = None,
       rd_required = False, rd_order = ord, rd_depends_on = deps, rd_tags = [], rd_integrity = None,
       rd_meta = None \<rparr>"

theorem execution_order_correct_witness:
  "(let rs = [sample_resource ''a'' 1 [''b''], sample_resource ''b'' 9 [], sample_resource ''c'' 5 []] in
     execution_order rs = Inr [2, 1, 0] \<and> distinct [2, 1, 0::nat] \<and> set [2, 1, 0] = {..<length rs})"
proof -
  let ?rs = "[sample_resource ''a'' 1 [''b''], sample_resource ''b'' 9 [], sample_resource ''c'' 5 []]"
  have "execution_order ?rs = Inr [2, 1, 0]" by code_simp
  with execution_order_correct [OF this] show ?thesis by (simp only: Let_def simp_thms)
qed

text \<open>
  C10: \<open>execution_order\<close> fails exactly when the \<open>dependsOn\<close> edges between resources of
  the manifest contain a cycle.
\<close>

theorem execution_order_ok_iff:
  "is_ok (execution_order rs) \<longleftrightarrow> acyclic (dep_edges rs)"
  using execution_order_acyclic acyclic_execution_order by (auto simp: is_ok_iff)

end
