(* ===== verification/Kind.thy ===== *)
theory Kind
  imports Grammar
begin

text \<open>
  The resource kind registry of \<open>murl-core/src/kind.rs\<close>: the kinds, their parser
  and \<open>Display\<close>, and the executable-extension check that escalates a file to
  DANGEROUS.
\<close>

datatype kind = Https | File | Dir | Murl | Terminal | Ssh | RemoteDesktop | Geo | Mailto | Custom string

definition MAX_CUSTOM_NAME :: nat where "MAX_CUSTOM_NAME = 32"

definition custom_name_ok :: "string \<Rightarrow> bool" where
  "custom_name_ok name \<longleftrightarrow>
     list_all (\<lambda>(i, b). if i = (0::nat) then lower_or_digit b
                        else lower_or_digit b \<or> b = CHR ''-'' \<or> b = CHR ''_'')
       (enumerate 0 name)"

definition kind_parse :: "string \<Rightarrow> string + kind" where
  "kind_parse s =
     (if s = ''https'' then Inr Https
      else if s = ''file'' then Inr File
      else if s = ''dir'' then Inr Dir
      else if s = ''murl'' then Inr Murl
      else if s = ''terminal'' then Inr Terminal
      else if s = ''ssh'' then Inr Ssh
      else if s = ''remote-desktop'' then Inr RemoteDesktop
      else if s = ''geo'' then Inr Geo
      else if s = ''mailto'' then Inr Mailto
      else case strip_prefix ''custom:'' s of
        Some name \<Rightarrow>
          if name = [] \<or> MAX_CUSTOM_NAME < length name
          then Inl (''custom kind name `'' @ name @ ''` has invalid length'')
          else if \<not> custom_name_ok name
          then Inl (''custom kind name `'' @ name @ ''` must match [a-z0-9][a-z0-9_-]*'')
          else Inr (Custom name)
      | None \<Rightarrow>
          Inl (''unknown kind `'' @ s @ ''` (known: https, file, dir, murl, terminal, ssh, remote-desktop, geo, mailto, custom:<name>)''))"

fun is_filesystem :: "kind \<Rightarrow> bool" where
  "is_filesystem File = True"
| "is_filesystem Dir = True"
| "is_filesystem Terminal = True"
| "is_filesystem _ = False"

fun kind_display :: "kind \<Rightarrow> string" where
  "kind_display Https = ''https''"
| "kind_display File = ''file''"
| "kind_display Dir = ''dir''"
| "kind_display Murl = ''murl''"
| "kind_display Terminal = ''terminal''"
| "kind_display Ssh = ''ssh''"
| "kind_display RemoteDesktop = ''remote-desktop''"
| "kind_display Geo = ''geo''"
| "kind_display Mailto = ''mailto''"
| "kind_display (Custom name) = ''custom:'' @ name"

definition EXECUTABLE_EXTENSIONS :: "string list" where
  "EXECUTABLE_EXTENSIONS =
     [''desktop'', ''exe'', ''bat'', ''cmd'', ''com'', ''scr'', ''msi'', ''ps1'', ''vbs'', ''vbe'', ''js'', ''jse'', ''wsf'',
      ''wsh'', ''hta'', ''sh'', ''run'', ''appimage'', ''jar'', ''lnk'', ''url'', ''reg'', ''app'']"

text \<open>\<open>rsplit(['/', '\\']).next()\<close> and \<open>trim_end_matches\<close>.\<close>

definition is_separator :: "char \<Rightarrow> bool" where
  "is_separator c \<longleftrightarrow> c = CHR ''/'' \<or> c = CHR 0x5C"

definition last_component :: "string \<Rightarrow> string" where
  "last_component s = rev (takeWhile (\<lambda>c. \<not> is_separator c) (rev s))"

definition trim_end_matches :: "(char \<Rightarrow> bool) \<Rightarrow> string \<Rightarrow> string" where
  "trim_end_matches P s = rev (dropWhile P (rev s))"

definition dot_or_space :: "char \<Rightarrow> bool" where
  "dot_or_space c \<longleftrightarrow> c = CHR ''.'' \<or> c = CHR '' ''"

definition has_executable_extension :: "string \<Rightarrow> bool" where
  "has_executable_extension target =
     (let name = trim_end_matches dot_or_space (last_component (to_ascii_lowercase target)) in
      case rsplit_once CHR ''.'' name of
        Some (_, ext) \<Rightarrow> ext \<in> set EXECUTABLE_EXTENSIONS
      | None \<Rightarrow> False)"

section \<open>Lemmas\<close>

definition wf_kind :: "kind \<Rightarrow> bool" where
  "wf_kind k = (case k of Custom name \<Rightarrow> name \<noteq> [] \<and> length name \<le> MAX_CUSTOM_NAME \<and> custom_name_ok name
                | _ \<Rightarrow> True)"

lemma custom_not_builtin [simp]:
  "''custom:'' @ name \<notin> {''https'', ''file'', ''dir'', ''murl'', ''terminal'', ''ssh'', ''remote-desktop'', ''geo'', ''mailto''}"
  by simp

lemma kind_parse_display: "wf_kind k \<Longrightarrow> kind_parse (kind_display k) = Inr k"
  by (cases k) (simp_all add: kind_parse_def wf_kind_def)

lemma kind_parse_sound: "kind_parse s = Inr k \<Longrightarrow> s = kind_display k \<and> wf_kind k"
  unfolding kind_parse_def
  by (auto simp: wf_kind_def strip_prefix_iff split: if_splits option.splits)

lemma last_component_dir:
  assumes "dir = [] \<or> is_separator (last dir)" "list_all (\<lambda>c. \<not> is_separator c) name"
  shows "last_component (dir @ name) = name"
proof -
  have "takeWhile (\<lambda>c. \<not> is_separator c) (rev name @ rev dir) = rev name @ takeWhile (\<lambda>c. \<not> is_separator c) (rev dir)"
    using assms(2) by (intro takeWhile_append2) (auto simp: list_all_iff)
  moreover have "takeWhile (\<lambda>c. \<not> is_separator c) (rev dir) = []"
    using assms(1) by (cases dir rule: rev_cases) auto
  ultimately show ?thesis by (simp add: last_component_def)
qed

lemma trim_end_junk:
  assumes "list_all P junk" "name = [] \<or> \<not> P (last name)"
  shows "trim_end_matches P (name @ junk) = name"
proof -
  have "dropWhile P (rev junk @ rev name) = dropWhile P (rev name)"
    using assms(1) by (intro dropWhile_append2) (auto simp: list_all_iff)
  moreover have "dropWhile P (rev name) = rev name"
    using assms(2) by (cases name rule: rev_cases) auto
  ultimately show ?thesis by (simp add: trim_end_matches_def)
qed

lemma byte_lower_char_below: "byte c < 65 \<or> 90 < byte c \<Longrightarrow> lower_char c = c"
  by (rule lower_char_id) (auto simp: is_upper_def in_range_def)

lemma lower_char_eq_iff:
  assumes "byte d < 65 \<or> 122 < byte d \<or> (90 < byte d \<and> byte d < 97)"
  shows "lower_char c = d \<longleftrightarrow> c = d"
proof (cases "is_upper c")
  case True
  then have "65 \<le> byte c" "byte c \<le> 90" "byte (lower_char c) = byte c + 32"
    by (auto simp: byte_lower_char is_upper_def in_range_def)
  then show ?thesis using assms by auto
next
  case False
  then show ?thesis by (simp add: lower_char_id)
qed

lemma lowercase_keeps_punctuation:
  "is_separator (lower_char c) = is_separator c" "dot_or_space (lower_char c) = dot_or_space c"
  "lower_char c = CHR ''.'' \<longleftrightarrow> c = CHR ''.''"
  by (simp_all add: is_separator_def dot_or_space_def lower_char_eq_iff)

lemma list_all_lowercase:
  "list_all (\<lambda>c. \<not> is_separator c) (to_ascii_lowercase s) = list_all (\<lambda>c. \<not> is_separator c) s"
  by (induction s) (simp_all add: to_ascii_lowercase_def lowercase_keeps_punctuation)

lemma junk_no_separator: "dot_or_space c \<Longrightarrow> \<not> is_separator c"
  by (auto simp: dot_or_space_def is_separator_def)

section \<open>Properties\<close>

text \<open>
  \<open>Kind::parse\<close> accepts exactly the \<open>Display\<close> forms of the kinds: the ten
  built-in spellings and \<open>custom:\<close> with a name of 1 to 32 characters of its grammar.
  So parsing and printing are inverse to each other on accepted input.
\<close>

lemma kind_parse_iff:
  "kind_parse s = Inr k \<longleftrightarrow> s = kind_display k \<and> wf_kind k"
  using kind_parse_sound kind_parse_display by blast

text \<open>
  The executable check reads the extension Windows would use: the directory,
  the case of the letters and trailing dots and spaces do not change the verdict,
  which is membership of the lower-cased extension in the list.
\<close>

lemma executable_extension_iff:
  assumes "dir = [] \<or> is_separator (last dir)"
    and "list_all (\<lambda>c. \<not> is_separator c) (stem @ ext)"
    and "ext \<noteq> []" "CHR ''.'' \<notin> set ext" "last ext \<noteq> CHR '' ''"
    and "list_all dot_or_space junk"
  shows "has_executable_extension (dir @ stem @ ''.'' @ ext @ junk)
    \<longleftrightarrow> to_ascii_lowercase ext \<in> set EXECUTABLE_EXTENSIONS"
proof -
  let ?l = to_ascii_lowercase
  have app: "?l (a @ b) = ?l a @ ?l b" for a b by (simp add: to_ascii_lowercase_def)
  have "last_component (?l dir @ ?l (stem @ ''.'' @ ext @ junk)) = ?l (stem @ ''.'' @ ext @ junk)"
  proof (rule last_component_dir)
    show "?l dir = [] \<or> is_separator (last (?l dir))"
      using assms(1)
      by (cases dir rule: rev_cases) (auto simp: to_ascii_lowercase_def lowercase_keeps_punctuation)
    show "list_all (\<lambda>c. \<not> is_separator c) (?l (stem @ ''.'' @ ext @ junk))"
      using assms(2,6) junk_no_separator by (simp add: list_all_lowercase) (simp add: list_all_iff is_separator_def)
  qed
  then have lc: "last_component (?l (dir @ stem @ ''.'' @ ext @ junk)) = (?l stem @ CHR ''.'' # ?l ext) @ ?l junk"
    by (simp add: app) (simp add: to_ascii_lowercase_def lower_char_eq_iff)
  have "trim_end_matches dot_or_space ((?l stem @ CHR ''.'' # ?l ext) @ ?l junk) = ?l stem @ CHR ''.'' # ?l ext"
  proof (rule trim_end_junk)
    show "list_all dot_or_space (?l junk)"
      using assms(6) by (simp add: to_ascii_lowercase_def list_all_iff lowercase_keeps_punctuation)
    have "last ext \<noteq> CHR ''.''" using assms(3,4) last_in_set by metis
    then show "?l stem @ CHR ''.'' # ?l ext = [] \<or> \<not> dot_or_space (last (?l stem @ CHR ''.'' # ?l ext))"
      using assms(3,5) by (simp add: to_ascii_lowercase_def last_map lowercase_keeps_punctuation)
        (simp add: dot_or_space_def)
  qed
  moreover have "CHR ''.'' \<notin> set (?l ext)"
    using assms(4) by (auto simp: to_ascii_lowercase_def lowercase_keeps_punctuation dest: sym)
  ultimately show ?thesis
    unfolding has_executable_extension_def lc by simp
qed

lemma executable_extension_iff_witness:
  "has_executable_extension (''/home/me.d/'' @ ''setup'' @ ''.'' @ ''eXe'' @ ''. .'')
     \<and> \<not> has_executable_extension ([] @ ''notes.exe'' @ ''.'' @ ''txt'' @ [])"
proof -
  have "has_executable_extension (''/home/me.d/'' @ ''setup'' @ ''.'' @ ''eXe'' @ ''. .'')
     \<longleftrightarrow> to_ascii_lowercase ''eXe'' \<in> set EXECUTABLE_EXTENSIONS"
    by (rule executable_extension_iff) code_simp+
  moreover have "has_executable_extension ([] @ ''notes.exe'' @ ''.'' @ ''txt'' @ [])
     \<longleftrightarrow> to_ascii_lowercase ''txt'' \<in> set EXECUTABLE_EXTENSIONS"
    by (rule executable_extension_iff) code_simp+
  moreover have "to_ascii_lowercase ''eXe'' \<in> set EXECUTABLE_EXTENSIONS"
    "to_ascii_lowercase ''txt'' \<notin> set EXECUTABLE_EXTENSIONS" by code_simp+
  ultimately show ?thesis by simp
qed

end
