(* ===== verification/Target.thy ===== *)
theory Target
  imports Murl Kind
begin

text \<open>
  Per-kind target validation, \<open>validate_target\<close> and its helpers in
  \<open>murl-core/src/manifest.rs\<close>. A target is what a resource asks the machine to
  open, so each lemma says what an accepted target can no longer contain.
\<close>

section \<open>Helpers\<close>

text \<open>\<open>rest.split(['/', '?', '#']).next()\<close>\<close>

definition authority_part :: "string \<Rightarrow> string" where
  "authority_part rest = takeWhile (\<lambda>c. c \<noteq> CHR ''/'' \<and> c \<noteq> CHR ''?'' \<and> c \<noteq> CHR ''#'') rest"

text \<open>\<open>str::split\<close> with a predicate.\<close>

fun split_by :: "(char \<Rightarrow> bool) \<Rightarrow> string \<Rightarrow> string list" where
  "split_by P [] = [[]]"
| "split_by P (c # cs) =
     (if P c then [] # split_by P cs
      else case split_by P cs of [] \<Rightarrow> [[c]] | w # ws \<Rightarrow> (c # w) # ws)"

definition host_byte :: "char \<Rightarrow> bool" where
  "host_byte b \<longleftrightarrow> is_alnum b \<or> b = CHR ''.'' \<or> b = CHR ''-''"

definition is_network_path :: "string \<Rightarrow> bool" where
  "is_network_path target =
     (case target of a # b # _ \<Rightarrow> is_separator a \<and> is_separator b | _ \<Rightarrow> False)"

definition starts_with_drive :: "string \<Rightarrow> bool" where
  "starts_with_drive segment = (case segment of a # b # _ \<Rightarrow> is_alpha a \<and> b = CHR '':'' | _ \<Rightarrow> False)"

section \<open>Remote targets\<close>

definition validate_hostport :: "string \<Rightarrow> string + unit" where
  "validate_hostport hostport =
     (if hostport = [] then Inl ''empty host''
      else
        let (h, p) = (case rsplit_once CHR '':'' hostport of
                        Some (h, p) \<Rightarrow> (h, Some p) | None \<Rightarrow> (hostport, None)) in
        and_then
          (case p of
             Some prt \<Rightarrow>
               reject_if (\<not> (prt \<noteq> [] \<and> length prt \<le> 5 \<and> all_digits prt
                             \<and> 1 \<le> nat_of_dec prt \<and> nat_of_dec prt \<le> 65535))
                 (''invalid port '' @ quoted prt)
           | None \<Rightarrow> Inr ())
          (\<lambda>_.
            if h = [] \<or> 253 < length h then Inl ''host must be 1..=253 characters''
            else if starts_with ''-'' h
            then Inl ''host must not start with `-` (it would look like an option)''
            else if \<not> list_all host_byte h
            then Inl ''host must match [A-Za-z0-9.-]+ (IDN hosts must be punycoded)''
            else Inr ()))"

definition validate_user :: "string \<Rightarrow> string + unit" where
  "validate_user user =
     (if user = [] \<or> 64 < length user then Inl ''username must be 1..=64 characters''
      else if \<not> list_all (\<lambda>b. is_alnum b \<or> b = CHR ''.'' \<or> b = CHR ''_'' \<or> b = CHR ''-'') user
      then Inl ''username must match [A-Za-z0-9._-]+''
      else if starts_with ''-'' user
      then Inl ''username must not start with `-` (it would look like an option)''
      else Inr ())"

definition validate_ssh_target :: "string \<Rightarrow> string + unit" where
  "validate_ssh_target target =
     and_then (ok_or ''must start with ssh://'' (strip_prefix ''ssh://'' target)) (\<lambda>rest.
       let auth = authority_part rest in
       if auth = [] then Inl ''empty host''
       else case split_once CHR ''@'' auth of
         Some (u, h) \<Rightarrow>
           if CHR ''@'' \<in> set h then Inl ''at most one `@` is allowed''
           else and_then (validate_user u) (\<lambda>_. validate_hostport h)
       | None \<Rightarrow> validate_hostport auth)"

definition validate_remote_desktop_target :: "string \<Rightarrow> string + unit" where
  "validate_remote_desktop_target target =
     and_then (ok_or ''must start with rdp:// or vnc://''
        (case strip_prefix ''rdp://'' target of Some r \<Rightarrow> Some r | None \<Rightarrow> strip_prefix ''vnc://'' target)) (\<lambda>rest.
       let auth = authority_part rest in
       if CHR ''@'' \<in> set auth then Inl ''userinfo is not allowed in remote-desktop targets''
       else validate_hostport auth)"

section \<open>Geographic targets\<close>

text \<open>
  \<open>str::parse::<f64>\<close>: the grammar of the standard library, and the value as an
  exact decimal \<open>digits * 10 ^ exp\<close>. The comparisons below are the comparisons of
  the nearest double: the bound plus half a unit in the last place, where a tie
  rounds to the (even) bound, and overflow to infinity from \<open>2^1024 - 2^970\<close> on.
\<close>

datatype f64_literal = LitNan | LitInf | LitDec nat int

definition strip_sign :: "string \<Rightarrow> string" where
  "strip_sign s = (case s of c # r \<Rightarrow> if c = CHR ''+'' \<or> c = CHR ''-'' then r else s | [] \<Rightarrow> s)"

definition parse_exponent :: "string \<Rightarrow> int option" where
  "parse_exponent s =
     (let d = strip_sign s in
      if d = [] \<or> \<not> all_digits d then None
      else Some (if starts_with ''-'' s then - int (nat_of_dec d) else int (nat_of_dec d)))"

definition is_exp_marker :: "char \<Rightarrow> bool" where
  "is_exp_marker c \<longleftrightarrow> c = CHR ''e'' \<or> c = CHR ''E''"

definition parse_f64 :: "string \<Rightarrow> f64_literal option" where
  "parse_f64 s =
     (let t = strip_sign s; l = to_ascii_lowercase t in
      if l = ''inf'' \<or> l = ''infinity'' then Some LitInf
      else if l = ''nan'' then Some LitNan
      else
        let mant = takeWhile (\<lambda>c. \<not> is_exp_marker c) t;
            after = dropWhile (\<lambda>c. \<not> is_exp_marker c) t;
            (a, b) = (case split_once CHR ''.'' mant of Some ab \<Rightarrow> ab | None \<Rightarrow> (mant, [])) in
        if a @ b = [] \<or> \<not> all_digits (a @ b) then None
        else case (if after = [] then Some 0 else parse_exponent (tl after)) of
          None \<Rightarrow> None
        | Some e \<Rightarrow> Some (LitDec (nat_of_dec (a @ b)) (e - int (length b))))"

text \<open>\<open>m * 10 ^ e * q \<le> p\<close>, with the exponents that decide at once cut off so that
  \<open>1e999999999\<close> is compared without being expanded.\<close>

definition dec_le :: "nat \<Rightarrow> int \<Rightarrow> nat \<Rightarrow> nat \<Rightarrow> bool" where
  "dec_le m e p q =
     (if m = 0 then True
      else if e > 400 then False
      else if e \<ge> 0 then m * 10 ^ nat e * q \<le> p
      else if - e > int (length (dec_of_nat m)) + 400 then True
      else m * q \<le> p * 10 ^ nat (- e))"

definition f64_is_finite :: "f64_literal \<Rightarrow> bool" where
  "f64_is_finite v = (case v of LitDec m e \<Rightarrow> dec_le m e (2 ^ 1024 - 2 ^ 970 - 1) 1
     \<or> (e < 0 \<and> dec_le (m + 1) e (2 ^ 1024 - 2 ^ 970) 1) | _ \<Rightarrow> False)"

definition f64_within_90 :: "f64_literal \<Rightarrow> bool" where
  "f64_within_90 v = (case v of LitDec m e \<Rightarrow> dec_le m e (90 * 2 ^ 47 + 1) (2 ^ 47) | _ \<Rightarrow> False)"

definition f64_within_180 :: "f64_literal \<Rightarrow> bool" where
  "f64_within_180 v = (case v of LitDec m e \<Rightarrow> dec_le m e (180 * 2 ^ 46 + 1) (2 ^ 46) | _ \<Rightarrow> False)"

text \<open>The coordinate loop with its index. The two range messages of the source print
  the double; the model quotes the literal.\<close>

fun check_coordinates :: "nat \<Rightarrow> string list \<Rightarrow> string + unit" where
  "check_coordinates i [] = Inr ()"
| "check_coordinates i (n # ns) =
     (case parse_f64 n of
        None \<Rightarrow> Inl (''coordinate '' @ quoted n @ '' is not a number'')
      | Some v \<Rightarrow>
          if \<not> f64_is_finite v then Inl (''coordinate '' @ quoted n @ '' is not finite'')
          else if i = 0 \<and> \<not> f64_within_90 v then Inl (''latitude '' @ n @ '' is outside -90..=90'')
          else if i = 1 \<and> \<not> f64_within_180 v then Inl (''longitude '' @ n @ '' is outside -180..=180'')
          else check_coordinates (Suc i) ns)"

fun check_geo_params :: "string list \<Rightarrow> string + unit" where
  "check_geo_params [] = Inr ()"
| "check_geo_params (p # ps) =
     (if p = [] then Inl ''empty `;` parameter''
      else if \<not> list_all (\<lambda>b. is_alnum b \<or> b \<in> {CHR ''='', CHR ''.'', CHR ''-'', CHR ''_'', CHR ''%''}) p
      then Inl (''parameter '' @ quoted p @ '' has invalid characters'')
      else check_geo_params ps)"

definition validate_geo_target :: "string \<Rightarrow> string + unit" where
  "validate_geo_target target =
     and_then (ok_or ''must start with geo:'' (strip_prefix ''geo:'' target)) (\<lambda>rest.
       let parts = split_on CHR '';'' rest;
           numbers = split_on CHR '','' (hd parts) in
       if \<not> (2 \<le> length numbers \<and> length numbers \<le> 3)
       then Inl ''expected `lat,lon` or `lat,lon,alt`''
       else and_then (check_coordinates 0 numbers) (\<lambda>_. check_geo_params (tl parts)))"

section \<open>Mail targets\<close>

definition ALLOWED_HEADERS :: "string list" where
  "ALLOWED_HEADERS = [''subject'', ''body'', ''cc'', ''to'']"

fun check_addresses :: "string list \<Rightarrow> string + unit" where
  "check_addresses [] = Inr ()"
| "check_addresses (address # rest) =
     (case split_once CHR ''@'' address of
        None \<Rightarrow> Inl (quoted address @ '' is not an addr-spec'')
      | Some (lcl, domain) \<Rightarrow>
          if lcl = [] \<or> domain = [] \<or> CHR ''@'' \<in> set domain
          then Inl (quoted address @ '' is not an addr-spec'')
          else if \<not> list_all host_byte domain
          then Inl (''domain in '' @ quoted address @ '' has invalid characters'')
          else check_addresses rest)"

fun check_headers :: "string list \<Rightarrow> string + unit" where
  "check_headers [] = Inr ()"
| "check_headers (pair # rest) =
     (case split_once CHR ''='' pair of
        None \<Rightarrow> Inl (''header '' @ quoted pair @ '' must be name=value'')
      | Some (name, _) \<Rightarrow>
          if to_ascii_lowercase name \<notin> set ALLOWED_HEADERS
          then Inl (''header '' @ quoted name @ '' is not allowed (permitted: ''
                 @ join '', '' ALLOWED_HEADERS @ '')'')
          else check_headers rest)"

definition validate_mailto_target :: "string \<Rightarrow> string + unit" where
  "validate_mailto_target target =
     and_then (ok_or ''must start with mailto:'' (strip_prefix ''mailto:'' target)) (\<lambda>rest.
       let (addresses, query) = cut_at CHR ''?'' rest in
       if addresses = [] then Inl ''at least one address is required''
       else and_then (check_addresses (split_on CHR '','' addresses)) (\<lambda>_.
         case query of
           None \<Rightarrow> Inr ()
         | Some q \<Rightarrow> check_headers (split_on CHR ''&'' q)))"

section \<open>Web targets\<close>

definition loopback_host :: "string \<Rightarrow> bool" where
  "loopback_host h \<longleftrightarrow> h = ''localhost'' \<or> h = ''127.0.0.1'' \<or> ends_with ''.localhost'' h"

definition web_host :: "string \<Rightarrow> string" where
  "web_host auth = to_ascii_lowercase (takeWhile (\<lambda>c. c \<noteq> CHR '':'') auth)"

definition check_web :: "string \<Rightarrow> string \<Rightarrow> bool \<Rightarrow> string + unit" where
  "check_web target rest plain_http =
     (let auth = authority_part rest in
      if auth = [] then Inl ''empty h''
      else if CHR ''@'' \<in> set auth then Inl ''userinfo in web targets is forbidden (phishing vector)''
      else let h = web_host auth in
        if h = [] then Inl ''empty h''
        else if CHR '' '' \<in> set target then Inl ''must not contain spaces (percent-encode them)''
        else if plain_http \<and> \<not> loopback_host h
        then Inl (''plain http:// is only allowed for loopback hosts, not '' @ quoted h)
        else Inr ())"

definition validate_web_target :: "string \<Rightarrow> string + unit" where
  "validate_web_target target =
     (case strip_prefix ''https://'' target of
        Some r \<Rightarrow> check_web target r False
      | None \<Rightarrow>
          (case strip_prefix ''http://'' target of
             Some r \<Rightarrow> check_web target r True
           | None \<Rightarrow> Inl ''must start with https:// (http:// is allowed for loopback hosts only)''))"

section \<open>Path targets\<close>

definition strip_last_separator :: "string \<Rightarrow> string" where
  "strip_last_separator s = (if s \<noteq> [] \<and> is_separator (last s) then butlast s else s)"

definition check_home_segments :: "string \<Rightarrow> string + unit" where
  "check_home_segments target =
     (case strip_prefix ''~/'' target of
        Some rest0 \<Rightarrow>
          if rest0 = [] then Inr ()
          else let segs = split_by is_separator (strip_last_separator rest0) in
            if [] \<in> set segs
            then Inl ''empty segments are forbidden in `~/` path targets''
            else if list_ex starts_with_drive segs
            then Inl ''drive letters (`Z:`) are forbidden inside `~/` path targets''
            else Inr ()
      | None \<Rightarrow> Inr ())"

definition path_body :: "string \<Rightarrow> string + string" where
  "path_body target =
     (case strip_prefix ''~/'' target of
        Some rest \<Rightarrow> Inr rest
      | None \<Rightarrow>
          (case strip_prefix ''/'' target of
             Some rest \<Rightarrow> Inr rest
           | None \<Rightarrow>
               (case target of
                  a # b # c # rest \<Rightarrow>
                    if is_alpha a \<and> b = CHR '':'' \<and> is_separator c then Inr rest
                    else Inl ''must be an absolute path (or start with ~/)''
                | _ \<Rightarrow> Inl ''must be an absolute path (or start with ~/)'')))"

definition validate_path_target :: "string \<Rightarrow> string + unit" where
  "validate_path_target target =
     (if is_network_path target
      then Inl ''network (UNC) paths are forbidden in path targets''
      else and_then (check_home_segments target) (\<lambda>_.
        if target = ''~'' then Inr ()
        else and_then (path_body target) (\<lambda>body.
          reject_if (list_ex (\<lambda>seg. seg = ''..'' \<or> seg = ''.'') (split_by is_separator body))
            ''dot segments are forbidden in path targets'')))"

definition validate_custom_target :: "string \<Rightarrow> string + unit" where
  "validate_custom_target target =
     (if starts_with ''-'' target
      then Inl ''must not start with `-` (it would read as an option to the handler)''
      else if is_network_path target
      then Inl ''network (UNC) paths are forbidden in custom targets''
      else Inr ())"

fun validate_target :: "kind \<Rightarrow> string \<Rightarrow> string + unit" where
  "validate_target Https target = validate_web_target target"
| "validate_target File target = validate_path_target target"
| "validate_target Dir target = validate_path_target target"
| "validate_target Terminal target = validate_path_target target"
| "validate_target kind.Murl target =
     (case murl_parse target of
        Inr _ \<Rightarrow> Inr ()
      | Inl e \<Rightarrow> Inl (''not a valid mURL: '' @ murl_error_display e))"
| "validate_target Ssh target = validate_ssh_target target"
| "validate_target RemoteDesktop target = validate_remote_desktop_target target"
| "validate_target Geo target = validate_geo_target target"
| "validate_target Mailto target = validate_mailto_target target"
| "validate_target (Custom _) target = validate_custom_target target"

section \<open>What an accepted target looks like\<close>

lemma split_by_not_Nil [simp]: "split_by P s \<noteq> []"
  by (induction s) (auto split: list.splits)

lemma split_by_parts: "\<forall>w\<in>set (split_by P s). \<forall>c\<in>set w. \<not> P c"
  by (induction s) (auto split: list.splits if_splits)

lemma check_web_iff:
  "check_web target rest plain = Inr () \<longleftrightarrow>
     authority_part rest \<noteq> [] \<and> CHR ''@'' \<notin> set (authority_part rest) \<and> web_host (authority_part rest) \<noteq> []
     \<and> CHR '' '' \<notin> set target \<and> (plain \<longrightarrow> loopback_host (web_host (authority_part rest)))"
  by (auto simp: check_web_def Let_def)

lemma validate_hostport_ok:
  assumes "validate_hostport hp = Inr ()"
  obtains h p where "hp = h @ p" "h \<noteq> []" "length h \<le> 253" "list_all host_byte h" "hd h \<noteq> CHR ''-''"
    "p = [] \<or> (\<exists>ds. p = CHR '':'' # ds \<and> all_digits ds \<and> 1 \<le> nat_of_dec ds \<and> nat_of_dec ds \<le> 65535)"
proof (cases "rsplit_once CHR '':'' hp")
  case None
  then show ?thesis using assms that [of hp "[]"]
    by (auto simp: validate_hostport_def starts_with_iff Let_def neq_Nil_conv split: if_splits)
next
  case (Some x)
  then obtain h ds where x: "x = (h, ds)" "hp = h @ CHR '':'' # ds" by (cases x) (auto dest: rsplit_once_SomeD)
  then show ?thesis using assms Some that [of h "CHR '':'' # ds"]
    by (auto simp: validate_hostport_def starts_with_iff Let_def neq_Nil_conv split: if_splits)
qed

lemma check_headers_ok:
  "check_headers ps = Inr () \<longleftrightarrow>
     (\<forall>p\<in>set ps. \<exists>n v. p = n @ CHR ''='' # v \<and> CHR ''='' \<notin> set n \<and> to_ascii_lowercase n \<in> set ALLOWED_HEADERS)"
proof (induction ps)
  case (Cons p ps)
  show ?case
  proof (cases "split_once CHR ''='' p")
    case None
    then have "CHR ''='' \<notin> set p" by simp
    then show ?thesis using None by auto
  next
    case (Some nv)
    then obtain n v where nv: "nv = (n, v)" "p = n @ CHR ''='' # v" "CHR ''='' \<notin> set n"
      by (cases nv) (auto dest: split_once_SomeD)
    have "n' = n" if "p = n' @ CHR ''='' # v'" "CHR ''='' \<notin> set n'" for n' v'
      using that nv split_once_append [of "CHR ''=''" n' v'] split_once_append [of "CHR ''=''" n v] by simp
    then show ?thesis using Some nv Cons.IH by auto
  qed
qed simp

lemma validate_path_ok:
  assumes "validate_path_target t = Inr ()"
  shows "\<not> is_network_path t \<and> check_home_segments t = Inr ()
    \<and> (t = ''~'' \<or> (\<exists>body. path_body t = Inr body \<and> ''..'' \<notin> set (split_by is_separator body)
        \<and> ''.'' \<notin> set (split_by is_separator body)))"
  using assms by (auto simp: validate_path_target_def list_ex_iff split: if_splits)

section \<open>Web targets\<close>

text \<open>
  Cutting a text at the first character of a class: what \<open>str::split(..).next()\<close>
  returns, read as a decomposition of the text.
\<close>

lemma first_cut_append:
  assumes "set xs \<subseteq> Collect P" "ys = [] \<or> \<not> P (hd ys)"
  shows "takeWhile P (xs @ ys) = xs"
  using assms by (induction xs) (cases ys; simp)+

lemma first_cut_parts:
  obtains ys where "xs = takeWhile P xs @ ys" "set (takeWhile P xs) \<subseteq> Collect P" "ys = [] \<or> \<not> P (hd ys)"
proof -
  have "dropWhile P xs = [] \<or> \<not> P (hd (dropWhile P xs))" using hd_dropWhile [of P xs] by blast
  moreover have "set (takeWhile P xs) \<subseteq> Collect P" by (auto dest: set_takeWhileD)
  ultimately show thesis using that [of "dropWhile P xs"] by simp
qed

lemma loopback_host_iff:
  "loopback_host h \<longleftrightarrow> h = ''localhost'' \<or> h = ''127.0.0.1'' \<or> (\<exists>p. h = p @ ''.localhost'')"
  unfolding loopback_host_def ends_with_iff by (rule refl)

text \<open>A web authority is a host and perhaps a port, a web target's rest an authority and a tail.\<close>

definition web_rest :: "string \<Rightarrow> string \<Rightarrow> string \<Rightarrow> string \<Rightarrow> bool" where
  "web_rest rest h prt tail \<longleftrightarrow> rest = h @ prt @ tail
     \<and> CHR '':'' \<notin> set h \<and> (prt = [] \<or> hd prt = CHR '':'')
     \<and> set (h @ prt) \<inter> {CHR ''/'', CHR ''?'', CHR ''#''} = {}
     \<and> (tail = [] \<or> hd tail \<in> {CHR ''/'', CHR ''?'', CHR ''#''})"

lemma web_rest_sets:
  "CHR '':'' \<notin> set h \<and> set (h @ prt) \<inter> {a, b, c} = {} \<and> d \<notin> set (h @ prt)
     \<longleftrightarrow> set h \<inter> {CHR '':'', a, b, c, d} = {} \<and> set prt \<inter> {a, b, c, d} = {}"
  unfolding set_append by blast

lemma web_rest_target:
  "(\<exists>rest. t = scheme @ rest \<and> web_rest rest h prt tail \<and> h \<noteq> [] \<and> CHR ''@'' \<notin> set (h @ prt) \<and> S)
     \<longleftrightarrow> t = scheme @ h @ prt @ tail
       \<and> h \<noteq> [] \<and> set h \<inter> {CHR '':'', CHR ''/'', CHR ''?'', CHR ''#'', CHR ''@''} = {}
       \<and> (prt = [] \<or> hd prt = CHR '':'') \<and> set prt \<inter> {CHR ''/'', CHR ''?'', CHR ''#'', CHR ''@''} = {}
       \<and> (tail = [] \<or> hd tail \<in> {CHR ''/'', CHR ''?'', CHR ''#''}) \<and> S"
proof -
  have gen: "(\<exists>rest. t = scheme @ rest \<and> (rest = x \<and> A \<and> B \<and> C \<and> D) \<and> N \<and> E \<and> S)
      \<longleftrightarrow> (A \<and> C \<and> E) \<and> t = scheme @ x \<and> N \<and> B \<and> D \<and> S" for x A B C D N E
    by blast
  show ?thesis unfolding web_rest_def gen web_rest_sets by (rule iffI; elim conjE; intro conjI; assumption)
qed

lemma web_rest_code:
  assumes "web_rest rest h prt tail"
  shows "authority_part rest = h @ prt" "web_host (h @ prt) = to_ascii_lowercase h"
proof -
  note w = assms [unfolded web_rest_def]
  have "set (h @ prt) \<subseteq> Collect (\<lambda>c. c \<noteq> CHR ''/'' \<and> c \<noteq> CHR ''?'' \<and> c \<noteq> CHR ''#'')"
    "tail = [] \<or> \<not> (hd tail \<noteq> CHR ''/'' \<and> hd tail \<noteq> CHR ''?'' \<and> hd tail \<noteq> CHR ''#'')"
    using w by blast+
  then have "authority_part ((h @ prt) @ tail) = h @ prt"
    unfolding authority_part_def by (rule first_cut_append)
  then show "authority_part rest = h @ prt" using w by simp
  have "set h \<subseteq> Collect (\<lambda>c. c \<noteq> CHR '':'')" "prt = [] \<or> \<not> (hd prt \<noteq> CHR '':'')" using w by blast+
  then show "web_host (h @ prt) = to_ascii_lowercase h"
    using first_cut_append [of h _ prt] by (simp only: web_host_def)
qed

lemma web_rest_ex: "\<exists>h prt tail. web_rest rest h prt tail"
proof -
  let ?P = "\<lambda>c. c \<noteq> CHR ''/'' \<and> c \<noteq> CHR ''?'' \<and> c \<noteq> CHR ''#''" and ?Q = "\<lambda>c. c \<noteq> CHR '':''"
  obtain tail where t: "rest = takeWhile ?P rest @ tail" "set (takeWhile ?P rest) \<subseteq> Collect ?P"
    "tail = [] \<or> \<not> ?P (hd tail)" by (rule first_cut_parts)
  obtain prt where p: "takeWhile ?P rest = takeWhile ?Q (takeWhile ?P rest) @ prt"
    "set (takeWhile ?Q (takeWhile ?P rest)) \<subseteq> Collect ?Q" "prt = [] \<or> \<not> ?Q (hd prt)"
    by (rule first_cut_parts)
  define h where "h = takeWhile ?Q (takeWhile ?P rest)"
  define auth where "auth = takeWhile ?P rest"
  have "rest = auth @ tail" "auth = h @ prt" using t(1) p(1) unfolding auth_def h_def by blast+
  moreover have "set auth \<subseteq> Collect ?P" "set h \<subseteq> Collect ?Q" "tail = [] \<or> \<not> ?P (hd tail)" "prt = [] \<or> \<not> ?Q (hd prt)"
    using t(2,3) p(2,3) unfolding auth_def h_def by blast+
  ultimately have "web_rest rest h prt tail" unfolding web_rest_def by auto
  then show ?thesis by blast
qed

lemma check_web_parts:
  "check_web target rest plain = Inr () \<longleftrightarrow>
     (\<exists>h prt tail. web_rest rest h prt tail \<and> h \<noteq> [] \<and> CHR ''@'' \<notin> set (h @ prt)
        \<and> CHR '' '' \<notin> set target \<and> (plain \<longrightarrow> loopback_host (to_ascii_lowercase h)))"
    (is "?L \<longleftrightarrow> (\<exists>h prt tail. ?R h prt tail)")
proof
  assume l: ?L
  obtain h prt tail where w: "web_rest rest h prt tail" using web_rest_ex by blast
  have "?R h prt tail" using l w unfolding check_web_iff web_rest_code(1) [OF w] web_rest_code(2) [OF w]
    by (auto simp: to_ascii_lowercase_def)
  then show "\<exists>h prt tail. ?R h prt tail" by blast
next
  assume "\<exists>h prt tail. ?R h prt tail"
  then obtain h prt tail where w: "?R h prt tail" by blast
  then have r: "web_rest rest h prt tail" by blast
  show ?L using w unfolding check_web_iff web_rest_code(1) [OF r] web_rest_code(2) [OF r]
    by (auto simp: to_ascii_lowercase_def)
qed

lemma validate_web_target_iff:
  "validate_web_target t = Inr () \<longleftrightarrow>
     (\<exists>rest. t = ''https://'' @ rest \<and> check_web t rest False = Inr ())
     \<or> (\<exists>rest. t = ''http://'' @ rest \<and> check_web t rest True = Inr ())"
  by (auto simp: validate_web_target_def strip_prefix_iff split: option.splits)

section \<open>Properties\<close>

text \<open>
  C12: a web target is accepted exactly when it reads \<open>scheme h prt tail\<close> with a
  non-empty host that holds no separator, an optional port behind a \<open>:\<close>, and a tail
  that is empty or starts with \<open>/\<close>, \<open>?\<close> or \<open>#\<close>, where neither host nor port holds an
  \<open>@\<close> (no userinfo) and the target no space; the scheme is \<open>https://\<close>, or \<open>http://\<close>
  with a host that is, up to case, \<open>localhost\<close>, \<open>127.0.0.1\<close> or a name ending in
  \<open>.localhost\<close>. The parts are described by themselves, not by the code's helpers. What
  follows the \<open>:\<close> is not checked to be a number.
\<close>

theorem web_target_iff:
  "validate_target Https t = Inr () \<longleftrightarrow>
     (\<exists>scheme h prt tail. t = scheme @ h @ prt @ tail
        \<and> h \<noteq> [] \<and> set h \<inter> {CHR '':'', CHR ''/'', CHR ''?'', CHR ''#'', CHR ''@''} = {}
        \<and> (prt = [] \<or> hd prt = CHR '':'') \<and> set prt \<inter> {CHR ''/'', CHR ''?'', CHR ''#'', CHR ''@''} = {}
        \<and> (tail = [] \<or> hd tail \<in> {CHR ''/'', CHR ''?'', CHR ''#''}) \<and> CHR '' '' \<notin> set t
        \<and> (scheme = ''https://''
           \<or> scheme = ''http://''
             \<and> (to_ascii_lowercase h = ''localhost'' \<or> to_ascii_lowercase h = ''127.0.0.1''
                \<or> (\<exists>sub. to_ascii_lowercase h = sub @ ''.localhost''))))"
    (is "_ \<longleftrightarrow> (\<exists>scheme h prt tail. ?P scheme h prt tail)")
proof -
  have parts: "?P scheme h prt tail \<longleftrightarrow>
      (\<exists>rest. t = scheme @ rest \<and> web_rest rest h prt tail \<and> h \<noteq> [] \<and> CHR ''@'' \<notin> set (h @ prt)
         \<and> CHR '' '' \<notin> set t
         \<and> (scheme = ''https://'' \<or> scheme = ''http://'' \<and> loopback_host (to_ascii_lowercase h)))"
    for scheme h prt tail
    unfolding loopback_host_iff web_rest_target by (rule refl)
  show ?thesis
    unfolding parts validate_target.simps validate_web_target_iff check_web_parts by blast
qed

text \<open>
  The loopback test reads the host up to the first \<open>/\<close>, \<open>?\<close>, \<open>#\<close> or \<open>:\<close>. A backslash is
  none of these, so a target whose authority a browser ends at the backslash is
  accepted over plain HTTP for any host.
\<close>

lemma web_target_backslash:
  "validate_target Https (''http://evil.example'' @ [CHR 0x5C] @ ''.localhost/'') = Inr ()"
  by code_simp

text \<open>
  An accepted \<open>ssh\<close> target hands its handler a user and a host that cannot be
  read as options and contain no shell metacharacter: the user is a word over
  \<open>[A-Za-z0-9._-]\<close>, the host over \<open>[A-Za-z0-9.-]\<close>, neither starts with \<open>-\<close>, and the port
  is a number between 1 and 65535.
\<close>

lemma ssh_target_shape:
  assumes "validate_target Ssh t = Inr ()"
  shows "\<exists>u h p rest. t = ''ssh://'' @ u @ h @ p @ rest
      \<and> (u = [] \<or> (\<exists>n. u = n @ ''@'' \<and> n \<noteq> [] \<and> hd n \<noteq> CHR ''-''
             \<and> list_all (\<lambda>b. is_alnum b \<or> b = CHR ''.'' \<or> b = CHR ''_'' \<or> b = CHR ''-'') n))
      \<and> h \<noteq> [] \<and> hd h \<noteq> CHR ''-'' \<and> list_all host_byte h
      \<and> (p = [] \<or> (\<exists>ds. p = CHR '':'' # ds \<and> all_digits ds \<and> 1 \<le> nat_of_dec ds \<and> nat_of_dec ds \<le> 65535))
      \<and> (rest = [] \<or> hd rest \<in> {CHR ''/'', CHR ''?'', CHR ''#''})"
proof -
  obtain r where r: "t = ''ssh://'' @ r" and v: "validate_target Ssh (''ssh://'' @ r) = Inr ()"
    using assms by (auto simp: validate_ssh_target_def strip_prefix_iff)
  define auth where "auth = authority_part r"
  define rest where "rest = dropWhile (\<lambda>c. c \<noteq> CHR ''/'' \<and> c \<noteq> CHR ''?'' \<and> c \<noteq> CHR ''#'') r"
  have split: "r = auth @ rest" by (simp add: auth_def rest_def authority_part_def)
  have rest: "rest = [] \<or> hd rest \<in> {CHR ''/'', CHR ''?'', CHR ''#''}"
    unfolding rest_def using hd_dropWhile by blast
  have "\<exists>u hp. auth = u @ hp \<and> validate_hostport hp = Inr ()
      \<and> (u = [] \<or> (\<exists>n. u = n @ ''@'' \<and> validate_user n = Inr ()))"
  proof (cases "split_once CHR ''@'' auth")
    case None
    then have "validate_hostport auth = Inr ()"
      using v by (simp add: validate_ssh_target_def Let_def flip: auth_def split: if_splits)
    then show ?thesis by (intro exI [of _ "[]"] exI [of _ auth]) simp
  next
    case (Some uh)
    then obtain n hp where "auth = n @ CHR ''@'' # hp" "validate_user n = Inr ()" "validate_hostport hp = Inr ()"
      using v by (cases uh) (auto simp: validate_ssh_target_def Let_def simp flip: auth_def
          split: if_splits dest: split_once_SomeD)
    then show ?thesis by (intro exI [of _ "n @ ''@''"] exI [of _ hp]) auto
  qed
  then obtain u hp where u: "auth = u @ hp" "validate_hostport hp = Inr ()"
    "u = [] \<or> (\<exists>n. u = n @ ''@'' \<and> validate_user n = Inr ())" by blast
  obtain h p where hp: "hp = h @ p" "h \<noteq> []" "hd h \<noteq> CHR ''-''" "list_all host_byte h"
    "p = [] \<or> (\<exists>ds. p = CHR '':'' # ds \<and> all_digits ds \<and> 1 \<le> nat_of_dec ds \<and> nat_of_dec ds \<le> 65535)"
    using validate_hostport_ok [OF u(2)] by metis
  have "n \<noteq> [] \<and> hd n \<noteq> CHR ''-'' \<and> list_all (\<lambda>b. is_alnum b \<or> b = CHR ''.'' \<or> b = CHR ''_'' \<or> b = CHR ''-'') n"
    if "validate_user n = Inr ()" for n
    using that by (cases n) (auto simp: validate_user_def starts_with_iff split: if_splits)
  then have "u = [] \<or> (\<exists>n. u = n @ ''@'' \<and> n \<noteq> [] \<and> hd n \<noteq> CHR ''-''
             \<and> list_all (\<lambda>b. is_alnum b \<or> b = CHR ''.'' \<or> b = CHR ''_'' \<or> b = CHR ''-'') n)"
    using u(3) by blast
  moreover have "t = ''ssh://'' @ u @ h @ p @ rest" using r split u(1) hp(1) by simp
  ultimately show ?thesis using hp(2-) rest by blast
qed

lemma ssh_target_shape_witness:
  "\<exists>u h p rest. ''ssh://dev-1@build.acme.io:2222/x'' = ''ssh://'' @ u @ h @ p @ rest \<and> h \<noteq> [] \<and> list_all host_byte h"
proof -
  have "validate_target Ssh ''ssh://dev-1@build.acme.io:2222/x'' = Inr ()" by code_simp
  from ssh_target_shape [OF this] show ?thesis by blast
qed

text \<open>
  A \<open>mailto\<close> target can pre-fill only the subject, the body and visible
  recipients: every header it carries is named \<open>subject\<close>, \<open>body\<close>, \<open>cc\<close> or \<open>to\<close>, so it
  has no \<open>bcc\<close>.
\<close>

lemma mailto_headers:
  assumes "validate_target Mailto t = Inr ()" "t = ''mailto:'' @ addresses @ CHR ''?'' # query"
    "CHR ''?'' \<notin> set addresses"
  shows "\<forall>p\<in>set (split_on CHR ''&'' query). \<exists>n v. p = n @ CHR ''='' # v
      \<and> to_ascii_lowercase n \<in> {''subject'', ''body'', ''cc'', ''to''}"
proof -
  have "check_headers (split_on CHR ''&'' query) = Inr ()"
    using assms by (auto simp: validate_mailto_target_def cut_at_append split: if_splits)
  then show ?thesis by (fastforce simp: check_headers_ok ALLOWED_HEADERS_def)
qed

lemma mailto_headers_witness:
  "\<exists>n v. ''Subject=hi'' = n @ CHR ''='' # v \<and> to_ascii_lowercase n \<in> {''subject'', ''body'', ''cc'', ''to''}"
proof -
  have "validate_target Mailto ''mailto:a@x.y?Subject=hi&cc=b@y.z'' = Inr ()"
    "''mailto:a@x.y?Subject=hi&cc=b@y.z'' = ''mailto:'' @ ''a@x.y'' @ CHR ''?'' # ''Subject=hi&cc=b@y.z''"
    "CHR ''?'' \<notin> set ''a@x.y''" "''Subject=hi'' \<in> set (split_on CHR ''&'' ''Subject=hi&cc=b@y.z'')"
    by code_simp+
  then show ?thesis using mailto_headers by blast
qed

end
