(* ===== verification/Time.thy ===== *)
theory Time
  imports Prelude "HOL-Library.Signed_Division"
begin

text \<open>
  The strict RFC 3339 subset of \<open>murl-core/src/time.rs\<close>. All arithmetic in the
  source is on \<open>i64\<close> and far from its bounds for the accepted range (years 1970 to
  9999), so the model uses \<open>int\<close>; the bound is part of the correctness theorem.
  The reference is a calendar that counts days year by year and month by month.
\<close>

section \<open>The parser\<close>

definition is_leap :: "int \<Rightarrow> bool" where
  "is_leap y \<longleftrightarrow> (y mod 4 = 0 \<and> y mod 100 \<noteq> 0) \<or> y mod 400 = 0"

definition days_in_month :: "int \<Rightarrow> int \<Rightarrow> int" where
  "days_in_month y m =
     (if m \<in> {1, 3, 5, 7, 8, 10, 12} then 31
      else if m \<in> {4, 6, 9, 11} then 30
      else if m = 2 then (if is_leap y then 29 else 28)
      else 0)"

text \<open>\<open>/\<close> on \<open>i64\<close> truncates: \<open>sdiv\<close>.\<close>

definition days_from_civil :: "int \<Rightarrow> int \<Rightarrow> int \<Rightarrow> int" where
  "days_from_civil y0 m d =
     (let y = if m \<le> 2 then y0 - 1 else y0;
          era = (if y \<ge> 0 then y else y - 399) sdiv 400;
          yoe = y - era * 400;
          doy = (153 * (if m > 2 then m - 3 else m + 9) + 2) sdiv 5 + d - 1;
          doe = yoe * 365 + yoe sdiv 4 - yoe sdiv 100 + doy
      in era * 146097 + doe - 719468)"

text \<open>\<open>{:02}\<close>\<close>

definition pad2 :: "int \<Rightarrow> string" where
  "pad2 n = (if 0 \<le> n \<and> n < 10 then ''0'' @ dec_of_int n else dec_of_int n)"

definition num_field :: "string \<Rightarrow> nat \<Rightarrow> nat \<Rightarrow> string + int" where
  "num_field s i j =
     (let part = take (j - i) (drop i s) in
      if \<not> all_digits part
      then Inl (''`'' @ s @ ''` contains a non-digit in a numeric field'')
      else Inr (int (nat_of_dec part)))"

definition parse_rfc3339_utc :: "string \<Rightarrow> string + int" where
  "parse_rfc3339_utc s =
     (if length s \<noteq> 20 \<or> s ! 4 \<noteq> CHR ''-'' \<or> s ! 7 \<noteq> CHR ''-'' \<or> s ! 10 \<noteq> CHR ''T''
         \<or> s ! 13 \<noteq> CHR '':'' \<or> s ! 16 \<noteq> CHR '':'' \<or> s ! 19 \<noteq> CHR ''Z''
      then Inl (''`'' @ s @ ''` is not a strict UTC timestamp (expected YYYY-MM-DDTHH:MM:SSZ)'')
      else
        and_then (num_field s 0 4) (\<lambda>year.
        and_then (num_field s 5 7) (\<lambda>month.
        and_then (num_field s 8 10) (\<lambda>day.
        and_then (num_field s 11 13) (\<lambda>hour.
        and_then (num_field s 14 16) (\<lambda>minute.
        and_then (num_field s 17 19) (\<lambda>second.
          if \<not> (1970 \<le> year \<and> year \<le> 9999)
          then Inl (''year '' @ dec_of_int year @ '' out of range 1970..=9999'')
          else if \<not> (1 \<le> month \<and> month \<le> 12)
          then Inl (''month '' @ dec_of_int month @ '' out of range'')
          else if day < 1 \<or> day > days_in_month year month
          then Inl (''day '' @ dec_of_int day @ '' out of range for '' @ dec_of_int year @ ''-'' @ pad2 month)
          else if hour > 23 \<or> minute > 59 \<or> second > 59
          then Inl (''time '' @ pad2 hour @ '':'' @ pad2 minute @ '':'' @ pad2 second @ '' out of range'')
          else Inr (days_from_civil year month day * 86400 + hour * 3600 + minute * 60 + second))))))))"

section \<open>The reference calendar\<close>

definition year_length :: "int \<Rightarrow> int" where
  "year_length y = (if is_leap y then 366 else 365)"

fun days_before_year :: "nat \<Rightarrow> int" where
  "days_before_year 0 = 0"
| "days_before_year (Suc n) = days_before_year n + year_length (1970 + int n)"

fun days_before_month :: "int \<Rightarrow> nat \<Rightarrow> int" where
  "days_before_month y 0 = 0"
| "days_before_month y (Suc m) = days_before_month y m + days_in_month y (1 + int m)"

text \<open>Days since 1970-01-01 of a civil date from 1970 on.\<close>

definition calendar_days :: "int \<Rightarrow> int \<Rightarrow> int \<Rightarrow> int" where
  "calendar_days y m d = days_before_year (nat (y - 1970)) + days_before_month y (nat (m - 1)) + (d - 1)"

definition valid_date :: "int \<Rightarrow> int \<Rightarrow> int \<Rightarrow> bool" where
  "valid_date y m d \<longleftrightarrow> 1970 \<le> y \<and> y \<le> 9999 \<and> 1 \<le> m \<and> m \<le> 12 \<and> 1 \<le> d \<and> d \<le> days_in_month y m"

lemma sdiv_nonneg: "0 \<le> a \<Longrightarrow> 0 < b \<Longrightarrow> a sdiv b = (a::int) div b"
  by (simp add: signed_divide_int_def sgn_if)

lemma div_step:
  fixes y k :: int
  assumes "0 < k"
  shows "(y + 1) div k - y div k = (if (y + 1) mod k = 0 then 1 else 0)"
proof (cases "(y + 1) mod k = 0")
  case True
  then obtain q where q: "y + 1 = q * k" by (metis div_mult_mod_eq add.right_neutral)
  have "y = q * k + - 1" using q by linarith
  then have "y div k = (q * k + - 1) div k" by simp
  also have "\<dots> = q + (- 1) div k" by (rule div_mult_self3) (use assms in simp)
  also have "\<dots> = q - 1" using assms by (simp add: zdiv_eq_0_iff div_eq_minus1)
  finally show ?thesis using True q assms by simp
next
  case False
  have r: "0 < (y + 1) mod k" "(y + 1) mod k < k"
    using False pos_mod_sign [OF assms, of "y + 1"] pos_mod_bound [OF assms, of "y + 1"] by linarith+
  have "y = ((y + 1) mod k - 1) + (y + 1) div k * k"
    using div_mult_mod_eq [of "y + 1" k] by linarith
  then have "y div k = (((y + 1) mod k - 1) + (y + 1) div k * k) div k" by simp
  also have "\<dots> = (y + 1) div k + ((y + 1) mod k - 1) div k"
    by (rule div_mult_self1) (use assms in simp)
  also have "((y + 1) mod k - 1) div k = 0" by (rule div_pos_pos_trivial) (use r in linarith)+
  finally show ?thesis using False by simp
qed

text \<open>Leap years up to \<open>y\<close>, counted in closed form; kept folded so that arithmetic
  never sees the divisions.\<close>

definition leaps :: "int \<Rightarrow> int" where
  "leaps y = y div 4 - y div 100 + y div 400"

lemma leap_count: "(if is_leap (y + 1) then 1 else 0) = leaps (y + 1) - leaps y"
proof -
  have "4 dvd (100::int)" "100 dvd (400::int)" by simp_all
  then have m: "(y + 1) mod 400 = 0 \<Longrightarrow> (y + 1) mod 100 = 0" "(y + 1) mod 100 = 0 \<Longrightarrow> (y + 1) mod 4 = 0"
    by (metis dvd_trans mod_0_imp_dvd dvd_imp_mod_0)+
  have "leaps (y + 1) - leaps y
      = ((y + 1) div 4 - y div 4) - ((y + 1) div 100 - y div 100) + ((y + 1) div 400 - y div 400)"
    unfolding leaps_def by (rule sym) (simp only: algebra_simps)
  also have "\<dots> = (if is_leap (y + 1) then 1 else 0)"
    using m by (auto simp: is_leap_def div_step)
  finally show ?thesis by simp
qed

lemma days_before_year_closed:
  "days_before_year n = 365 * int n + leaps (1969 + int n) - 477"
proof (induction n)
  case 0
  have "leaps 1969 = 477" by code_simp
  then show ?case by simp
next
  case (Suc n)
  have "year_length (1969 + int n + 1) = 365 + leaps (1969 + int n + 1) - leaps (1969 + int n)"
    using leap_count [of "1969 + int n"] by (simp add: year_length_def split: if_splits)
  with Suc show ?case by (simp add: algebra_simps)
qed

lemma era_closed:
  fixes y :: int
  shows "(y div 400) * 146097 + ((y - y div 400 * 400) * 365 + (y - y div 400 * 400) div 4 - (y - y div 400 * 400) div 100)
    = 365 * y + leaps y"
proof -
  define e r where "e = y div 400" and "r = y - y div 400 * 400"
  have y: "y = r + e * 400" by (simp add: e_def r_def)
  have "y = r + (100 * e) * 4" "y = r + (4 * e) * 100" by (simp_all add: y)
  then have "y div 4 = 100 * e + r div 4" "y div 100 = 4 * e + r div 100"
    by (metis div_mult_self1 zero_neq_numeral)+
  then have "leaps y = (100 * e + r div 4) - (4 * e + r div 100) + e"
    unfolding leaps_def e_def [symmetric] by (simp only:)
  then show ?thesis
    unfolding r_def [symmetric] unfolding e_def [symmetric] using y by linarith
qed

lemma month_cases:
  fixes m :: int
  shows "1 \<le> m \<Longrightarrow> m \<le> 12 \<Longrightarrow> m = 1 \<or> m = 2 \<or> m = 3 \<or> m = 4 \<or> m = 5 \<or> m = 6 \<or> m = 7 \<or> m = 8 \<or> m = 9 \<or> m = 10 \<or> m = 11 \<or> m = 12"
  by presburger

text \<open>Hinnant's month formula, counted from March, against the month table.\<close>

lemma days_in_month_table:
  "days_in_month y 1 = 31" "days_in_month y 2 = (if is_leap y then 29 else 28)" "days_in_month y 3 = 31"
  "days_in_month y 4 = 30" "days_in_month y 5 = 31" "days_in_month y 6 = 30" "days_in_month y 7 = 31"
  "days_in_month y 8 = 31" "days_in_month y 9 = 30" "days_in_month y 10 = 31" "days_in_month y 11 = 30"
  "days_in_month y 12 = 31"
  by (simp_all add: days_in_month_def)

lemma days_before_month_step:
  "days_before_month y 0 = 0"
  "days_before_month y (Suc 0) = 31"
  "days_before_month y (numeral k) = days_before_month y (pred_numeral k) + days_in_month y (1 + int (pred_numeral k))"
  by (simp_all add: numeral_eq_Suc days_in_month_table)

lemma months_before_closed:
  assumes "1 \<le> m" "m \<le> 12"
  shows "days_before_month y (nat (m - 1)) =
    (if m \<le> 2 then (153 * (m + 9) + 2) div 5 - 306
     else (153 * (m - 3) + 2) div 5 + 59 + (if is_leap y then 1 else 0))"
  using month_cases [OF assms]
  by (elim disjE; hypsubst) (simp_all add: days_before_month_step days_in_month_table del: days_before_month.simps(2))

definition month_offset :: "int \<Rightarrow> int" where
  "month_offset m = (153 * (if m > 2 then m - 3 else m + 9) + 2) div 5"

lemma months_before_offset:
  assumes "1 \<le> m" "m \<le> 12"
  shows "days_before_month y (nat (m - 1)) =
    (if m \<le> 2 then month_offset m - 306 else month_offset m + 59 + (if is_leap y then 1 else 0))"
  unfolding month_offset_def months_before_closed [OF assms] by simp

lemma days_from_civil_closed:
  assumes "y' = (if m \<le> 2 then y - 1 else y)" "0 \<le> y'" "1 \<le> m"
  shows "days_from_civil y m d = 365 * y' + leaps y' + month_offset m + d - 1 - 719468"
proof -
  have "0 \<le> y' - y' div 400 * 400" by (simp add: minus_div_mult_eq_mod)
  moreover have "0 \<le> 153 * (if m > 2 then m - 3 else m + 9) + 2" using assms(3) by simp
  ultimately have "days_from_civil y m d
      = (y' div 400) * 146097 + ((y' - y' div 400 * 400) * 365 + (y' - y' div 400 * 400) div 4
          - (y' - y' div 400 * 400) div 100) + month_offset m + d - 1 - 719468"
    unfolding days_from_civil_def Let_def assms(1) [symmetric] month_offset_def
    using assms(2) by (simp only: sdiv_nonneg if_True zero_less_numeral algebra_simps)
  then show ?thesis by (simp only: era_closed)
qed

lemma days_from_civil_calendar:
  assumes "valid_date y m d"
  shows "days_from_civil y m d = calendar_days y m d"
proof -
  have y: "1970 \<le> y" "1 \<le> m" "m \<le> 12" using assms by (auto simp: valid_date_def)
  have leap: "(if is_leap y then 1 else 0) = leaps y - leaps (y - 1)"
    using leap_count [of "y - 1"] by simp
  have "days_before_year (nat (y - 1970)) = 365 * (y - 1970) + leaps (y - 1) - 477"
    using y(1) by (simp add: days_before_year_closed)
  then show ?thesis
    using y leap days_from_civil_closed [of _ m y d] months_before_offset [OF y(2,3), of y]
    by (cases "m \<le> 2") (simp_all add: calendar_days_def)
qed

section \<open>Fixed-width fields\<close>

fun fixed_digits :: "nat \<Rightarrow> nat \<Rightarrow> string" where
  "fixed_digits 0 n = []"
| "fixed_digits (Suc k) n = fixed_digits k (n div 10) @ [digit_char (n mod 10)]"

lemma length_fixed_digits [simp]: "length (fixed_digits k n) = k"
  by (induction k arbitrary: n) auto

lemma all_digits_fixed [simp]: "all_digits (fixed_digits k n)"
  by (induction k arbitrary: n) (auto simp: all_digits_def)

lemma fixed_digits_nat_of_dec: "all_digits p \<Longrightarrow> fixed_digits (length p) (nat_of_dec p) = p"
proof (induction p rule: rev_induct)
  case (snoc c p)
  then have "digit_val c < 10" "is_digit c" "all_digits p" by (auto simp: all_digits_def digit_val_less)
  with snoc.IH show ?case by (simp add: nat_of_dec_snoc)
qed simp

lemma nat_of_dec_fixed: "n < 10 ^ k \<Longrightarrow> nat_of_dec (fixed_digits k n) = n"
proof (induction k arbitrary: n)
  case (Suc k)
  then have "n div 10 < 10 ^ k" by (simp add: less_mult_imp_div_less mult.commute)
  then show ?case using Suc.IH by (simp add: nat_of_dec_snoc)
qed simp

text \<open>The one accepted spelling of an instant.\<close>

definition timestamp :: "int \<Rightarrow> int \<Rightarrow> int \<Rightarrow> int \<Rightarrow> int \<Rightarrow> int \<Rightarrow> string" where
  "timestamp y mo d h mi sec =
     fixed_digits 4 (nat y) @ ''-'' @ fixed_digits 2 (nat mo) @ ''-'' @ fixed_digits 2 (nat d) @ ''T''
     @ fixed_digits 2 (nat h) @ '':'' @ fixed_digits 2 (nat mi) @ '':'' @ fixed_digits 2 (nat sec) @ ''Z''"

definition valid_time :: "int \<Rightarrow> int \<Rightarrow> int \<Rightarrow> bool" where
  "valid_time h mi sec \<longleftrightarrow> 0 \<le> h \<and> h \<le> 23 \<and> 0 \<le> mi \<and> mi \<le> 59 \<and> 0 \<le> sec \<and> sec \<le> 59"


text \<open>A string of the accepted shape is its six fields and the separators.\<close>

lemma split_20:
  assumes "length s = 20"
  shows "s = take 4 s @ s ! 4 # take 2 (drop 5 s) @ s ! 7 # take 2 (drop 8 s) @ s ! 10 # take 2 (drop 11 s)
    @ s ! 13 # take 2 (drop 14 s) @ s ! 16 # take 2 (drop 17 s) @ [s ! 19]"
  using assms by (auto simp: eval_nat_numeral length_Suc_conv)

lemma length_timestamp [simp]: "length (timestamp y mo d h mi sec) = 20"
  by (simp add: timestamp_def)

lemma num_field_iff:
  "num_field s i j = Inr n \<longleftrightarrow> all_digits (take (j - i) (drop i s)) \<and> n = int (nat_of_dec (take (j - i) (drop i s)))"
  by (auto simp: num_field_def Let_def)

text \<open>Accepted strings, field by field.\<close>

lemma parse_rfc3339_Inr:
  "parse_rfc3339_utc s = Inr t \<longleftrightarrow>
     (length s = 20 \<and> s ! 4 = CHR ''-'' \<and> s ! 7 = CHR ''-'' \<and> s ! 10 = CHR ''T''
         \<and> s ! 13 = CHR '':'' \<and> s ! 16 = CHR '':'' \<and> s ! 19 = CHR ''Z'')
     \<and> (\<exists>y mo d h mi sec. num_field s 0 4 = Inr y \<and> num_field s 5 7 = Inr mo \<and> num_field s 8 10 = Inr d
         \<and> num_field s 11 13 = Inr h \<and> num_field s 14 16 = Inr mi \<and> num_field s 17 19 = Inr sec
         \<and> valid_date y mo d \<and> valid_time h mi sec
         \<and> t = days_from_civil y mo d * 86400 + h * 3600 + mi * 60 + sec)"
proof -
  have nonneg: "num_field s i j = Inr n \<Longrightarrow> 0 \<le> n" for i j n by (simp add: num_field_iff)
  show ?thesis
    unfolding parse_rfc3339_utc_def valid_date_def valid_time_def
    by (auto dest: nonneg simp: not_less not_le split: if_splits)
qed

lemma num_field_fixed:
  assumes "take (j - i) (drop i s) = fixed_digits k (nat n)" "0 \<le> n" "nat n < 10 ^ k"
  shows "num_field s i j = Inr n"
  using assms by (simp add: num_field_iff nat_of_dec_fixed)

lemma num_field_digits:
  assumes "num_field s i j = Inr n" "length (take (j - i) (drop i s)) = k"
  shows "take (j - i) (drop i s) = fixed_digits k (nat n) \<and> 0 \<le> n"
  using assms fixed_digits_nat_of_dec [of "take (j - i) (drop i s)"] by (auto simp: num_field_iff)

lemma days_in_month_le: "days_in_month y m \<le> 31"
  by (simp add: days_in_month_def)

lemma calendar_days_bounds:
  assumes "valid_date y mo d"
  shows "0 \<le> calendar_days y mo d \<and> calendar_days y mo d \<le> 2932896"
proof -
  have *: "1970 \<le> y" "y \<le> 9999" "1 \<le> mo" "mo \<le> 12" "1 \<le> d" "d \<le> days_in_month y mo"
    using assms by (auto simp: valid_date_def)
  have nn: "0 \<le> days_before_year n" for n by (induction n) (auto simp: year_length_def)
  have mono: "days_before_year n \<le> days_before_year (n + k)" for n k
    by (induction k) (auto simp: year_length_def)
  have dim: "0 \<le> days_in_month y k" for k by (simp add: days_in_month_def)
  have mn: "0 \<le> days_before_month y n" for n by (induction n) (auto simp: dim)
  have mm: "days_before_month y n + days_in_month y (1 + int n) \<le> days_before_month y (n + Suc k)" for n k
  proof (induction k)
    case (Suc k)
    then show ?case using dim [of "1 + int (n + Suc k)"] by simp
  qed simp
  have "days_before_month y 12 = year_length y"
    by (simp add: days_before_month_step days_in_month_table year_length_def del: days_before_month.simps(2))
  moreover have "nat (mo - 1) + Suc (nat (12 - mo)) = 12" "1 + int (nat (mo - 1)) = mo"
    using *(3,4) by linarith+
  ultimately have "days_before_month y (nat (mo - 1)) + d \<le> year_length y"
    using *(6) mm [of "nat (mo - 1)" "nat (12 - mo)"] by simp
  moreover have "days_before_year (nat (y - 1970)) + year_length y \<le> days_before_year 8030"
  proof -
    have "Suc (nat (y - 1970)) + nat (9999 - y) = 8030" "1970 + int (nat (y - 1970)) = y"
      using *(1,2) by linarith+
    then show ?thesis using mono [of "Suc (nat (y - 1970))" "nat (9999 - y)"] by simp
  qed
  moreover have "days_before_year 8030 = 2932897"
    unfolding days_before_year_closed by code_simp
  ultimately show ?thesis
    using nn [of "nat (y - 1970)"] mn [of "nat (mo - 1)"] *(5) unfolding calendar_days_def by linarith
qed

section \<open>Properties\<close>

text \<open>
  C13: the timestamp parser accepts exactly the strict spelling of the valid UTC
  instants of the years 1970 to 9999, and its value is the number of seconds since
  the epoch by the calendar that counts year by year and month by month.
\<close>

theorem parse_rfc3339_correct:
  "parse_rfc3339_utc s = Inr t \<longleftrightarrow>
     (\<exists>y mo d h mi sec. s = timestamp y mo d h mi sec \<and> valid_date y mo d \<and> valid_time h mi sec
        \<and> t = calendar_days y mo d * 86400 + h * 3600 + mi * 60 + sec)"
proof
  assume "parse_rfc3339_utc s = Inr t"
  then obtain y mo d h mi sec where len: "length s = 20"
    and sep: "s ! 4 = CHR ''-''" "s ! 7 = CHR ''-''" "s ! 10 = CHR ''T''" "s ! 13 = CHR '':''"
      "s ! 16 = CHR '':''" "s ! 19 = CHR ''Z''"
    and f: "num_field s 0 4 = Inr y" "num_field s 5 7 = Inr mo" "num_field s 8 10 = Inr d"
      "num_field s 11 13 = Inr h" "num_field s 14 16 = Inr mi" "num_field s 17 19 = Inr sec"
    and v: "valid_date y mo d" "valid_time h mi sec"
    and t: "t = days_from_civil y mo d * 86400 + h * 3600 + mi * 60 + sec"
    unfolding parse_rfc3339_Inr by blast
  have "s = timestamp y mo d h mi sec"
    using split_20 [OF len] sep num_field_digits [OF f(1), of 4] num_field_digits [OF f(2), of 2]
      num_field_digits [OF f(3), of 2] num_field_digits [OF f(4), of 2] num_field_digits [OF f(5), of 2]
      num_field_digits [OF f(6), of 2] len
    by (simp add: timestamp_def)
  then show "\<exists>y mo d h mi sec. s = timestamp y mo d h mi sec \<and> valid_date y mo d \<and> valid_time h mi sec
        \<and> t = calendar_days y mo d * 86400 + h * 3600 + mi * 60 + sec"
    using v t days_from_civil_calendar [OF v(1)] by metis
next
  assume "\<exists>y mo d h mi sec. s = timestamp y mo d h mi sec \<and> valid_date y mo d \<and> valid_time h mi sec
        \<and> t = calendar_days y mo d * 86400 + h * 3600 + mi * 60 + sec"
  then obtain y mo d h mi sec where s: "s = timestamp y mo d h mi sec" and v: "valid_date y mo d" "valid_time h mi sec"
    and t: "t = calendar_days y mo d * 86400 + h * 3600 + mi * 60 + sec" by blast
  have b: "0 \<le> y" "nat y < 10 ^ 4" "0 \<le> mo" "nat mo < 10 ^ 2" "0 \<le> d" "nat d < 10 ^ 2" "0 \<le> h" "nat h < 10 ^ 2"
    "0 \<le> mi" "nat mi < 10 ^ 2" "0 \<le> sec" "nat sec < 10 ^ 2"
    using v days_in_month_le [of y mo] by (auto simp: valid_date_def valid_time_def)
  have "num_field s 0 4 = Inr y" "num_field s 5 7 = Inr mo" "num_field s 8 10 = Inr d"
      "num_field s 11 13 = Inr h" "num_field s 14 16 = Inr mi" "num_field s 17 19 = Inr sec"
    using b by (auto intro!: num_field_fixed simp: s timestamp_def)
  moreover have "s ! 4 = CHR ''-'' \<and> s ! 7 = CHR ''-'' \<and> s ! 10 = CHR ''T''
         \<and> s ! 13 = CHR '':'' \<and> s ! 16 = CHR '':'' \<and> s ! 19 = CHR ''Z''"
    by (simp add: s timestamp_def nth_append)
  ultimately show "parse_rfc3339_utc s = Inr t"
    unfolding parse_rfc3339_Inr using v t days_from_civil_calendar [OF v(1)] by (auto simp: s)
qed

text \<open>The result and every intermediate value fit \<open>i64\<close>: the cast to \<open>u64\<close> is exact.\<close>

lemma parse_rfc3339_bounds: "parse_rfc3339_utc s = Inr t \<Longrightarrow> 0 \<le> t \<and> t < 253402300800"
  unfolding parse_rfc3339_Inr
  using calendar_days_bounds days_from_civil_calendar by (fastforce simp: valid_time_def)

end
