(* ===== verification/Ext.thy ===== *)
theory Ext
  imports Errors Json
begin

text \<open>
  The third-party code the program relies on, as one record of functions: SHA-256
  (\<open>sha2\<close>), standard padded base64 (\<open>base64\<close>), ed25519 (\<open>ed25519-dalek\<close>), the
  tokenizer and the float printer of \<open>serde_json\<close>. Every definition that calls
  them takes the record as its argument.

  \<open>ext_laws\<close> collects the documented behaviour the properties assume; \<open>toy_ext\<close> is
  a concrete record that satisfies it.
\<close>

record ext =
  x_sha256 :: "bytes \<Rightarrow> bytes"
  x_b64_encode :: "bytes \<Rightarrow> string"
  x_b64_decode :: "string \<Rightarrow> string + bytes"
  x_ed_public :: "bytes \<Rightarrow> bytes"
  x_ed_sign :: "bytes \<Rightarrow> bytes \<Rightarrow> bytes"
  x_ed_valid_key :: "bytes \<Rightarrow> string + unit"
  x_ed_verify :: "bytes \<Rightarrow> bytes \<Rightarrow> bytes \<Rightarrow> bool"
  x_events :: "bytes \<Rightarrow> string + raw"
  x_f64_text :: "64 word \<Rightarrow> string"

text \<open>SHA-256 digests have 32 bytes; base64 decodes what it encodes; the public key of
  a seed has 32 bytes and is valid, signatures have 64 bytes, and a key pair signs
  messages that its public key verifies.\<close>

definition ext_laws :: "ext \<Rightarrow> bool" where
  "ext_laws x \<longleftrightarrow>
     (\<forall>b. length (x_sha256 x b) = 32)
     \<and> (\<forall>b. x_b64_decode x (x_b64_encode x b) = Inr b)
     \<and> (\<forall>seed. length (x_ed_public x seed) = 32 \<and> x_ed_valid_key x (x_ed_public x seed) = Inr ())
     \<and> (\<forall>seed m. length (x_ed_sign x seed m) = 64 \<and> x_ed_verify x (x_ed_public x seed) m (x_ed_sign x seed m))"

section \<open>A record that satisfies the laws\<close>

text \<open>Bytes as pairs of letters; the first 32 bytes for a digest, and a signature
  that repeats the public key and the digest of the message.\<close>

definition nibble_char :: "nat \<Rightarrow> char" where
  "nibble_char n = char_of (65 + n)"

definition toy_hex :: "bytes \<Rightarrow> string" where
  "toy_hex b = concat (map (\<lambda>c. [nibble_char (byte c div 16), nibble_char (byte c mod 16)]) b)"

fun toy_unhex :: "string \<Rightarrow> bytes" where
  "toy_unhex (h # l # s) = char_of ((byte h - 65) * 16 + (byte l - 65)) # toy_unhex s"
| "toy_unhex _ = []"

definition pad_to :: "nat \<Rightarrow> bytes \<Rightarrow> bytes" where
  "pad_to n b = take n (b @ replicate n CHR ''x'')"

definition toy_sha :: "bytes \<Rightarrow> bytes" where
  "toy_sha b = pad_to 32 b"

definition toy_ext :: ext where
  "toy_ext = \<lparr>
     x_sha256 = toy_sha,
     x_b64_encode = toy_hex,
     x_b64_decode = (\<lambda>s. Inr (toy_unhex s)),
     x_ed_public = (\<lambda>seed. pad_to 32 seed),
     x_ed_sign = (\<lambda>seed m. pad_to 32 seed @ toy_sha m),
     x_ed_valid_key = (\<lambda>_. Inr ()),
     x_ed_verify = (\<lambda>pk m sig. sig = pk @ toy_sha m),
     x_events = (\<lambda>b. if b = ''null'' then Inr RUnit else Inl ''not JSON''),
     x_f64_text = (\<lambda>_. ''0.5'') \<rparr>"

lemma length_pad_to [simp]: "length (pad_to n b) = n"
  by (simp add: pad_to_def)

lemma toy_unhex_hex: "toy_unhex (toy_hex b) = b"
proof (induction b)
  case (Cons c b)
  have "byte c div 16 < 16" using byte_less_256 [of c] by (simp add: less_mult_imp_div_less)
  then have "byte (nibble_char (byte c div 16)) = 65 + byte c div 16"
    "byte (nibble_char (byte c mod 16)) = 65 + byte c mod 16"
    by (simp_all add: nibble_char_def)
  then show ?case using Cons by (simp add: toy_hex_def)
qed (simp add: toy_hex_def)

lemma toy_ext_laws: "ext_laws toy_ext"
  by (simp add: ext_laws_def toy_ext_def toy_unhex_hex toy_sha_def)

end
