(* ===== verification/Canonical.thy ===== *)
theory Canonical
  imports Json
begin

text \<open>
  The canonical form MCF-1 of \<open>murl-core/src/canonical.rs\<close>: the writer, and the
  proof that it is injective. A signature over the canonical bytes therefore
  covers every member of the document.
\<close>

section \<open>Canonical form\<close>

datatype canonical_error = NonIntegerNumber "64 word"

definition as_i64 :: "number \<Rightarrow> int option" where
  "as_i64 n = (case n of NInt i \<Rightarrow> if - (2 ^ 63) \<le> i \<and> i < 2 ^ 63 then Some i else None | NFloat _ \<Rightarrow> None)"

definition as_u64 :: "number \<Rightarrow> int option" where
  "as_u64 n = (case n of NInt i \<Rightarrow> if 0 \<le> i \<and> i < 2 ^ 64 then Some i else None | NFloat _ \<Rightarrow> None)"

definition lower_hex :: "nat \<Rightarrow> char" where
  "lower_hex d = (if d < 10 then char_of (48 + d) else char_of (87 + d))"

text \<open>All characters the source escapes are ASCII, so the escaping is bytewise.\<close>

definition escape_char :: "char \<Rightarrow> string" where
  "escape_char c =
     (if c = CHR 0x22 then [CHR 0x5C, CHR 0x22]
      else if c = CHR 0x5C then [CHR 0x5C, CHR 0x5C]
      else if c = CHR 0x08 then [CHR 0x5C, CHR ''b'']
      else if c = CHR 0x0C then [CHR 0x5C, CHR ''f'']
      else if c = CHR 0x0A then [CHR 0x5C, CHR ''n'']
      else if c = CHR 0x0D then [CHR 0x5C, CHR ''r'']
      else if c = CHR 0x09 then [CHR 0x5C, CHR ''t'']
      else if byte c < 0x20
      then [CHR 0x5C, CHR ''u'', CHR ''0'', CHR ''0'', lower_hex (byte c div 16), lower_hex (byte c mod 16)]
      else [c])"

definition write_string :: "string \<Rightarrow> string" where
  "write_string s = [CHR 0x22] @ concat (map escape_char s) @ [CHR 0x22]"

definition write_number :: "number \<Rightarrow> canonical_error + string" where
  "write_number n =
     (case as_i64 n of
        Some i \<Rightarrow> Inr (dec_of_int i)
      | None \<Rightarrow>
          (case as_u64 n of
             Some u \<Rightarrow> Inr (dec_of_int u)
           | None \<Rightarrow> Inl (NonIntegerNumber (case n of NFloat f \<Rightarrow> f | NInt _ \<Rightarrow> 0))))"

fun write_value :: "json \<Rightarrow> canonical_error + string"
  and write_items :: "bool \<Rightarrow> json list \<Rightarrow> canonical_error + string"
  and write_members :: "bool \<Rightarrow> (string \<times> json) list \<Rightarrow> canonical_error + string"
where
  "write_value JNull = Inr ''null''"
| "write_value (JBool True) = Inr ''true''"
| "write_value (JBool False) = Inr ''false''"
| "write_value (JNum n) = write_number n"
| "write_value (JStr s) = Inr (write_string s)"
| "write_value (JArr items) = and_then (write_items True items) (\<lambda>s. Inr (''['' @ s @ '']''))"
| "write_value (JObj m) = and_then (write_members True m) (\<lambda>s. Inr (''{'' @ s @ ''}''))"
| "write_items first [] = Inr []"
| "write_items first (v # vs) =
     and_then (write_value v) (\<lambda>s. and_then (write_items False vs) (\<lambda>t.
       Inr ((if first then [] else '','') @ s @ t)))"
| "write_members first [] = Inr []"
| "write_members first ((k, v) # m) =
     and_then (write_value v) (\<lambda>s. and_then (write_members False m) (\<lambda>t.
       Inr ((if first then [] else '','') @ write_string k @ '':'' @ s @ t)))"

definition canonical_json_bytes :: "json \<Rightarrow> canonical_error + bytes" where
  "canonical_json_bytes v = write_value v"

section \<open>Strings\<close>

text \<open>A reader for the inside of a canonical string, up to the closing quote.\<close>

definition unhex :: "char \<Rightarrow> nat" where
  "unhex c = (if byte c < 58 then byte c - 48 else byte c - 87)"

fun read_string :: "string \<Rightarrow> (string \<times> string) option" where
  "read_string [] = None"
| "read_string (c # s) =
     (if c = CHR 0x22 then Some ([], s)
      else if c = CHR 0x5C then
        (case s of
           [] \<Rightarrow> None
         | e # s' \<Rightarrow>
             if e = CHR ''u'' then
               (case s' of
                  _ # _ # h # l # s'' \<Rightarrow>
                    map_option (\<lambda>(t, r). (char_of (unhex h * 16 + unhex l) # t, r)) (read_string s'')
                | _ \<Rightarrow> None)
             else
               map_option (\<lambda>(t, r).
                 ((if e = CHR ''b'' then CHR 0x08 else if e = CHR ''f'' then CHR 0x0C
                   else if e = CHR ''n'' then CHR 0x0A else if e = CHR ''r'' then CHR 0x0D
                   else if e = CHR ''t'' then CHR 0x09 else e) # t, r)) (read_string s'))
      else map_option (\<lambda>(t, r). (c # t, r)) (read_string s))"

lemma unhex_lower_hex [simp]: "d < 16 \<Longrightarrow> unhex (lower_hex d) = d"
  by (simp add: unhex_def lower_hex_def)

lemma read_escape:
  "read_string (escape_char c @ s) = map_option (\<lambda>(t, r). (c # t, r)) (read_string s)"
proof -
  have "char_of (unhex (lower_hex (byte c div 16)) * 16 + unhex (lower_hex (byte c mod 16))) = c"
    if "byte c < 0x20" using that by (simp add: less_mult_imp_div_less)
  then show ?thesis by (simp add: escape_char_def)
qed

lemma read_write_string: "read_string (concat (map escape_char s) @ CHR 0x22 # r) = Some (s, r)"
proof (induction s)
  case (Cons c s)
  have "read_string (concat (map escape_char (c # s)) @ CHR 0x22 # r)
      = read_string (escape_char c @ (concat (map escape_char s) @ CHR 0x22 # r))"
    by (simp only: list.map concat.simps append_assoc)
  then show ?case by (simp only: read_escape Cons.IH option.map prod.case)
qed simp

lemma write_string_inject:
  "write_string s @ r = write_string t @ r' \<longleftrightarrow> s = t \<and> r = r'"
proof
  assume "write_string s @ r = write_string t @ r'"
  then have "concat (map escape_char s) @ CHR 0x22 # r = concat (map escape_char t) @ CHR 0x22 # r'"
    by (simp only: write_string_def append_assoc append.simps list.inject)
  then have "Some (s, r) = Some (t, r')" by (simp only: read_write_string [symmetric])
  then show "s = t \<and> r = r'" by simp
qed simp

section \<open>Numbers\<close>

text \<open>What may follow a value inside a document.\<close>

definition follows :: "string \<Rightarrow> bool" where
  "follows r \<longleftrightarrow> r = [] \<or> hd r \<in> {CHR '','', CHR '']'', CHR ''}''}"

lemma follows_not_digit: "follows r \<Longrightarrow> takeWhile is_digit r = []"
  by (cases r) (auto simp: follows_def is_digit_def in_range_def)

lemma digits_inject:
  assumes "p @ r = q @ r'" "all_digits p" "all_digits q" "follows r" "follows r'"
  shows "p = q \<and> r = r'"
proof -
  have "takeWhile is_digit (p @ r) = p" "takeWhile is_digit (q @ r') = q"
    using assms(2-5) follows_not_digit
    by (auto simp: all_digits_def list_all_iff takeWhile_append)
  then show ?thesis using assms(1) by simp
qed

lemma dec_of_nat_hd_digit: "is_digit (hd (dec_of_nat n))"
  using all_digits_dec_of_nat [of n] by (cases "dec_of_nat n") (auto simp: all_digits_def)

lemma dec_of_int_inject:
  assumes "dec_of_int i @ r = dec_of_int j @ r'" "follows r" "follows r'"
  shows "i = j \<and> r = r'"
proof -
  have minus: "dec_of_nat n @ s \<noteq> CHR ''-'' # t" for n s t
    using dec_of_nat_hd_digit [of n] by (cases "dec_of_nat n") (auto simp: is_digit_def in_range_def)
  have eq: "dec_of_nat a @ r = dec_of_nat b @ r' \<Longrightarrow> a = b \<and> r = r'" for a b
    using digits_inject [of "dec_of_nat a" r "dec_of_nat b" r'] assms(2,3) by simp
  show ?thesis
    using assms(1) minus minus [symmetric] by (auto simp: dec_of_int_def dest!: eq split: if_splits)
qed

lemma write_number_Inr: "write_number n = Inr s \<Longrightarrow> \<exists>i. n = NInt i \<and> s = dec_of_int i"
  by (auto simp: write_number_def as_i64_def as_u64_def split: number.splits if_splits)

lemma dec_of_int_hd: "dec_of_int i \<noteq> [] \<and> (is_digit (hd (dec_of_int i)) \<or> hd (dec_of_int i) = CHR ''-'')"
  by (simp add: dec_of_int_def dec_of_nat_hd_digit)

section \<open>Values\<close>

text \<open>The first byte tells the constructors apart.\<close>

fun shape :: "json \<Rightarrow> nat" where
  "shape JNull = 0"
| "shape (JBool True) = 1"
| "shape (JBool False) = 2"
| "shape (JNum _) = 3"
| "shape (JStr _) = 4"
| "shape (JArr _) = 5"
| "shape (JObj _) = 6"

definition shape_of :: "char \<Rightarrow> nat" where
  "shape_of c =
     (if c = CHR ''n'' then 0 else if c = CHR ''t'' then 1 else if c = CHR ''f'' then 2
      else if c = CHR 0x22 then 4 else if c = CHR ''['' then 5 else if c = CHR ''{'' then 6 else 3)"

lemma write_value_hd:
  assumes "write_value v = Inr s"
  shows "s \<noteq> [] \<and> shape_of (hd s) = shape v \<and> hd s \<notin> {CHR '','', CHR '']'', CHR ''}''}"
  using assms
proof (cases v rule: shape.cases)
  case (4 n)
  then obtain i where "s = dec_of_int i" using assms write_number_Inr by fastforce
  then show ?thesis using dec_of_int_hd [of i] 4
    by (auto simp: shape_of_def is_digit_def in_range_def)
qed (auto simp: shape_of_def write_string_def)

lemma write_value_shape:
  assumes "write_value v = Inr s" "write_value w = Inr t" "s @ r = t @ r'"
  shows "shape v = shape w"
  using write_value_hd [OF assms(1)] write_value_hd [OF assms(2)] assms(3)
  by (metis hd_append2)

lemma follows_sep [simp]: "follows (CHR '','' # r)" "follows (CHR '']'' # r)" "follows (CHR ''}'' # r)"
  by (simp_all add: follows_def)

lemma write_items_False:
  "write_items False vs = Inr s \<Longrightarrow> vs = [] \<and> s = [] \<or> (\<exists>s'. s = CHR '','' # s')"
  by (cases vs) auto

lemma write_members_False:
  "write_members False m = Inr s \<Longrightarrow> m = [] \<and> s = [] \<or> (\<exists>s'. s = CHR '','' # s')"
  by (cases "(False, m)" rule: write_members.cases) auto

lemma shape_eqs:
  "shape v = 0 \<longleftrightarrow> v = JNull" "shape v = Suc 0 \<longleftrightarrow> v = JBool True" "shape v = 2 \<longleftrightarrow> v = JBool False"
  "shape v = 3 \<longleftrightarrow> (\<exists>n. v = JNum n)" "shape v = 4 \<longleftrightarrow> (\<exists>s. v = JStr s)" "shape v = 5 \<longleftrightarrow> (\<exists>xs. v = JArr xs)"
  "shape v = 6 \<longleftrightarrow> (\<exists>m. v = JObj m)"
  by (cases v rule: shape.cases; simp)+

lemma write_inject:
  "write_value v = Inr s \<Longrightarrow> write_value w = Inr t \<Longrightarrow> s @ r = t @ r' \<Longrightarrow> follows r \<Longrightarrow> follows r' \<Longrightarrow>
    v = w \<and> r = r'"
  "write_items f vs = Inr s \<Longrightarrow> write_items f ws = Inr t \<Longrightarrow>
    s @ CHR '']'' # r = t @ CHR '']'' # r' \<Longrightarrow> vs = ws \<and> r = r'"
  "write_members f m = Inr s \<Longrightarrow> write_members f m' = Inr t \<Longrightarrow>
    s @ CHR ''}'' # r = t @ CHR ''}'' # r' \<Longrightarrow> m = m' \<and> r = r'"
proof (induction v and f vs and f m arbitrary: w s t r r' and ws s t r r' and m' s t r r'
    rule: write_value_write_items_write_members.induct)
  case (4 n)
  have "shape w = 3" using write_value_shape [OF 4(1-3)] by simp
  then obtain n' where w: "w = JNum n'" by (auto simp: shape_eqs)
  obtain i j where "n = NInt i" "s = dec_of_int i" "n' = NInt j" "t = dec_of_int j"
    using 4(1,2) w by (auto dest!: write_number_Inr)
  then show ?case using dec_of_int_inject [of i r j r'] 4(3-5) w by simp
next
  case (5 x)
  have "shape w = 4" using write_value_shape [OF 5(1-3)] by simp
  then obtain y where w: "w = JStr y" by (auto simp: shape_eqs)
  then show ?case using 5 write_string_inject [of x r y r'] by simp
next
  case (6 items)
  have "shape w = 5" using write_value_shape [OF 6(2-4)] by simp
  then obtain items' where w: "w = JArr items'" by (auto simp: shape_eqs)
  then obtain s' t' where "write_items True items = Inr s'" "write_items True items' = Inr t'"
    "s = CHR ''['' # s' @ '']''" "t = CHR ''['' # t' @ '']''"
    using 6(2,3) by auto
  then show ?case using 6(1) [of s' items' t' r r'] 6(4) w by simp
next
  case (7 m)
  have "shape w = 6" using write_value_shape [OF 7(2-4)] by simp
  then obtain m' where w: "w = JObj m'" by (auto simp: shape_eqs)
  then obtain s' t' where "write_members True m = Inr s'" "write_members True m' = Inr t'"
    "s = CHR ''{'' # s' @ ''}''" "t = CHR ''{'' # t' @ ''}''"
    using 7(2,3) by auto
  then show ?case using 7(1) [of s' m' t' r r'] 7(4) w by simp
next
  case (8 f)
  show ?case
  proof (cases ws)
    case (Cons w ws')
    then obtain x y where "write_value w = Inr x" "t = (if f then [] else '','') @ x @ y"
      using 8(2) by auto
    then show ?thesis using 8(1,3) write_value_hd [of w x] by (cases x) (auto split: if_splits)
  qed (use 8 in simp)
next
  case (9 f v vs)
  obtain x y where x: "write_value v = Inr x" "write_items False vs = Inr y" "s = (if f then [] else '','') @ x @ y"
    using 9(3) by auto
  show ?case
  proof (cases ws)
    case Nil
    then show ?thesis using 9(4,5) x write_value_hd [OF x(1)] by (cases x) (auto split: if_splits)
  next
    case (Cons w ws')
    then obtain x' y' where x': "write_value w = Inr x'" "write_items False ws' = Inr y'"
      "t = (if f then [] else '','') @ x' @ y'"
      using 9(4) by auto
    have eq: "x @ (y @ CHR '']'' # r) = x' @ (y' @ CHR '']'' # r')"
      using 9(5) x(3) x'(3) by (cases f) simp_all
    have vw: "v = w" and rest: "y @ CHR '']'' # r = y' @ CHR '']'' # r'"
      using 9(1) [OF x(1) x'(1) eq] write_items_False [OF x(2)] write_items_False [OF x'(2)] by auto
    show ?thesis using 9(2) [OF x(1) x(2) x'(2) rest] Cons vw by simp
  qed
next
  case (10 f)
  show ?case
  proof (cases m')
    case (Cons kw ms)
    then obtain k w y where "t = (if f then [] else '','') @ write_string k @ y" using 10(2)
      by (cases kw) auto
    then show ?thesis using 10(1,3) by (auto simp: write_string_def split: if_splits)
  qed (use 10 in simp)
next
  case (11 f k v m)
  obtain x y where x: "write_value v = Inr x" "write_members False m = Inr y"
    "s = (if f then [] else '','') @ write_string k @ '':'' @ x @ y"
    using 11(3) by auto
  show ?case
  proof (cases m')
    case Nil
    then show ?thesis using 11(4,5) x by (auto simp: write_string_def split: if_splits)
  next
    case (Cons kw ms)
    obtain k' w where kw: "kw = (k', w)" by fastforce
    then obtain x' y' where x': "write_value w = Inr x'" "write_members False ms = Inr y'"
      "t = (if f then [] else '','') @ write_string k' @ '':'' @ x' @ y'"
      using 11(4) Cons by auto
    have "write_string k @ (CHR '':'' # x @ y @ CHR ''}'' # r) = write_string k' @ (CHR '':'' # x' @ y' @ CHR ''}'' # r')"
      using 11(5) x(3) x'(3) by (cases f) simp_all
    then have eq: "k = k'" "x @ (y @ CHR ''}'' # r) = x' @ (y' @ CHR ''}'' # r')"
      by (simp_all only: write_string_inject list.inject)
    have vw: "v = w" and rest: "y @ CHR ''}'' # r = y' @ CHR ''}'' # r'"
      using 11(1) [OF x(1) x'(1) eq(2)] write_members_False [OF x(2)] write_members_False [OF x'(2)] by auto
    show ?thesis using 11(2) [OF x(1) x(2) x'(2) rest] Cons kw eq(1) vw by simp
  qed
next
  case 1
  have "w = JNull" using write_value_shape [OF 1(1-3)] by (simp add: shape_eqs eq_commute [of 0])
  then show ?case using 1 by auto
next
  case 2
  have "w = JBool True" using write_value_shape [OF 2(1-3)] by (simp add: shape_eqs eq_commute [of "Suc 0"])
  then show ?case using 2 by auto
next
  case 3
  have "w = JBool False" using write_value_shape [OF 3(1-3)] by (simp add: shape_eqs eq_commute [of 2])
  then show ?case using 3 by auto
qed

section \<open>When there is a canonical form\<close>

text \<open>Exactly the documents whose numbers are 64-bit integers.\<close>

fun integral :: "json \<Rightarrow> bool" where
  "integral (JNum (NInt i)) = (- (2 ^ 63) \<le> i \<and> i < 2 ^ 64)"
| "integral (JNum (NFloat f)) = False"
| "integral (JArr vs) = (\<forall>v\<in>set vs. integral v)"
| "integral (JObj m) = (\<forall>kv\<in>set m. integral (snd kv))"
| "integral _ = True"

lemma write_ok_iff:
  "is_ok (write_value v) \<longleftrightarrow> integral v"
  "is_ok (write_items f vs) \<longleftrightarrow> (\<forall>v\<in>set vs. integral v)"
  "is_ok (write_members f m) \<longleftrightarrow> (\<forall>kv\<in>set m. integral (snd kv))"
proof (induction v and f vs and f m rule: write_value_write_items_write_members.induct)
  case (4 n)
  show ?case
    by (cases n) (auto simp: write_number_def as_i64_def as_u64_def)
qed (auto simp: is_ok_iff)

section \<open>Properties\<close>

text \<open>
  C8: the canonical form is injective: two documents with the same canonical
  bytes are the same document, member for member. So a hash or signature over the
  canonical bytes leaves nothing of the document uncovered.
\<close>

theorem canonical_injective:
  assumes "canonical_json_bytes v = Inr s" "canonical_json_bytes w = Inr s"
  shows "v = w"
  using write_inject(1) [of v s w s "[]" "[]"] assms by (simp add: canonical_json_bytes_def follows_def)

theorem canonical_injective_witness:
  "canonical_json_bytes (JObj [(''a'', JNum (NInt 1))]) \<noteq> canonical_json_bytes (JObj [(''a'', JStr ''1'')])"
proof
  assume eq: "canonical_json_bytes (JObj [(''a'', JNum (NInt 1))]) = canonical_json_bytes (JObj [(''a'', JStr ''1'')])"
  have "is_ok (canonical_json_bytes (JObj [(''a'', JStr ''1'')]))" by code_simp
  then obtain s where "canonical_json_bytes (JObj [(''a'', JStr ''1'')]) = Inr s" by (auto simp: is_ok_iff)
  with eq have "JObj [(''a'', JNum (NInt 1))] = JObj [(''a'', JStr ''1'')]"
    using canonical_injective by metis
  then show False by simp
qed

text \<open>
  Canonicalisation is total on the documents without floats (integers in the
  range of \<open>i64\<close> and \<open>u64\<close>) and fails on every other document.
\<close>

lemma canonical_total_iff:
  "is_ok (canonical_json_bytes v) \<longleftrightarrow> integral v"
  unfolding canonical_json_bytes_def by (rule write_ok_iff(1))

end
