(* ===== verification/Manifest.thy ===== *)
theory Manifest
  imports Graph Target Time Ext Canonical
begin

text \<open>
  Manifest validation, \<open>Manifest::validate\<close> and its parts in
  \<open>murl-core/src/manifest.rs\<close>. Each part is a function on the report, as in the
  source. The specification \<open>wf_manifest\<close> is stated without the report, and
  validation is shown to report no error exactly on the manifests that satisfy it.
\<close>

definition ACCEPTED_MURL_VERSIONS :: "string list" where
  "ACCEPTED_MURL_VERSIONS = [''0.1'', ''0.2'']"

definition MAX_RESOURCES_PER_MANIFEST :: nat where "MAX_RESOURCES_PER_MANIFEST = 64"
definition MAX_NAME_LEN :: nat where "MAX_NAME_LEN = 120"
definition MAX_DESCRIPTION_LEN :: nat where "MAX_DESCRIPTION_LEN = 2000"
definition MAX_TARGET_LEN :: nat where "MAX_TARGET_LEN = 2048"
definition MAX_LABEL_LEN :: nat where "MAX_LABEL_LEN = 120"
definition MAX_TAGS :: nat where "MAX_TAGS = 16"
definition MAX_TAG_LEN :: nat where "MAX_TAG_LEN = 32"
definition MAX_DEPENDS :: nat where "MAX_DEPENDS = 16"
definition MAX_RELATIONS :: nat where "MAX_RELATIONS = 128"

section \<open>Reports\<close>

record issue =
  is_path :: string
  is_message :: string

record validation_report =
  vr_errors :: "issue list"
  vr_warnings :: "issue list"

definition empty_report :: validation_report where
  "empty_report = \<lparr> vr_errors = [], vr_warnings = [] \<rparr>"

definition is_valid :: "validation_report \<Rightarrow> bool" where
  "is_valid rep \<longleftrightarrow> vr_errors rep = []"

definition report_error :: "string \<Rightarrow> string \<Rightarrow> validation_report \<Rightarrow> validation_report" where
  "report_error path message rep =
     rep\<lparr> vr_errors := vr_errors rep @ [\<lparr> is_path = path, is_message = message \<rparr>] \<rparr>"

definition report_warn :: "string \<Rightarrow> string \<Rightarrow> validation_report \<Rightarrow> validation_report" where
  "report_warn path message rep =
     rep\<lparr> vr_warnings := vr_warnings rep @ [\<lparr> is_path = path, is_message = message \<rparr>] \<rparr>"

definition error_if :: "bool \<Rightarrow> string \<Rightarrow> string \<Rightarrow> validation_report \<Rightarrow> validation_report" where
  "error_if b path message rep = (if b then report_error path message rep else rep)"

definition warn_if :: "bool \<Rightarrow> string \<Rightarrow> string \<Rightarrow> validation_report \<Rightarrow> validation_report" where
  "warn_if b path message rep = (if b then report_warn path message rep else rep)"

definition into_result :: "validation_report \<Rightarrow> error + validation_report" where
  "into_result rep =
     (if is_valid rep then Inr rep
      else
        let parts = map (\<lambda>i. is_path i @ '': '' @ is_message i) (take 5 (vr_errors rep));
            parts' = (if 5 < length (vr_errors rep)
                      then parts @ [''... and '' @ dec_of_nat (length (vr_errors rep) - 5) @ '' more'']
                      else parts)
        in Inl (EValidation (join ''; '' parts')))"

section \<open>Top-level members\<close>

definition check_text :: "string \<Rightarrow> nat \<Rightarrow> string \<Rightarrow> string \<Rightarrow> validation_report \<Rightarrow> validation_report" where
  "check_text path limit message s rep =
     error_if (has_control s) path ''must not contain control characters''
       (error_if (limit < length (utf8_chars s)) path message rep)"

definition check_id :: "string option \<Rightarrow> validation_report \<Rightarrow> validation_report" where
  "check_id oid rep =
     (case oid of
        None \<Rightarrow> rep
      | Some i \<Rightarrow>
          (case murl_parse i of
             Inr m \<Rightarrow> error_if (mu_selector m \<noteq> None \<or> mu_query m \<noteq> None) ''/id''
                        ''must not carry a selector or query'' rep
           | Inl e \<Rightarrow> report_error ''/id'' (''not a valid mURL: '' @ murl_error_display e) rep))"

definition check_version :: "string option \<Rightarrow> validation_report \<Rightarrow> validation_report" where
  "check_version ov rep =
     (case ov of
        None \<Rightarrow> rep
      | Some v \<Rightarrow>
          (case version_parse v of
             Inr (Pinned _) \<Rightarrow> rep
           | Inr Latest \<Rightarrow> report_error ''/version'' ''manifest version must be concrete, not `latest`'' rep
           | Inl e \<Rightarrow> report_error ''/version'' (murl_error_display e) rep))"

definition check_timestamp :: "string \<Rightarrow> string option \<Rightarrow> validation_report \<Rightarrow> validation_report" where
  "check_timestamp path ot rep =
     (case ot of
        None \<Rightarrow> rep
      | Some t \<Rightarrow> (case parse_rfc3339_utc t of Inr _ \<Rightarrow> rep | Inl e \<Rightarrow> report_error path e rep))"

definition check_window :: "string option \<Rightarrow> string option \<Rightarrow> validation_report \<Rightarrow> validation_report" where
  "check_window not_before expires rep =
     (case (not_before, expires) of
        (Some nb, Some ex) \<Rightarrow>
          (case (parse_rfc3339_utc nb, parse_rfc3339_utc ex) of
             (Inr nb_t, Inr ex_t) \<Rightarrow>
               error_if (nb_t \<ge> ex_t) ''/notBefore'' ''must be strictly before /expires'' rep
           | _ \<Rightarrow> rep)
      | _ \<Rightarrow> rep)"

section \<open>Numbers and unknown members of the raw document\<close>

fun walk_numbers :: "ext \<Rightarrow> json \<Rightarrow> string \<Rightarrow> validation_report \<Rightarrow> validation_report"
  and walk_items :: "ext \<Rightarrow> nat \<Rightarrow> json list \<Rightarrow> string \<Rightarrow> validation_report \<Rightarrow> validation_report"
  and walk_members :: "ext \<Rightarrow> (string \<times> json) list \<Rightarrow> string \<Rightarrow> validation_report \<Rightarrow> validation_report"
where
  "walk_numbers x (JNum n) path rep =
     error_if (as_i64 n = None \<and> as_u64 n = None) path
       (''non-integer number '' @ quoted (case n of NFloat f \<Rightarrow> x_f64_text x f | NInt i \<Rightarrow> dec_of_int i)) rep"
| "walk_numbers x (JArr items) path rep = walk_items x 0 items path rep"
| "walk_numbers x (JObj m) path rep = walk_members x m path rep"
| "walk_numbers x JNull path rep = rep"
| "walk_numbers x (JBool b) path rep = rep"
| "walk_numbers x (JStr s) path rep = rep"
| "walk_items x i [] path rep = rep"
| "walk_items x i (v # vs) path rep =
     walk_items x (Suc i) vs path (walk_numbers x v (path @ ''/'' @ dec_of_nat i) rep)"
| "walk_members x [] path rep = rep"
| "walk_members x ((k, v) # m) path rep =
     walk_members x m path (walk_numbers x v (path @ ''/'' @ k) rep)"

definition warn_unknown :: "string list \<Rightarrow> string \<Rightarrow> string \<Rightarrow> json \<Rightarrow> validation_report \<Rightarrow> validation_report" where
  "warn_unknown known path message v rep =
     (case v of
        JObj m \<Rightarrow> fold (\<lambda>k. warn_if (k \<notin> set known) (path @ ''/'' @ k) message) (map fst m) rep
      | _ \<Rightarrow> rep)"

definition warn_unknown_in :: "string list \<Rightarrow> string \<Rightarrow> json option \<Rightarrow> validation_report \<Rightarrow> validation_report" where
  "warn_unknown_in known path v rep =
     (case v of
        Some (JArr xs) \<Rightarrow>
          fold (\<lambda>(i, r). warn_unknown known (path @ ''/'' @ dec_of_nat i) ''unknown member (ignored)'' r)
            (enumerate 0 xs) rep
      | _ \<Rightarrow> rep)"

definition validate_unknown_members :: "json \<Rightarrow> validation_report \<Rightarrow> validation_report" where
  "validate_unknown_members raw rep =
     (case raw of
        JObj m \<Rightarrow>
          let rep1 = warn_unknown MANIFEST_FIELDS [] ''unknown member (ignored by this implementation)'' raw rep;
              rep2 = warn_unknown_in RESOURCE_FIELDS ''/resources'' (map_of m ''resources'') rep1;
              rep3 = warn_unknown_in [''from'', ''rel'', ''to''] ''/relations'' (map_of m ''relations'') rep2
          in (case map_of m ''signature'' of
                Some v \<Rightarrow> warn_unknown [''alg'', ''keyId'', ''publicKey'', ''sig''] ''/signature'' ''unknown member (ignored)'' v rep3
              | None \<Rightarrow> rep3)
      | _ \<Rightarrow> rep)"

section \<open>Resources\<close>

definition is_valid_integrity :: "string \<Rightarrow> bool" where
  "is_valid_integrity s =
     (case strip_prefix ''sha256-'' s of
        Some b64 \<Rightarrow> length b64 = 44
          \<and> list_all (\<lambda>b. is_alnum b \<or> b = CHR ''+'' \<or> b = CHR ''/'' \<or> b = CHR ''='') b64
      | None \<Rightarrow> False)"

definition resource_path :: "nat \<Rightarrow> string \<Rightarrow> string" where
  "resource_path i field = ''/resources/'' @ dec_of_nat i @ ''/'' @ field"

text \<open>The target check also records the (kind, target) pair for the duplicate warning.\<close>

definition check_target ::
  "nat \<Rightarrow> resource_doc \<Rightarrow> (string \<times> string) list \<times> validation_report \<Rightarrow> (string \<times> string) list \<times> validation_report"
where
  "check_target i r st =
     (let p = resource_path i; (seen, rep0) = st;
          rep = (case kind_parse (rd_kind r) of Inr _ \<Rightarrow> rep0 | Inl e \<Rightarrow> report_error (p ''kind'') e rep0) in
      if rd_target r = [] \<or> MAX_TARGET_LEN < length (rd_target r)
      then (seen, report_error (p ''target'') (''must be 1..='' @ dec_of_nat MAX_TARGET_LEN @ '' bytes'') rep)
      else if has_control (rd_target r)
      then (seen, report_error (p ''target'') ''must not contain control characters'' rep)
      else case kind_parse (rd_kind r) of
        Inl _ \<Rightarrow> (seen, rep)
      | Inr kind \<Rightarrow>
          let rep1 = (case validate_target kind (rd_target r) of
                        Inr _ \<Rightarrow> rep | Inl e \<Rightarrow> report_error (p ''target'') e rep);
              key = (kind_display kind, rd_target r);
              rep2 = warn_if (key \<in> set seen) (p ''target'')
                       ''duplicate (kind, target) pair; duplicates are skipped at dispatch'' rep1;
              rep3 = warn_if (rd_integrity r \<noteq> None \<and> kind \<noteq> kind.Murl) (p ''integrity'')
                       ''integrity pins are only enforced for kind `murl`'' rep2
          in (List.insert key seen, rep3))"

definition check_label :: "nat \<Rightarrow> string option \<Rightarrow> validation_report \<Rightarrow> validation_report" where
  "check_label i ol rep =
     (case ol of
        None \<Rightarrow> rep
      | Some l \<Rightarrow>
          error_if (has_control l) (resource_path i ''label'') ''must not contain control characters''
            (error_if (l = [] \<or> MAX_LABEL_LEN < length (utf8_chars l)) (resource_path i ''label'')
               (''must be 1..='' @ dec_of_nat MAX_LABEL_LEN @ '' characters'') rep))"

definition check_role :: "nat \<Rightarrow> string option \<Rightarrow> validation_report \<Rightarrow> validation_report" where
  "check_role i oro rep =
     (case oro of
        None \<Rightarrow> rep
      | Some role \<Rightarrow> error_if (\<not> is_valid_role role) (resource_path i ''role'')
                      (quoted role @ '' must match [a-z0-9][a-z0-9-]{0,31}'') rep)"

definition check_tags :: "nat \<Rightarrow> string list \<Rightarrow> validation_report \<Rightarrow> validation_report" where
  "check_tags i tags rep =
     fold (\<lambda>t. error_if (\<not> is_valid_tag t) (resource_path i ''tags'')
             (''tag '' @ quoted t @ '' must match [a-z0-9-]{1,'' @ dec_of_nat MAX_TAG_LEN @ ''}'')) tags
       (error_if (MAX_TAGS < length tags) (resource_path i ''tags'') (''at most '' @ dec_of_nat MAX_TAGS @ '' tags'') rep)"

definition check_depends :: "resource_doc list \<Rightarrow> nat \<Rightarrow> resource_doc \<Rightarrow> validation_report \<Rightarrow> validation_report" where
  "check_depends all i r rep =
     fold (\<lambda>dep rep.
         if dep = rd_id r
         then report_error (resource_path i ''dependsOn'') (quoted (rd_id r) @ '' depends on itself'') rep
         else error_if (\<not> list_ex (\<lambda>other. rd_id other = dep) all) (resource_path i ''dependsOn'')
                (''unknown resource id '' @ quoted dep) rep)
       (rd_depends_on r)
       (error_if (MAX_DEPENDS < length (rd_depends_on r)) (resource_path i ''dependsOn'')
          (''at most '' @ dec_of_nat MAX_DEPENDS @ '' dependencies'') rep)"

definition check_integrity_shape :: "nat \<Rightarrow> string option \<Rightarrow> validation_report \<Rightarrow> validation_report" where
  "check_integrity_shape i oi rep =
     (case oi of
        None \<Rightarrow> rep
      | Some s \<Rightarrow> error_if (\<not> is_valid_integrity s) (resource_path i ''integrity'')
                   ''must be `sha256-<44 base64 chars>` over the nested manifest bytes'' rep)"

type_synonym resource_state = "string list \<times> (string \<times> string) list \<times> validation_report"

definition check_resource :: "resource_doc list \<Rightarrow> nat \<times> resource_doc \<Rightarrow> resource_state \<Rightarrow> resource_state" where
  "check_resource all ir st =
     (let (i, r) = ir; (ids, targets, rep0) = st;
          rep1 = error_if (\<not> is_valid_resource_id (rd_id r)) (resource_path i ''id'')
                   (quoted (rd_id r) @ '' must match [a-z0-9][a-z0-9_-]{0,63}'') rep0;
          rep2 = error_if (rd_id r \<in> set ids) (resource_path i ''id'')
                   (''duplicate resource id '' @ quoted (rd_id r)) rep1;
          (targets', rep3) = check_target i r (targets, rep2);
          rep4 = check_role i (rd_role r) (check_label i (rd_label r) rep3);
          rep5 = error_if (\<not> (0 \<le> rd_order r \<and> rd_order r \<le> 10000)) (resource_path i ''order'')
                   ''must be in 0..=10000'' rep4;
          rep6 = check_integrity_shape i (rd_integrity r)
                   (check_depends all i r (check_tags i (rd_tags r) rep5))
      in (List.insert (rd_id r) ids, targets', rep6))"

definition validate_resources :: "resource_doc list \<Rightarrow> validation_report \<Rightarrow> validation_report" where
  "validate_resources rs rep =
     (if rs = [] then report_error ''/resources'' ''manifest must declare at least one resource'' rep
      else
        let rep0 = error_if (MAX_RESOURCES_PER_MANIFEST < length rs) ''/resources''
                     (dec_of_nat (length rs) @ '' resources exceeds the limit of '' @ dec_of_nat MAX_RESOURCES_PER_MANIFEST) rep;
            (_, _, rep1) = fold (check_resource rs) (enumerate 0 rs) ([], [], rep0)
        in if vr_errors rep1 = [] then
             (case execution_order rs of
                Inr _ \<Rightarrow> rep1
              | Inl e \<Rightarrow> report_error ''/resources'' e rep1)
           else rep1)"

section \<open>Relations and the signature block\<close>

definition valid_rel :: "string \<Rightarrow> bool" where
  "valid_rel s \<longleftrightarrow> \<not> (s = [] \<or> 32 < length s
     \<or> \<not> list_all (\<lambda>(j, b). if j = (0::nat) then is_lower b else is_lower b \<or> b = CHR ''-'') (enumerate 0 s))"

definition check_relation :: "resource_doc list \<Rightarrow> nat \<times> relation \<Rightarrow> validation_report \<Rightarrow> validation_report" where
  "check_relation rs il rep =
     (let (i, rl) = il; p = ''/relations/'' @ dec_of_nat i;
          endpoint = (\<lambda>field i rep. error_if (\<not> list_ex (\<lambda>r. rd_id r = i) rs) (p @ ''/'' @ field)
                        (''unknown resource id '' @ quoted i) rep)
      in error_if (\<not> valid_rel (rl_rel rl)) (p @ ''/rel'') (quoted (rl_rel rl) @ '' must match [a-z][a-z-]{0,31}'')
           (endpoint ''to'' (rl_to rl) (endpoint ''from'' (rl_from rl) rep)))"

definition validate_relations :: "resource_doc list \<Rightarrow> relation list \<Rightarrow> validation_report \<Rightarrow> validation_report" where
  "validate_relations rs rels rep =
     fold (check_relation rs) (enumerate 0 rels)
       (error_if (MAX_RELATIONS < length rels) ''/relations'' (''at most '' @ dec_of_nat MAX_RELATIONS @ '' relations'') rep)"

definition decodes_to_length :: "ext \<Rightarrow> nat \<Rightarrow> string \<Rightarrow> bool" where
  "decodes_to_length x n s = (case x_b64_decode x s of Inr b \<Rightarrow> length b = n | Inl _ \<Rightarrow> False)"

definition valid_key_id :: "string \<Rightarrow> bool" where
  "valid_key_id k =
     (case strip_prefix ''ed25519:'' k of
        Some hex \<Rightarrow> length hex = 16 \<and> list_all (\<lambda>b. is_hexdigit b \<and> \<not> is_upper b) hex
      | None \<Rightarrow> False)"

definition validate_signature_shape :: "ext \<Rightarrow> signature_block option \<Rightarrow> validation_report \<Rightarrow> validation_report" where
  "validate_signature_shape x osig rep =
     (case osig of
        None \<Rightarrow> rep
      | Some sg \<Rightarrow>
          error_if (\<not> valid_key_id (sg_key_id sg)) ''/signature/keyId'' ''must be `ed25519:<16 lowercase hex chars>`''
            (error_if (\<not> decodes_to_length x 64 (sg_sig sg)) ''/signature/sig'' ''must be base64 of 64 bytes''
              (error_if (\<not> decodes_to_length x 32 (sg_public_key sg)) ''/signature/publicKey'' ''must be base64 of 32 bytes''
                (error_if (sg_alg sg \<noteq> ''ed25519'') ''/signature/alg'' (''unsupported algorithm '' @ quoted (sg_alg sg)) rep))))"

section \<open>The whole manifest\<close>

definition validate :: "ext \<Rightarrow> manifest \<Rightarrow> validation_report" where
  "validate x m =
     (let d = mf_doc m;
          rep1 = error_if (md_murl_version d \<notin> set ACCEPTED_MURL_VERSIONS) ''/murlVersion''
                   (''unsupported version '' @ quoted (md_murl_version d) @ '' (this implementation accepts ''
                    @ join '', '' ACCEPTED_MURL_VERSIONS @ '')'') empty_report;
          rep2 = error_if (md_name d = [] \<or> MAX_NAME_LEN < length (utf8_chars (md_name d))) ''/name''
                   (''must be 1..='' @ dec_of_nat MAX_NAME_LEN @ '' characters'') rep1;
          rep3 = error_if (has_control (md_name d)) ''/name'' ''must not contain control characters'' rep2;
          rep4 = (case md_description d of
                    None \<Rightarrow> rep3
                  | Some desc \<Rightarrow> check_text ''/description'' MAX_DESCRIPTION_LEN
                      (''must be <= '' @ dec_of_nat MAX_DESCRIPTION_LEN @ '' characters'') desc rep3);
          rep5 = check_version (md_version d) (check_id (md_id d) rep4);
          rep6 = check_window (md_not_before d) (md_expires d)
                   (check_timestamp ''/notBefore'' (md_not_before d) (check_timestamp ''/expires'' (md_expires d) rep5));
          rep7 = validate_resources (md_resources d) rep6;
          rep8 = validate_relations (md_resources d) (md_relations d) rep7;
          rep9 = validate_signature_shape x (md_signature d) rep8;
          rep10 = validate_unknown_members (mf_raw m) rep9
      in walk_numbers x (mf_raw m) [] rep10)"

section \<open>The specification\<close>

named_theorems report_simps \<open>when a check leaves the report without errors\<close>

definition wf_label :: "string \<Rightarrow> bool" where
  "wf_label l \<longleftrightarrow> l \<noteq> [] \<and> length (utf8_chars l) \<le> MAX_LABEL_LEN \<and> \<not> has_control l"

definition wf_target :: "resource_doc \<Rightarrow> bool" where
  "wf_target r \<longleftrightarrow> rd_target r \<noteq> [] \<and> length (rd_target r) \<le> MAX_TARGET_LEN \<and> \<not> has_control (rd_target r)
     \<and> (\<exists>k. kind_parse (rd_kind r) = Inr k \<and> validate_target k (rd_target r) = Inr ())"

definition wf_resource :: "resource_doc list \<Rightarrow> resource_doc \<Rightarrow> bool" where
  "wf_resource all r \<longleftrightarrow>
     is_valid_resource_id (rd_id r)
     \<and> wf_target r
     \<and> opt_all wf_label (rd_label r)
     \<and> opt_all is_valid_role (rd_role r)
     \<and> 0 \<le> rd_order r \<and> rd_order r \<le> 10000
     \<and> length (rd_tags r) \<le> MAX_TAGS \<and> list_all is_valid_tag (rd_tags r)
     \<and> length (rd_depends_on r) \<le> MAX_DEPENDS
     \<and> (\<forall>dep\<in>set (rd_depends_on r). dep \<noteq> rd_id r \<and> dep \<in> rd_id ` set all)
     \<and> opt_all is_valid_integrity (rd_integrity r)"

definition wf_resources :: "resource_doc list \<Rightarrow> bool" where
  "wf_resources rs \<longleftrightarrow>
     rs \<noteq> [] \<and> length rs \<le> MAX_RESOURCES_PER_MANIFEST
     \<and> distinct (map rd_id rs) \<and> list_all (wf_resource rs) rs \<and> acyclic (dep_edges rs)"

definition wf_relations :: "resource_doc list \<Rightarrow> relation list \<Rightarrow> bool" where
  "wf_relations rs rels \<longleftrightarrow> length rels \<le> MAX_RELATIONS
     \<and> list_all (\<lambda>rl. rl_from rl \<in> rd_id ` set rs \<and> rl_to rl \<in> rd_id ` set rs \<and> valid_rel (rl_rel rl)) rels"

definition wf_signature :: "ext \<Rightarrow> signature_block \<Rightarrow> bool" where
  "wf_signature x sg \<longleftrightarrow> sg_alg sg = ''ed25519'' \<and> decodes_to_length x 32 (sg_public_key sg)
     \<and> decodes_to_length x 64 (sg_sig sg) \<and> valid_key_id (sg_key_id sg)"

definition wf_window :: "string option \<Rightarrow> string option \<Rightarrow> bool" where
  "wf_window nb ex \<longleftrightarrow> opt_all (\<lambda>t. is_ok (parse_rfc3339_utc t)) nb \<and> opt_all (\<lambda>t. is_ok (parse_rfc3339_utc t)) ex
     \<and> (\<forall>s t a b. nb = Some s \<and> ex = Some t \<and> parse_rfc3339_utc s = Inr a \<and> parse_rfc3339_utc t = Inr b \<longrightarrow> a < b)"

definition wf_doc :: "ext \<Rightarrow> manifest_doc \<Rightarrow> bool" where
  "wf_doc x d \<longleftrightarrow>
     md_murl_version d \<in> set ACCEPTED_MURL_VERSIONS
     \<and> md_name d \<noteq> [] \<and> length (utf8_chars (md_name d)) \<le> MAX_NAME_LEN \<and> \<not> has_control (md_name d)
     \<and> opt_all (\<lambda>t. length (utf8_chars t) \<le> MAX_DESCRIPTION_LEN \<and> \<not> has_control t) (md_description d)
     \<and> opt_all (\<lambda>i. \<exists>m. murl_parse i = Inr m \<and> mu_selector m = None \<and> mu_query m = None) (md_id d)
     \<and> opt_all (\<lambda>v. \<exists>ns. version_parse v = Inr (Pinned ns)) (md_version d)
     \<and> wf_window (md_not_before d) (md_expires d)
     \<and> wf_resources (md_resources d)
     \<and> wf_relations (md_resources d) (md_relations d)
     \<and> opt_all (wf_signature x) (md_signature d)"

definition wf_manifest :: "ext \<Rightarrow> manifest \<Rightarrow> bool" where
  "wf_manifest x m \<longleftrightarrow> wf_doc x (mf_doc m) \<and> integral (mf_raw m)"

section \<open>Each check against the specification\<close>

lemma report_error_errors [report_simps]: "vr_errors (report_error p m rep) \<noteq> []"
  by (simp add: report_error_def)

lemma report_warn_errors [report_simps]: "vr_errors (report_warn p m rep) = vr_errors rep"
  by (simp add: report_warn_def)

lemma error_if_errors [report_simps]: "vr_errors (error_if b p m rep) = [] \<longleftrightarrow> \<not> b \<and> vr_errors rep = []"
  by (simp add: error_if_def report_error_def)

lemma warn_if_errors [report_simps]: "vr_errors (warn_if b p m rep) = vr_errors rep"
  by (simp add: warn_if_def report_warn_def)

lemma fold_errors:
  assumes "\<And>a rep. vr_errors (f a rep) = [] \<longleftrightarrow> P a \<and> vr_errors rep = []"
  shows "vr_errors (fold f xs rep) = [] \<longleftrightarrow> (\<forall>a\<in>set xs. P a) \<and> vr_errors rep = []"
  by (induction xs arbitrary: rep) (auto simp: assms)

lemma fold_warnings:
  assumes "\<And>a rep. vr_errors (f a rep) = vr_errors rep"
  shows "vr_errors (fold f xs rep) = vr_errors rep"
  by (induction xs arbitrary: rep) (auto simp: assms)

lemma check_text_errors [report_simps]:
  "vr_errors (check_text p n m s rep) = [] \<longleftrightarrow> length (utf8_chars s) \<le> n \<and> \<not> has_control s \<and> vr_errors rep = []"
  by (auto simp: check_text_def report_simps)

lemma check_id_errors [report_simps]:
  "vr_errors (check_id oid rep) = [] \<longleftrightarrow>
     opt_all (\<lambda>i. \<exists>m. murl_parse i = Inr m \<and> mu_selector m = None \<and> mu_query m = None) oid \<and> vr_errors rep = []"
  by (cases oid) (auto simp: check_id_def report_simps split: sum.splits)

lemma check_version_errors [report_simps]:
  "vr_errors (check_version ov rep) = [] \<longleftrightarrow>
     opt_all (\<lambda>v. \<exists>ns. version_parse v = Inr (Pinned ns)) ov \<and> vr_errors rep = []"
  by (cases ov) (auto simp: check_version_def report_simps split: sum.splits version_tag.splits)

lemma check_timestamp_errors [report_simps]:
  "vr_errors (check_timestamp p ot rep) = [] \<longleftrightarrow> opt_all (\<lambda>t. is_ok (parse_rfc3339_utc t)) ot \<and> vr_errors rep = []"
  by (cases ot) (auto simp: check_timestamp_def report_simps split: sum.splits)

lemma check_window_errors [report_simps]:
  "vr_errors (check_window nb ex rep) = [] \<longleftrightarrow>
     (\<forall>s t a b. nb = Some s \<and> ex = Some t \<and> parse_rfc3339_utc s = Inr a \<and> parse_rfc3339_utc t = Inr b \<longrightarrow> a < b)
     \<and> vr_errors rep = []"
  by (auto simp: check_window_def report_simps split: option.splits sum.splits)

lemma warn_unknown_errors [report_simps]: "vr_errors (warn_unknown known p m v rep) = vr_errors rep"
  by (auto simp: warn_unknown_def report_simps intro!: fold_warnings split: json.split)

lemma warn_unknown_in_errors [report_simps]: "vr_errors (warn_unknown_in known p v rep) = vr_errors rep"
  by (auto simp: warn_unknown_in_def report_simps intro!: fold_warnings split: json.split option.split)

lemma validate_unknown_errors [report_simps]: "vr_errors (validate_unknown_members raw rep) = vr_errors rep"
  by (auto simp: validate_unknown_members_def Let_def report_simps split: json.split option.split)

lemma walk_numbers_errors [report_simps]:
  "vr_errors (walk_numbers x v p rep) = [] \<longleftrightarrow> integral v \<and> vr_errors rep = []"
  "vr_errors (walk_items x i vs p rep) = [] \<longleftrightarrow> (\<forall>v\<in>set vs. integral v) \<and> vr_errors rep = []"
  "vr_errors (walk_members x m p rep) = [] \<longleftrightarrow> (\<forall>kv\<in>set m. integral (snd kv)) \<and> vr_errors rep = []"
proof (induction x v p rep and x i vs p rep and x m p rep rule: walk_numbers_walk_items_walk_members.induct)
  case (1 x n path rep)
  then show ?case by (cases n) (auto simp: report_simps as_i64_def as_u64_def)
qed (auto simp: report_simps)

lemma check_label_errors [report_simps]:
  "vr_errors (check_label i ol rep) = [] \<longleftrightarrow> opt_all wf_label ol \<and> vr_errors rep = []"
  by (cases ol) (auto simp: check_label_def wf_label_def report_simps)

lemma check_role_errors [report_simps]:
  "vr_errors (check_role i oro rep) = [] \<longleftrightarrow> opt_all is_valid_role oro \<and> vr_errors rep = []"
  by (cases oro) (auto simp: check_role_def report_simps)

lemma check_tags_errors [report_simps]:
  "vr_errors (check_tags i tags rep) = [] \<longleftrightarrow> length tags \<le> MAX_TAGS \<and> list_all is_valid_tag tags \<and> vr_errors rep = []"
  unfolding check_tags_def
  by (subst fold_errors [where P = is_valid_tag]) (auto simp: report_simps list_all_iff)

lemma check_depends_errors [report_simps]:
  "vr_errors (check_depends all i r rep) = [] \<longleftrightarrow> length (rd_depends_on r) \<le> MAX_DEPENDS
     \<and> (\<forall>dep\<in>set (rd_depends_on r). dep \<noteq> rd_id r \<and> dep \<in> rd_id ` set all) \<and> vr_errors rep = []"
  unfolding check_depends_def
  by (subst fold_errors [where P = "\<lambda>dep. dep \<noteq> rd_id r \<and> dep \<in> rd_id ` set all"])
     (auto simp: report_simps list_ex_iff)

lemma check_integrity_errors [report_simps]:
  "vr_errors (check_integrity_shape i oi rep) = [] \<longleftrightarrow> opt_all is_valid_integrity oi \<and> vr_errors rep = []"
  by (cases oi) (auto simp: check_integrity_shape_def report_simps)

lemma check_target_errors [report_simps]:
  "vr_errors (snd (check_target i r (seen, rep))) = [] \<longleftrightarrow> wf_target r \<and> vr_errors rep = []"
  by (cases "kind_parse (rd_kind r)")
     (auto simp: check_target_def wf_target_def Let_def report_simps not_less split: sum.splits)

lemma check_resource_errors:
  "check_resource all (i, r) (ids, ts, rep) = (ids', ts', rep') \<Longrightarrow>
   set ids' = insert (rd_id r) (set ids)
   \<and> (vr_errors rep' = [] \<longleftrightarrow> wf_resource all r \<and> rd_id r \<notin> set ids \<and> vr_errors rep = [])"
proof -
  assume st: "check_resource all (i, r) (ids, ts, rep) = (ids', ts', rep')"
  define rep2 where "rep2 = error_if (rd_id r \<in> set ids) (resource_path i ''id'')
                   (''duplicate resource id '' @ quoted (rd_id r))
      (error_if (\<not> is_valid_resource_id (rd_id r)) (resource_path i ''id'')
                   (quoted (rd_id r) @ '' must match [a-z0-9][a-z0-9_-]{0,63}'') rep)"
  obtain ts3 rep3 where t: "check_target i r (ts, rep2) = (ts3, rep3)" by fastforce
  have "vr_errors rep3 = [] \<longleftrightarrow> wf_target r \<and> is_valid_resource_id (rd_id r) \<and> rd_id r \<notin> set ids \<and> vr_errors rep = []"
  proof -
    have "vr_errors rep3 = [] \<longleftrightarrow> wf_target r \<and> vr_errors rep2 = []"
      using check_target_errors [of i r ts rep2] unfolding t by simp
    then show ?thesis by (auto simp: rep2_def report_simps)
  qed
  then show ?thesis
    using st t unfolding check_resource_def Let_def prod.case rep2_def [symmetric]
    by (auto simp: wf_resource_def report_simps)
qed

lemma check_resources_errors:
  "fold (check_resource all) (enumerate k rs) (ids, ts, rep) = (ids', ts', rep') \<Longrightarrow>
   vr_errors rep' = [] \<longleftrightarrow> list_all (wf_resource all) rs \<and> distinct (map rd_id rs)
     \<and> set (map rd_id rs) \<inter> set ids = {} \<and> vr_errors rep = []"
proof (induction rs arbitrary: k ids ts rep)
  case (Cons r rs)
  obtain ids1 ts1 rep1 where st: "check_resource all (k, r) (ids, ts, rep) = (ids1, ts1, rep1)"
    using prod_cases3 by blast
  note c = check_resource_errors [OF st]
  have "fold (check_resource all) (enumerate (Suc k) rs) (ids1, ts1, rep1) = (ids', ts', rep')"
    using Cons.prems st by simp
  from Cons.IH [OF this] c show ?case by auto
qed simp

lemma validate_resources_errors [report_simps]:
  "vr_errors (validate_resources rs rep) = [] \<longleftrightarrow> wf_resources rs \<and> vr_errors rep = []"
proof (cases "rs = []")
  case False
  define rep0 where "rep0 = error_if (MAX_RESOURCES_PER_MANIFEST < length rs) ''/resources''
    (dec_of_nat (length rs) @ '' resources exceeds the limit of '' @ dec_of_nat MAX_RESOURCES_PER_MANIFEST) rep"
  obtain ids ts rep1 where f: "fold (check_resource rs) (enumerate 0 rs) ([], [], rep0) = (ids, ts, rep1)"
    using prod_cases3 by blast
  have e: "vr_errors rep1 = [] \<longleftrightarrow> list_all (wf_resource rs) rs \<and> distinct (map rd_id rs) \<and> vr_errors rep0 = []"
    using check_resources_errors [OF f] by simp
  have v: "validate_resources rs rep = (if vr_errors rep1 = [] then
      (case execution_order rs of Inr _ \<Rightarrow> rep1 | Inl e \<Rightarrow> report_error ''/resources'' e rep1) else rep1)"
    using False unfolding validate_resources_def Let_def rep0_def [symmetric] f by simp
  have r0: "vr_errors rep0 = [] \<longleftrightarrow> length rs \<le> MAX_RESOURCES_PER_MANIFEST \<and> vr_errors rep = []"
    by (auto simp: rep0_def report_simps)
  show ?thesis
  proof (cases "execution_order rs")
    case (Inl m)
    then have "\<not> acyclic (dep_edges rs)" using acyclic_execution_order [of rs] by auto
    then show ?thesis using Inl v by (auto simp: wf_resources_def report_simps)
  next
    case (Inr out)
    then have "acyclic (dep_edges rs)" by (rule execution_order_acyclic)
    then show ?thesis using Inr v e r0 False by (auto simp: wf_resources_def)
  qed
qed (simp add: validate_resources_def wf_resources_def report_simps)

lemma some_id_iff: "list_ex (\<lambda>r. rd_id r = i) rs \<longleftrightarrow> i \<in> rd_id ` set rs"
  by (auto simp: list_ex_iff)

lemma check_relation_errors:
  "vr_errors (check_relation rs il rep) = [] \<longleftrightarrow>
     (rl_from (snd il) \<in> rd_id ` set rs \<and> rl_to (snd il) \<in> rd_id ` set rs \<and> valid_rel (rl_rel (snd il)))
     \<and> vr_errors rep = []"
  by (cases il) (simp add: check_relation_def Let_def report_simps some_id_iff conj_ac)

lemma validate_relations_errors [report_simps]:
  "vr_errors (validate_relations rs rels rep) = [] \<longleftrightarrow> wf_relations rs rels \<and> vr_errors rep = []"
proof -
  have eq: "snd ` set (enumerate 0 rels) = set rels" by (metis list.set_map map_snd_enumerate)
  have "(\<forall>il\<in>set (enumerate 0 rels). P (snd il)) \<longleftrightarrow> list_all P rels" for P
    unfolding list_all_iff eq [symmetric] by simp
  from this [of "\<lambda>rl. rl_from rl \<in> rd_id ` set rs \<and> rl_to rl \<in> rd_id ` set rs \<and> valid_rel (rl_rel rl)"]
  show ?thesis
    unfolding validate_relations_def
    by (subst fold_errors [OF check_relation_errors]) (auto simp: wf_relations_def report_simps)
qed

lemma validate_signature_errors [report_simps]:
  "vr_errors (validate_signature_shape x osig rep) = [] \<longleftrightarrow> opt_all (wf_signature x) osig \<and> vr_errors rep = []"
  by (cases osig) (auto simp: validate_signature_shape_def wf_signature_def report_simps)

lemma validate_errors: "vr_errors (validate x m) = [] \<longleftrightarrow> wf_manifest x m"
proof -
  have d: "vr_errors (case md_description d of None \<Rightarrow> rep
                  | Some desc \<Rightarrow> check_text p MAX_DESCRIPTION_LEN msg desc rep) = [] \<longleftrightarrow>
      opt_all (\<lambda>t. length (utf8_chars t) \<le> MAX_DESCRIPTION_LEN \<and> \<not> has_control t) (md_description d) \<and> vr_errors rep = []"
    for d rep p msg by (cases "md_description d") (auto simp: report_simps)
  have e: "vr_errors empty_report = []" by (simp add: empty_report_def)
  show ?thesis
    unfolding validate_def Let_def wf_manifest_def wf_doc_def wf_window_def
    by (simp only: report_simps d e not_less not_not de_Morgan_disj) blast
qed

section \<open>Properties\<close>

text \<open>
  C7: validation reports no error exactly on the manifests that satisfy the
  specification: an accepted version, name, description, id, dates in order; 1 to 64
  resources with distinct valid ids, each with a known kind, a target valid for its
  kind, known dependencies and no dependency cycle; relations between declared
  resources; a well-shaped signature block; and only 64-bit integers anywhere.
\<close>

theorem validate_iff_wf:
  "is_valid (validate x m) \<longleftrightarrow> wf_manifest x m"
  using validate_errors by (simp add: is_valid_def)

end
