(* ===== verification/Trust.thy ===== *)
theory Trust
  imports Manifest
begin

text \<open>
  The trust engine of \<open>murl-core/src/trust.rs\<close>: what a signature covers, signing
  and verification, the store of pinned keys, and integrity pins. The
  cryptographic primitives are the fields of \<open>ext\<close>.
\<close>

section \<open>Trust status\<close>

datatype trust_status =
    TLocal
  | TUnsignedRemote
  | TSignedUnknownKey string
  | TSignedTrusted string

fun is_trusted_status :: "trust_status \<Rightarrow> bool" where
  "is_trusted_status TLocal = True"
| "is_trusted_status (TSignedTrusted _) = True"
| "is_trusted_status _ = False"

fun trust_status_display :: "trust_status \<Rightarrow> string" where
  "trust_status_display TLocal = ''LOCAL''"
| "trust_status_display TUnsignedRemote = ''UNSIGNED''"
| "trust_status_display (TSignedUnknownKey k) = ''SIGNED (unknown key '' @ k @ '')''"
| "trust_status_display (TSignedTrusted k) = ''TRUSTED (key '' @ k @ '')''"

section \<open>Hashes and keys\<close>

definition sha256_hex :: "ext \<Rightarrow> bytes \<Rightarrow> string" where
  "sha256_hex x b = concat (map (\<lambda>c. [lower_hex (byte c div 16), lower_hex (byte c mod 16)]) (x_sha256 x b))"

definition key_id_for :: "ext \<Rightarrow> bytes \<Rightarrow> string" where
  "key_id_for x pk = ''ed25519:'' @ take 16 (sha256_hex x pk)"

text \<open>A key pair is its 32-byte seed.\<close>

record keypair =
  kp_seed :: bytes

definition public_key_b64 :: "ext \<Rightarrow> keypair \<Rightarrow> string" where
  "public_key_b64 x kp = x_b64_encode x (x_ed_public x (kp_seed kp))"

definition keypair_key_id :: "ext \<Rightarrow> keypair \<Rightarrow> string" where
  "keypair_key_id x kp = key_id_for x (x_ed_public x (kp_seed kp))"

definition keypair_sign :: "ext \<Rightarrow> keypair \<Rightarrow> bytes \<Rightarrow> bytes" where
  "keypair_sign x kp b = x_ed_sign x (kp_seed kp) b"

record key_file =
  kf_alg :: string
  kf_key_id :: string
  kf_public_key :: string
  kf_secret_key :: string

text \<open>The contents \<open>Keypair::save\<close> writes, and \<open>Keypair::load\<close> after the JSON reader.\<close>

definition keypair_save :: "ext \<Rightarrow> keypair \<Rightarrow> key_file" where
  "keypair_save x kp =
     \<lparr> kf_alg = ''ed25519'', kf_key_id = keypair_key_id x kp, kf_public_key = public_key_b64 x kp,
       kf_secret_key = x_b64_encode x (kp_seed kp) \<rparr>"

definition keypair_load :: "ext \<Rightarrow> key_file \<Rightarrow> error + keypair" where
  "keypair_load x file =
     (if kf_alg file \<noteq> ''ed25519''
      then Inl (ETrust (''unsupported key algorithm '' @ quoted (kf_alg file)))
      else
        and_then (map_err (\<lambda>e. ETrust (''bad secretKey encoding: '' @ e)) (x_b64_decode x (kf_secret_key file))) (\<lambda>secret.
          if length secret \<noteq> 32 then Inl (ETrust ''secretKey must be 32 bytes'')
          else Inr \<lparr> kp_seed = secret \<rparr>))"

section \<open>Signing and verifying\<close>

definition canonical_error_display :: "ext \<Rightarrow> canonical_error \<Rightarrow> string" where
  "canonical_error_display x e =
     (case e of NonIntegerNumber f \<Rightarrow> ''canonical form forbids non-integer numbers (found '' @ x_f64_text x f @ '')'')"

definition obj_remove :: "string \<Rightarrow> (string \<times> json) list \<Rightarrow> (string \<times> json) list" where
  "obj_remove k m = filter (\<lambda>kv. fst kv \<noteq> k) m"

definition obj_insert :: "string \<Rightarrow> json \<Rightarrow> (string \<times> json) list \<Rightarrow> (string \<times> json) list" where
  "obj_insert k v m = fst (map_insert k v m)"

definition signable_bytes :: "ext \<Rightarrow> json \<Rightarrow> error + bytes" where
  "signable_bytes x raw =
     (case raw of
        JObj m \<Rightarrow> map_err (\<lambda>e. EValidation (canonical_error_display x e))
                  (canonical_json_bytes (JObj (obj_remove ''signature'' m)))
      | _ \<Rightarrow> Inl (EManifest ''manifest must be a JSON object''))"

text \<open>The \<open>json!\<close> literal; its members are sorted by the map.\<close>

definition signature_value :: "ext \<Rightarrow> keypair \<Rightarrow> bytes \<Rightarrow> json" where
  "signature_value x kp sig =
     JObj [(''alg'', JStr ''ed25519''), (''keyId'', JStr (keypair_key_id x kp)),
           (''publicKey'', JStr (public_key_b64 x kp)), (''sig'', JStr (x_b64_encode x sig))]"

definition sign_manifest :: "ext \<Rightarrow> json \<Rightarrow> keypair \<Rightarrow> error + json" where
  "sign_manifest x raw kp =
     and_then (signable_bytes x raw) (\<lambda>b.
       case raw of
         JObj m \<Rightarrow> Inr (JObj (obj_insert ''signature'' (signature_value x kp (keypair_sign x kp b)) m))
       | _ \<Rightarrow> Inl (EManifest ''manifest must be a JSON object''))"

record verified_signature =
  vs_key_id :: string
  vs_public_key_b64 :: string

definition signature_field :: "(string \<times> json) list \<Rightarrow> string \<Rightarrow> error + string" where
  "signature_field block name =
     (case map_of block name of
        Some (JStr s) \<Rightarrow> Inr s
      | _ \<Rightarrow> Inl (ETrust (''signature.'' @ name @ '' missing or not a string'')))"

definition decode_sized :: "ext \<Rightarrow> string \<Rightarrow> string \<Rightarrow> nat \<Rightarrow> string \<Rightarrow> error + bytes" where
  "decode_sized x what size_msg n s =
     and_then (map_err (\<lambda>e. ETrust (what @ e)) (x_b64_decode x s)) (\<lambda>b.
       if length b \<noteq> n then Inl (ETrust size_msg) else Inr b)"

definition verify_block :: "ext \<Rightarrow> json \<Rightarrow> (string \<times> json) list \<Rightarrow> error + verified_signature" where
  "verify_block x raw block =
     and_then (signature_field block ''alg'') (\<lambda>alg.
     if alg \<noteq> ''ed25519'' then Inl (ETrust (''unsupported signature algorithm '' @ quoted alg))
     else
     and_then (signature_field block ''keyId'') (\<lambda>key_id.
     and_then (signature_field block ''publicKey'') (\<lambda>public_key.
     and_then (signature_field block ''sig'') (\<lambda>sig_b64.
     and_then (decode_sized x ''bad publicKey encoding: '' ''publicKey must be 32 bytes'' 32 public_key) (\<lambda>pk.
     if key_id_for x pk \<noteq> key_id then Inl (ETrust ''keyId does not match publicKey'')
     else
     and_then (decode_sized x ''bad sig encoding: '' ''sig must be 64 bytes'' 64 sig_b64) (\<lambda>sig.
     and_then (map_err (\<lambda>e. ETrust (''invalid public key: '' @ e)) (x_ed_valid_key x pk)) (\<lambda>_.
     and_then (signable_bytes x raw) (\<lambda>b.
     if \<not> x_ed_verify x pk b sig
     then Inl (ETrust ''signature verification failed (manifest was modified after signing, or the signature is forged)'')
     else Inr \<lparr> vs_key_id = key_id, vs_public_key_b64 = public_key \<rparr>))))))))"

definition verify_manifest :: "ext \<Rightarrow> json \<Rightarrow> error + verified_signature option" where
  "verify_manifest x raw =
     (case raw of
        JObj m \<Rightarrow>
          (case map_of m ''signature'' of
             None \<Rightarrow> Inr None
           | Some (JObj block) \<Rightarrow> and_then (verify_block x raw block) (\<lambda>v. Inr (Some v))
           | Some _ \<Rightarrow> Inl (ETrust ''signature must be an object''))
      | _ \<Rightarrow> Inl (EManifest ''manifest must be a JSON object''))"

section \<open>The pinned-key store\<close>

record pinned_key =
  pk_key_id :: string
  pk_public_key :: string
  pk_added_at :: "nat option"

text \<open>\<open>authorities: BTreeMap<String, Vec<PinnedKey>>\<close>\<close>

type_synonym trust_doc = "(string \<times> pinned_key list) list"

record trust_store =
  ts_path :: string
  ts_doc :: trust_doc

definition in_memory :: trust_store where
  "in_memory = \<lparr> ts_path = [], ts_doc = [] \<rparr>"

text \<open>\<open>write\<close> stands for creating the parent directory and writing the file; a store
  without a path writes nothing.\<close>

definition store_save :: "(string \<Rightarrow> trust_doc \<Rightarrow> error + unit) \<Rightarrow> trust_store \<Rightarrow> error + unit" where
  "store_save write st = (if ts_path st = [] then Inr () else write (ts_path st) (ts_doc st))"

definition normalize_authority :: "string \<Rightarrow> error + string" where
  "normalize_authority auth =
     and_then (map_err (\<lambda>e. ETrust (''invalid authority '' @ quoted auth @ '': '' @ murl_error_display e))
                (murl_parse (''murl://'' @ auth @ ''/x'')))
       (\<lambda>m. Inr (authority_display (mu_authority m)))"

definition keys_of :: "trust_doc \<Rightarrow> string \<Rightarrow> pinned_key list" where
  "keys_of doc a = (case map_of doc a of Some ks \<Rightarrow> ks | None \<Rightarrow> [])"

text \<open>The two updates of the document.\<close>

definition doc_pin :: "string \<Rightarrow> pinned_key \<Rightarrow> trust_doc \<Rightarrow> trust_doc" where
  "doc_pin a key doc =
     (let entry = keys_of doc a in
      fst (map_insert a (if list_ex (\<lambda>k. pk_key_id k = pk_key_id key) entry then entry else entry @ [key]) doc))"

definition doc_unpin :: "string \<Rightarrow> string \<Rightarrow> trust_doc \<Rightarrow> bool \<times> trust_doc" where
  "doc_unpin a key_id doc =
     (case map_of doc a of
        None \<Rightarrow> (False, doc)
      | Some ks \<Rightarrow>
          let ks' = filter (\<lambda>k. pk_key_id k \<noteq> key_id) ks in
          (length ks' \<noteq> length ks,
           if ks' = [] then filter (\<lambda>e. fst e \<noteq> a) doc else fst (map_insert a ks' doc)))"

text \<open>State passing: the result, and the store afterwards (the document is changed
  before it is saved, so a failed save still leaves it changed in memory).\<close>

definition trust_add ::
  "ext \<Rightarrow> (string \<Rightarrow> trust_doc \<Rightarrow> error + unit) \<Rightarrow> string \<Rightarrow> string \<Rightarrow> nat \<Rightarrow> trust_store \<Rightarrow> (error + string) \<times> trust_store"
where
  "trust_add x write auth public_key now st =
     (case
        and_then (normalize_authority auth) (\<lambda>a.
        and_then (map_err (\<lambda>e. ETrust (''bad public key encoding: '' @ e)) (x_b64_decode x public_key)) (\<lambda>pk.
        if length pk \<noteq> 32 then Inl (ETrust ''public key must be 32 bytes'')
        else and_then (map_err (\<lambda>e. ETrust (''invalid ed25519 public key: '' @ e)) (x_ed_valid_key x pk)) (\<lambda>_.
          Inr (a, key_id_for x pk))))
      of
        Inl e \<Rightarrow> (Inl e, st)
      | Inr (a, key_id) \<Rightarrow>
          let key = \<lparr> pk_key_id = key_id, pk_public_key = public_key, pk_added_at = Some now \<rparr>;
              st' = st\<lparr> ts_doc := doc_pin a key (ts_doc st) \<rparr>
          in (and_then (store_save write st') (\<lambda>_. Inr key_id), st'))"

definition trust_remove ::
  "(string \<Rightarrow> trust_doc \<Rightarrow> error + unit) \<Rightarrow> string \<Rightarrow> string \<Rightarrow> trust_store \<Rightarrow> (error + bool) \<times> trust_store"
where
  "trust_remove write auth key_id st =
     (case normalize_authority auth of
        Inl e \<Rightarrow> (Inl e, st)
      | Inr a \<Rightarrow>
          let (removed, doc') = doc_unpin a key_id (ts_doc st);
              st' = st\<lparr> ts_doc := doc' \<rparr>
          in (and_then (store_save write st') (\<lambda>_. Inr removed), st'))"

definition is_trusted :: "trust_store \<Rightarrow> string \<Rightarrow> string \<Rightarrow> bool" where
  "is_trusted st auth key_id =
     (case normalize_authority auth of
        Inl _ \<Rightarrow> False
      | Inr a \<Rightarrow> list_ex (\<lambda>k. pk_key_id k = key_id) (keys_of (ts_doc st) a))"

definition trust_entries :: "trust_store \<Rightarrow> (string \<times> pinned_key) list" where
  "trust_entries st = concat (map (\<lambda>(a, ks). map (Pair a) ks) (ts_doc st))"

section \<open>Integrity pins\<close>

definition make_integrity :: "ext \<Rightarrow> bytes \<Rightarrow> string" where
  "make_integrity x b = ''sha256-'' @ x_b64_encode x (x_sha256 x b)"

definition check_integrity :: "ext \<Rightarrow> bytes \<Rightarrow> string \<Rightarrow> error + unit" where
  "check_integrity x b integrity =
     (case strip_prefix ''sha256-'' integrity of
        None \<Rightarrow> Inl (ETrust (''unsupported integrity algorithm in '' @ quoted integrity))
      | Some expected_b64 \<Rightarrow>
          and_then (map_err (\<lambda>e. ETrust (''bad integrity encoding: '' @ e)) (x_b64_decode x expected_b64)) (\<lambda>expected.
            if expected \<noteq> x_sha256 x b
            then Inl (ETrust ''integrity mismatch: nested manifest does not match its pin'')
            else Inr ()))"

section \<open>The contract of a key store\<close>

text \<open>What the callers of a store of pinned keys rely on: pinning adds exactly one
  (authority, key) pair and unpinning removes exactly one.\<close>

datatype ('a, 'e, 'k) pin_op = Pin 'a 'e | Unpin 'a 'k

locale key_pins =
  fixes inv :: "'st \<Rightarrow> bool"
    and key :: "'e \<Rightarrow> 'k"
    and pinned :: "'st \<Rightarrow> 'a \<Rightarrow> 'k \<Rightarrow> bool"
    and pin :: "'a \<Rightarrow> 'e \<Rightarrow> 'st \<Rightarrow> 'st"
    and unpin :: "'a \<Rightarrow> 'k \<Rightarrow> 'st \<Rightarrow> 'st"
  assumes pin_inv: "inv s \<Longrightarrow> inv (pin a e s)"
    and unpin_inv: "inv s \<Longrightarrow> inv (unpin a k s)"
    and pinned_pin: "inv s \<Longrightarrow> pinned (pin a e s) b j \<longleftrightarrow> (b = a \<and> j = key e) \<or> pinned s b j"
    and pinned_unpin: "inv s \<Longrightarrow> pinned (unpin a k s) b j \<longleftrightarrow> \<not> (b = a \<and> j = k) \<and> pinned s b j"
begin

definition apply_op :: "('a, 'e, 'k) pin_op \<Rightarrow> 'st \<Rightarrow> 'st" where
  "apply_op p s = (case p of Pin a e \<Rightarrow> pin a e s | Unpin a k \<Rightarrow> unpin a k s)"

text \<open>After any history a key is pinned exactly when the last operation on its pair
  was a pin (or there was none and it was pinned before).\<close>

lemma history:
  "inv s \<Longrightarrow> inv (fold apply_op ops s) \<and>
   (pinned (fold apply_op ops s) b j \<longleftrightarrow>
     fold (\<lambda>p was. case p of Pin a e \<Rightarrow> (b = a \<and> j = key e) \<or> was | Unpin a k \<Rightarrow> \<not> (b = a \<and> j = k) \<and> was)
       ops (pinned s b j))"
proof (induction ops arbitrary: s)
  case (Cons p ops)
  then show ?case
    by (cases p) (simp_all add: apply_op_def pin_inv unpin_inv pinned_pin pinned_unpin)
qed simp

lemma pinned_once: "inv s \<Longrightarrow> pinned (pin a e s) a (key e)"
  by (simp add: pinned_pin)

lemma unpinned: "inv s \<Longrightarrow> \<not> pinned (unpin a k s) a k"
  by (simp add: pinned_unpin)

end

definition doc_pinned :: "trust_doc \<Rightarrow> string \<Rightarrow> string \<Rightarrow> bool" where
  "doc_pinned doc a key_id \<longleftrightarrow> list_ex (\<lambda>k. pk_key_id k = key_id) (keys_of doc a)"

lemma map_insert_of: "wf_map m \<Longrightarrow> map_of (fst (map_insert k v m)) = (map_of m)(k \<mapsto> v) \<and> wf_map (fst (map_insert k v m))"
  by (cases "map_insert k v m") (use map_insert_spec in fastforce)

lemma map_of_remove: "map_of (filter (\<lambda>e. fst e \<noteq> k) m) = (map_of m)(k := None)"
  by (induction m) (auto simp: fun_eq_iff)

lemma wf_map_remove: "wf_map m \<Longrightarrow> wf_map (filter (\<lambda>e. P (fst e)) m)"
  by (induction m) auto

lemma doc_pinned_pin:
  "wf_map doc \<Longrightarrow> doc_pinned (doc_pin a e doc) b j \<longleftrightarrow> (b = a \<and> j = pk_key_id e) \<or> doc_pinned doc b j"
  by (auto simp: doc_pinned_def doc_pin_def keys_of_def Let_def map_insert_of list_ex_iff split: option.splits)

lemma doc_pinned_unpin:
  "wf_map doc \<Longrightarrow> doc_pinned (snd (doc_unpin a k doc)) b j \<longleftrightarrow> \<not> (b = a \<and> j = k) \<and> doc_pinned doc b j"
  by (auto simp: doc_pinned_def doc_unpin_def keys_of_def Let_def map_insert_of list_ex_iff map_of_remove
      filter_empty_conv split: option.splits)

interpretation pins: key_pins wf_map pk_key_id doc_pinned doc_pin "\<lambda>a k doc. snd (doc_unpin a k doc)"
proof
  fix s :: trust_doc and a e k b j
  assume wf: "wf_map s"
  show "wf_map (doc_pin a e s)" using wf by (simp add: doc_pin_def Let_def map_insert_of)
  show "wf_map (snd (doc_unpin a k s))"
    using wf wf_map_remove [OF wf, of "\<lambda>c. c \<noteq> a"]
    by (simp add: doc_unpin_def Let_def map_insert_of split: option.split)
  show "doc_pinned (doc_pin a e s) b j \<longleftrightarrow> (b = a \<and> j = pk_key_id e) \<or> doc_pinned s b j"
    using wf by (rule doc_pinned_pin)
  show "doc_pinned (snd (doc_unpin a k s)) b j \<longleftrightarrow> \<not> (b = a \<and> j = k) \<and> doc_pinned s b j"
    using wf by (rule doc_pinned_unpin)
qed

lemma is_trusted_doc:
  "is_trusted st auth k \<longleftrightarrow> (case normalize_authority auth of Inr a \<Rightarrow> doc_pinned (ts_doc st) a k | Inl _ \<Rightarrow> False)"
  by (simp add: is_trusted_def doc_pinned_def split: sum.split)

lemma trust_add_ok:
  "trust_add x write auth pub now st = (Inr k, st') \<Longrightarrow>
   \<exists>a pk. normalize_authority auth = Inr a \<and> x_b64_decode x pub = Inr pk \<and> length pk = 32 \<and> k = key_id_for x pk
     \<and> ts_doc st' = doc_pin a \<lparr> pk_key_id = k, pk_public_key = pub, pk_added_at = Some now \<rparr> (ts_doc st)"
  by (cases "normalize_authority auth"; cases "x_b64_decode x pub")
     (auto simp: trust_add_def Let_def split: if_splits sum.splits)

section \<open>Signatures\<close>

lemma signable_bytes_inject:
  assumes "signable_bytes x (JObj m) = Inr b" "signable_bytes x (JObj m') = Inr b"
  shows "obj_remove ''signature'' m = obj_remove ''signature'' m'"
  using assms write_inject(1) [of "JObj (obj_remove ''signature'' m)" b "JObj (obj_remove ''signature'' m')" b "[]" "[]"]
  by (simp add: signable_bytes_def canonical_json_bytes_def follows_def)

lemma obj_remove_insert:
  "wf_map m \<Longrightarrow> obj_remove k (obj_insert k v m) = obj_remove k m"
proof -
  have "filter (\<lambda>kv. fst kv \<noteq> k) (fst (map_insert k v m)) = filter (\<lambda>kv. fst kv \<noteq> k) m" for m :: "(string \<times> json) list"
    by (induction k v m rule: map_insert.induct) (auto split: prod.splits)
  then show ?thesis by (simp add: obj_remove_def obj_insert_def)
qed

lemma decode_sized_ok: "decode_sized x w m n s = Inr b \<longleftrightarrow> x_b64_decode x s = Inr b \<and> length b = n"
  by (auto simp: decode_sized_def split: if_splits)

text \<open>What a verified document guarantees.\<close>

lemma verify_manifest_ok:
  assumes "verify_manifest x raw = Inr (Some v)"
  obtains m block pk b sig_b64 sig where "raw = JObj m" "map_of m ''signature'' = Some (JObj block)"
    "map_of block ''alg'' = Some (JStr ''ed25519'')"
    "map_of block ''keyId'' = Some (JStr (vs_key_id v))"
    "map_of block ''publicKey'' = Some (JStr (vs_public_key_b64 v))"
    "map_of block ''sig'' = Some (JStr sig_b64)"
    "x_b64_decode x (vs_public_key_b64 v) = Inr pk" "length pk = 32" "vs_key_id v = key_id_for x pk"
    "x_b64_decode x sig_b64 = Inr sig" "length sig = 64"
    "signable_bytes x raw = Inr b" "x_ed_verify x pk b sig"
proof -
  obtain m block where m: "raw = JObj m" "map_of m ''signature'' = Some (JObj block)" "verify_block x raw block = Inr v"
    using assms by (auto simp: verify_manifest_def split: json.splits option.splits)
  have f: "signature_field block n = Inr s \<longleftrightarrow> map_of block n = Some (JStr s)" for n s
    by (auto simp: signature_field_def split: option.splits json.splits)
  show thesis
    using m(3) that [OF m(1,2)] by (auto simp: verify_block_def f decode_sized_ok split: if_splits)
qed

section \<open>Properties\<close>

lemma signed_verifies:
  assumes "ext_laws x" "wf_json raw" "sign_manifest x raw kp = Inr out"
  shows "verify_manifest x out
    = Inr (Some \<lparr> vs_key_id = keypair_key_id x kp, vs_public_key_b64 = public_key_b64 x kp \<rparr>)"
proof -
  obtain m b where m: "raw = JObj m" "signable_bytes x raw = Inr b"
    "out = JObj (obj_insert ''signature'' (signature_value x kp (keypair_sign x kp b)) m)"
    using assms(3) by (auto simp: sign_manifest_def signable_bytes_def split: json.splits)
  have wf: "wf_map m" using assms(2) m(1) by simp
  have bytes: "signable_bytes x out = Inr b"
    using m obj_remove_insert [OF wf] by (simp add: signable_bytes_def)
  have sig: "map_of (obj_insert ''signature'' (signature_value x kp (keypair_sign x kp b)) m) ''signature''
      = Some (signature_value x kp (keypair_sign x kp b))"
    using map_insert_of [OF wf] by (simp add: obj_insert_def)
  have laws: "x_b64_decode x (x_b64_encode x c) = Inr c" "length (x_ed_public x seed) = 32"
    "x_ed_valid_key x (x_ed_public x seed) = Inr ()" "length (x_ed_sign x seed c) = 64"
    "x_ed_verify x (x_ed_public x seed) c (x_ed_sign x seed c)" for c seed
    using assms(1) by (auto simp: ext_laws_def)
  show ?thesis
    using bytes sig unfolding m(3) verify_manifest_def
    by (simp add: signature_value_def verify_block_def signature_field_def decode_sized_def laws
        public_key_b64_def keypair_key_id_def keypair_sign_def)
qed

lemma signed_verifies_witness:
  "(case sign_manifest toy_ext (JObj [(''name'', JStr ''x'')]) \<lparr> kp_seed = ''seed'' \<rparr> of
      Inr out \<Rightarrow> verify_manifest toy_ext out
        = Inr (Some \<lparr> vs_key_id = keypair_key_id toy_ext \<lparr> kp_seed = ''seed'' \<rparr>,
                      vs_public_key_b64 = public_key_b64 toy_ext \<lparr> kp_seed = ''seed'' \<rparr> \<rparr>)
    | Inl _ \<Rightarrow> False)"
proof -
  have "is_ok (sign_manifest toy_ext (JObj [(''name'', JStr ''x'')]) \<lparr> kp_seed = ''seed'' \<rparr>)"
    by (simp add: sign_manifest_def signable_bytes_def canonical_json_bytes_def obj_remove_def)
  then obtain out where s: "sign_manifest toy_ext (JObj [(''name'', JStr ''x'')]) \<lparr> kp_seed = ''seed'' \<rparr> = Inr out"
    by (auto simp: is_ok_iff)
  have "wf_json (JObj [(''name'', JStr ''x'')])" by simp
  with signed_verifies [OF toy_ext_laws this s] s show ?thesis by simp
qed

text \<open>
  C16: tamper evidence. When verification succeeds, the signature verifies under the
  embedded 32-byte key over bytes that determine the document: any other object
  with the same signed bytes has the same members, the signature block apart.
\<close>

theorem verified_covers_document:
  assumes "verify_manifest x raw = Inr (Some v)"
  shows "\<exists>m pk b sig. raw = JObj m \<and> x_b64_decode x (vs_public_key_b64 v) = Inr pk \<and> length pk = 32
    \<and> vs_key_id v = key_id_for x pk \<and> length sig = 64 \<and> x_ed_verify x pk b sig \<and> signable_bytes x raw = Inr b
    \<and> (\<forall>m'. signable_bytes x (JObj m') = Inr b \<longrightarrow> obj_remove ''signature'' m' = obj_remove ''signature'' m)"
proof -
  from assms obtain m pk b sig where *: "raw = JObj m" "x_b64_decode x (vs_public_key_b64 v) = Inr pk" "length pk = 32"
    "vs_key_id v = key_id_for x pk" "length sig = 64" "signable_bytes x raw = Inr b" "x_ed_verify x pk b sig"
    by (rule verify_manifest_ok) blast
  then have "\<forall>m'. signable_bytes x (JObj m') = Inr b \<longrightarrow> obj_remove ''signature'' m' = obj_remove ''signature'' m"
    using signable_bytes_inject by blast
  with * show ?thesis by blast
qed

theorem verified_covers_document_witness:
  "\<exists>raw v m pk b sig. verify_manifest toy_ext raw = Inr (Some v) \<and> raw = JObj m
    \<and> x_ed_verify toy_ext pk b sig \<and> signable_bytes toy_ext raw = Inr b"
proof -
  have "(case sign_manifest toy_ext (JObj [(''name'', JStr ''x'')]) \<lparr> kp_seed = ''seed'' \<rparr> of
      Inr out \<Rightarrow> (case verify_manifest toy_ext out of Inr (Some v) \<Rightarrow> True | _ \<Rightarrow> False) | Inl _ \<Rightarrow> False)"
    by code_simp
  then obtain out v where "verify_manifest toy_ext out = Inr (Some v)"
    by (auto split: sum.splits option.splits)
  from verified_covers_document [OF this] this show ?thesis by blast
qed

text \<open>
  C17: the trust store over any history of changes. After a sequence of pins and
  unpins (each on a normalised authority) a key id is trusted for an authority
  exactly when the last of them on that pair was a pin, or there was none and it was
  trusted before.
\<close>

theorem trust_history:
  assumes "wf_map (ts_doc st)" "normalize_authority auth = Inr a"
    "ts_doc st' = fold (\<lambda>p doc. case p of Pin b e \<Rightarrow> doc_pin b e doc | Unpin b k \<Rightarrow> snd (doc_unpin b k doc)) ops (ts_doc st)"
  shows "is_trusted st' auth key_id \<longleftrightarrow>
    fold (\<lambda>p was. case p of Pin b e \<Rightarrow> (a = b \<and> key_id = pk_key_id e) \<or> was
                    | Unpin b k \<Rightarrow> \<not> (a = b \<and> key_id = k) \<and> was) ops (is_trusted st auth key_id)"
  using pins.history [OF assms(1), of ops a key_id] assms(2,3)
  by (simp add: is_trusted_doc pins.apply_op_def [abs_def])

theorem trust_history_witness:
  "is_trusted \<lparr> ts_path = [], ts_doc = fold (\<lambda>p doc. case p of Pin b e \<Rightarrow> doc_pin b e doc | Unpin b k \<Rightarrow> snd (doc_unpin b k doc))
       [Unpin ''acme.io'' ''k'', Pin ''acme.io'' \<lparr> pk_key_id = ''k'', pk_public_key = ''p'', pk_added_at = None \<rparr>] [] \<rparr> ''ACME.io'' ''k''"
  by (subst trust_history [where st = in_memory and a = "''acme.io''"
      and ops = "[Unpin ''acme.io'' ''k'', Pin ''acme.io'' \<lparr> pk_key_id = ''k'', pk_public_key = ''p'', pk_added_at = None \<rparr>]"])
     (simp add: in_memory_def, code_simp, simp add: in_memory_def, simp)

text \<open>
  \<open>trust add\<close> pins what it says: after a successful call the reported key id, the
  one derived from the 32 decoded key bytes, is trusted for the authority, and every
  other pair of authority and key id is trusted exactly when it was before.
\<close>

lemma trust_add_effect:
  assumes "wf_map (ts_doc st)" "trust_add x write auth pub now st = (Inr k, st')"
  shows "is_trusted st' auth k \<and> (\<exists>pk. x_b64_decode x pub = Inr pk \<and> length pk = 32 \<and> k = key_id_for x pk)
    \<and> (\<forall>b j. (normalize_authority b = normalize_authority auth \<and> j = k) \<or> is_trusted st' b j = is_trusted st b j)"
proof -
  obtain a pk where *: "normalize_authority auth = Inr a" "x_b64_decode x pub = Inr pk" "length pk = 32"
    "k = key_id_for x pk"
    "ts_doc st' = doc_pin a \<lparr> pk_key_id = k, pk_public_key = pub, pk_added_at = Some now \<rparr> (ts_doc st)"
    using trust_add_ok [OF assms(2)] by blast
  have "doc_pinned (ts_doc st') b j \<longleftrightarrow> (b = a \<and> j = k) \<or> doc_pinned (ts_doc st) b j" for b j
    unfolding *(5) using pins.pinned_pin [OF assms(1)] by simp
  then have "is_trusted st' auth k"
    "\<forall>b j. (normalize_authority b = normalize_authority auth \<and> j = k) \<or> is_trusted st' b j = is_trusted st b j"
    using *(1) by (auto simp: is_trusted_doc split: sum.splits)
  with * show ?thesis by blast
qed

lemma trust_add_effect_witness:
  "is_trusted (snd (trust_add toy_ext (\<lambda>_ _. Inr ()) ''acme.io'' (toy_hex (pad_to 32 ''k'')) 7 in_memory)) ''acme.io''
     (key_id_for toy_ext (pad_to 32 ''k''))"
proof -
  have "wf_map (ts_doc in_memory)" by (simp add: in_memory_def)
  moreover have "trust_add toy_ext (\<lambda>_ _. Inr ()) ''acme.io'' (toy_hex (pad_to 32 ''k'')) 7 in_memory
      = (Inr (key_id_for toy_ext (pad_to 32 ''k'')),
         snd (trust_add toy_ext (\<lambda>_ _. Inr ()) ''acme.io'' (toy_hex (pad_to 32 ''k'')) 7 in_memory))"
    by code_simp
  ultimately show ?thesis using trust_add_effect by blast
qed

text \<open>
  An integrity pin accepts exactly the contents with the pinned digest: the pin
  computed for some bytes accepts them, and two byte strings accepted by one pin have
  the same SHA-256.
\<close>

lemma integrity_pin:
  assumes "ext_laws x"
  shows "check_integrity x b (make_integrity x b) = Inr ()
    \<and> (check_integrity x b pin = Inr () \<and> check_integrity x c pin = Inr () \<longrightarrow> x_sha256 x b = x_sha256 x c)"
  using assms by (auto simp: check_integrity_def make_integrity_def ext_laws_def split: option.splits if_splits)

lemma integrity_pin_witness:
  "check_integrity toy_ext ''nested'' (make_integrity toy_ext ''nested'') = Inr ()"
  using integrity_pin [OF toy_ext_laws] by blast

section \<open>Two consequences of the code as written\<close>

text \<open>\<open>normalize_authority\<close> appends \<open>/x\<close> to its argument, so text after a slash is read
  as the start of the name and dropped: pinning a key \<^emph>\<open>for a path\<close> pins it for the
  whole host.\<close>

lemma normalize_authority_drops_path:
  "normalize_authority ''github.com/alice'' = Inr ''github.com''"
  by code_simp

text \<open>Trust is decided by the key id, 64 bits of a hash, never by the key: a signature
  by any key with the id of a pinned key is \<^emph>\<open>trusted\<close>.\<close>

lemma trust_by_key_id_only:
  "list_all2 (\<lambda>(a, ks) (b, js). a = b \<and> map pk_key_id ks = map pk_key_id js) (ts_doc st) (ts_doc st')
   \<Longrightarrow> is_trusted st auth k = is_trusted st' auth k"
proof -
  have ex: "list_ex (\<lambda>e. pk_key_id e = k) ks \<longleftrightarrow> k \<in> set (map pk_key_id ks)" for ks
    by (auto simp: list_ex_iff)
  assume l: "list_all2 (\<lambda>(a, ks) (b, js). a = b \<and> map pk_key_id ks = map pk_key_id js) (ts_doc st) (ts_doc st')"
  then have "map pk_key_id (keys_of (ts_doc st) a) = map pk_key_id (keys_of (ts_doc st') a)" for a
    by (induction rule: list_all2_induct) (auto simp: keys_of_def)
  then show ?thesis by (simp add: is_trusted_def ex split: sum.split)
qed

end
