(* ===== verification/Policy.thy ===== *)
theory Policy
  imports Trust
begin

text \<open>
  The policy engine of \<open>murl-core/src/policy.rs\<close>: the classification of a resource
  by what it is, and the decision of the local policy. The lemmas state the design
  rule of the module: no consent overrides a hard gate, and nothing is allowed
  silently unless the user's own policy says so.
\<close>

datatype tier = Safe | Sensitive | Dangerous

fun tier_display :: "tier \<Rightarrow> string" where
  "tier_display Safe = ''SAFE''"
| "tier_display Sensitive = ''SENSITIVE''"
| "tier_display Dangerous = ''DANGEROUS''"

text \<open>\<open>derive(PartialOrd, Ord)\<close>: the declaration order.\<close>

definition tier_rank :: "tier \<Rightarrow> nat" where
  "tier_rank t = (case t of Safe \<Rightarrow> 0 | Sensitive \<Rightarrow> 1 | Dangerous \<Rightarrow> 2)"

instantiation tier :: linorder
begin

definition less_eq_tier :: "tier \<Rightarrow> tier \<Rightarrow> bool" where
  "less_eq_tier a b \<longleftrightarrow> tier_rank a \<le> tier_rank b"

definition less_tier :: "tier \<Rightarrow> tier \<Rightarrow> bool" where
  "less_tier a b \<longleftrightarrow> tier_rank a < tier_rank b"

instance
  by standard (auto simp: less_eq_tier_def less_tier_def tier_rank_def split: tier.splits)

end

fun classify :: "kind \<Rightarrow> string \<Rightarrow> tier" where
  "classify Https target = Safe"
| "classify kind.Murl target = Safe"
| "classify Dir target = Sensitive"
| "classify File target = (if has_executable_extension target then Dangerous else Sensitive)"
| "classify Terminal target = Dangerous"
| "classify Ssh target = Dangerous"
| "classify RemoteDesktop target = Dangerous"
| "classify Geo target = Safe"
| "classify Mailto target = Safe"
| "classify (Custom _) target = Dangerous"

datatype consent_mode = CAllow | CPrompt | CDeny

record policy =
  po_safe :: consent_mode
  po_sensitive :: consent_mode
  po_dangerous :: consent_mode
  po_dangerous_requires_trust :: bool
  po_remote_filesystem_refs :: consent_mode

definition default_policy :: policy where
  "default_policy = \<lparr> po_safe = CPrompt, po_sensitive = CPrompt, po_dangerous = CPrompt,
     po_dangerous_requires_trust = True, po_remote_filesystem_refs = CPrompt \<rparr>"

record eval_context =
  ec_trust :: trust_status
  ec_manifest_expired :: bool
  ec_manifest_premature :: bool
  ec_remote_origin :: bool

datatype decision = Allow | Prompt "string list" | Deny string

definition mode_for :: "policy \<Rightarrow> tier \<Rightarrow> consent_mode" where
  "mode_for p t = (case t of Safe \<Rightarrow> po_safe p | Sensitive \<Rightarrow> po_sensitive p | Dangerous \<Rightarrow> po_dangerous p)"

definition evaluate :: "policy \<Rightarrow> kind \<Rightarrow> tier \<Rightarrow> eval_context \<Rightarrow> decision" where
  "evaluate p k t ctx =
     (if t = Dangerous \<and> po_dangerous_requires_trust p \<and> \<not> is_trusted_status (ec_trust ctx)
      then Deny (''DANGEROUS resource from an untrusted manifest ('' @ trust_status_display (ec_trust ctx)
             @ ''); pin the signing key with `murl trust add` or install the manifest locally'')
      else if ec_manifest_expired ctx \<and> t \<noteq> Safe then Deny ''manifest is expired''
      else if ec_manifest_premature ctx \<and> t \<noteq> Safe then Deny ''manifest is not yet valid (notBefore)''
      else
        let mode = mode_for p t in
        if mode = CDeny then Deny (tier_display t @ '' resources are disabled by policy'')
        else
          let r1 = (if mode = CPrompt then [tier_display t @ '' resource''] else []);
              r2 = r1 @ (if ec_manifest_expired ctx then [''manifest is expired''] else []);
              r3 = r2 @ (if ec_manifest_premature ctx then [''manifest is not yet valid (notBefore)''] else []);
              fs = ec_remote_origin ctx \<and> is_filesystem k in
          if fs \<and> po_remote_filesystem_refs p = CDeny
          then Deny ''remote manifests may not reference the local filesystem (policy)''
          else
            let r4 = r3 @ (if fs \<and> po_remote_filesystem_refs p = CPrompt
                           then [''remote manifest references the local filesystem''] else []);
                r5 = r4 @ (if t = Dangerous \<and> \<not> is_trusted_status (ec_trust ctx)
                           then [''dangerous resource from an untrusted manifest''] else [])
            in if r5 = [] then Allow else Prompt r5)"

section \<open>Properties\<close>

text \<open>
  The decision table of the policy engine. A resource is refused exactly when one
  of the hard gates or the user's own policy refuses it (dangerous and untrusted
  while trust is required; not SAFE in an expired or premature manifest; a tier or
  remote filesystem references set to deny). It is allowed silently exactly when
  nothing refuses, its tier is set to allow, the manifest is in its validity window,
  remote filesystem references need no prompt, and it is not dangerous from an
  untrusted manifest.
\<close>

lemma evaluate_decision:
  "((\<exists>r. evaluate p k t ctx = Deny r) \<longleftrightarrow>
      (t = Dangerous \<and> po_dangerous_requires_trust p \<and> \<not> is_trusted_status (ec_trust ctx))
      \<or> ((ec_manifest_expired ctx \<or> ec_manifest_premature ctx) \<and> Safe < t)
      \<or> mode_for p t = CDeny
      \<or> (ec_remote_origin ctx \<and> is_filesystem k \<and> po_remote_filesystem_refs p = CDeny))
   \<and> (evaluate p k t ctx = Allow \<longleftrightarrow>
      mode_for p t = CAllow \<and> \<not> ec_manifest_expired ctx \<and> \<not> ec_manifest_premature ctx
      \<and> (if ec_remote_origin ctx \<and> is_filesystem k then po_remote_filesystem_refs p = CAllow else True)
      \<and> (if t = Dangerous then is_trusted_status (ec_trust ctx) else True))"
proof -
  have safe: "Safe < t \<longleftrightarrow> t \<noteq> Safe" by (cases t) (simp_all add: less_tier_def tier_rank_def)
  show ?thesis
    unfolding safe
    by (cases "mode_for p t"; cases "po_remote_filesystem_refs p") (auto simp: evaluate_def Let_def)
qed

text \<open>
  Under the default policy nothing is ever allowed without asking, and no
  dangerous resource of an untrusted manifest can even be asked about.
\<close>

lemma default_policy_asks:
  "evaluate default_policy k t ctx \<noteq> Allow
   \<and> (\<not> is_trusted_status (ec_trust ctx) \<and> t = Dangerous \<longrightarrow> (\<exists>r. evaluate default_policy k t ctx = Deny r))"
  by (cases t) (auto simp: evaluate_def default_policy_def mode_for_def Let_def)

lemma default_policy_asks_witness:
  "(let ctx = \<lparr> ec_trust = TUnsignedRemote, ec_manifest_expired = False, ec_manifest_premature = False,
                ec_remote_origin = True \<rparr>
    in \<exists>r. evaluate default_policy Ssh (classify Ssh ''ssh://h'') ctx = Deny r)"
  unfolding Let_def by (rule mp [OF conjunct2 [OF default_policy_asks]]) simp

end
