(* ===== verification/Resolution.thy ===== *)
theory Resolution
  imports Policy Fetch
begin

text \<open>
  The result of resolving a name, \<open>murl-core/src/resolver.rs\<close>: where manifests come
  from, the nodes of the manifest tree, the planned resources, the policy pass, the
  JSON form, and how far from the machine a manifest lives. The resolver itself is
  in the theory \<open>Resolver\<close>.
\<close>

section \<open>Origins, nodes and resources\<close>

text \<open>A path is its displayed form.\<close>

datatype origin =
    LocalStore string
  | LocalFile string
  | RemoteOrigin (or_url: string) (or_from_cache: bool)

fun is_remote :: "origin \<Rightarrow> bool" where
  "is_remote (RemoteOrigin _ _) = True"
| "is_remote _ = False"

fun origin_describe :: "origin \<Rightarrow> string" where
  "origin_describe (LocalStore p) = ''local store ('' @ p @ '')''"
| "origin_describe (LocalFile p) = ''file ('' @ p @ '')''"
| "origin_describe (RemoteOrigin url True) = ''cache ('' @ url @ '')''"
| "origin_describe (RemoteOrigin url False) = ''remote ('' @ url @ '')''"

record resolved_node =
  rn_identity :: "string option"
  rn_origin :: origin
  rn_manifest :: manifest
  rn_raw_bytes :: bytes
  rn_trust :: trust_status
  rn_depth :: nat
  rn_expired :: bool
  rn_premature :: bool

record planned_resource =
  pr_resource :: resource_doc
  pr_kind :: kind
  pr_tier :: tier
  pr_node :: nat
  pr_root_anchor :: string
  pr_decision :: "decision option"

definition display_label :: "planned_resource \<Rightarrow> string" where
  "display_label pr = (case rd_label (pr_resource pr) of Some l \<Rightarrow> l | None \<Rightarrow> rd_id (pr_resource pr))"

record resolution =
  rs_nodes :: "resolved_node list"
  rs_resources :: "planned_resource list"
  rs_warnings :: "string list"
  rs_selector :: "string option"

text \<open>Indexing panics out of range: \<open>None\<close>.\<close>

definition nth_opt :: "'a list \<Rightarrow> nat \<Rightarrow> 'a option" where
  "nth_opt xs i = (if i < length xs then Some (xs ! i) else None)"

definition root_node :: "resolution \<Rightarrow> resolved_node option" where
  "root_node r = nth_opt (rs_nodes r) 0"

definition node_context :: "resolved_node \<Rightarrow> eval_context" where
  "node_context n = \<lparr> ec_trust = rn_trust n, ec_manifest_expired = rn_expired n,
     ec_manifest_premature = rn_premature n, ec_remote_origin = is_remote (rn_origin n) \<rparr>"

fun decide_all :: "policy \<Rightarrow> resolved_node list \<Rightarrow> planned_resource list \<Rightarrow> planned_resource list option" where
  "decide_all p nodes [] = Some []"
| "decide_all p nodes (pr # prs) =
     (case nth_opt nodes (pr_node pr) of
        None \<Rightarrow> None
      | Some n \<Rightarrow>
          let pr' = pr\<lparr> pr_decision := Some (evaluate p (pr_kind pr) (pr_tier pr) (node_context n)) \<rparr> in
          (case decide_all p nodes prs of None \<Rightarrow> None | Some prs' \<Rightarrow> Some (pr' # prs')))"

definition apply_policy :: "policy \<Rightarrow> resolution \<Rightarrow> resolution option" where
  "apply_policy p r =
     (case decide_all p (rs_nodes r) (rs_resources r) of
        None \<Rightarrow> None
      | Some prs \<Rightarrow> Some (r\<lparr> rs_resources := prs \<rparr>))"

section \<open>The JSON form\<close>

text \<open>The \<open>json!\<close> literal builds a sorted map.\<close>

definition json_obj :: "(string \<times> json) list \<Rightarrow> json" where
  "json_obj kvs = JObj (fold (\<lambda>(k, v) m. obj_insert k v m) kvs [])"

definition json_opt :: "('a \<Rightarrow> json) \<Rightarrow> 'a option \<Rightarrow> json" where
  "json_opt f v = (case v of None \<Rightarrow> JNull | Some a \<Rightarrow> f a)"

definition json_nat :: "nat \<Rightarrow> json" where
  "json_nat n = JNum (NInt (int n))"

fun trust_json :: "trust_status \<Rightarrow> json" where
  "trust_json TLocal = json_obj [(''status'', JStr ''local'')]"
| "trust_json TUnsignedRemote = json_obj [(''status'', JStr ''unsignedRemote'')]"
| "trust_json (TSignedUnknownKey k) = json_obj [(''status'', JStr ''signedUnknownKey''), (''key_id'', JStr k)]"
| "trust_json (TSignedTrusted k) = json_obj [(''status'', JStr ''signedTrusted''), (''key_id'', JStr k)]"

fun decision_json :: "decision \<Rightarrow> json" where
  "decision_json Allow = json_obj [(''decision'', JStr ''allow'')]"
| "decision_json (Prompt rs) = json_obj [(''decision'', JStr ''prompt''), (''reasons'', JArr (map JStr rs))]"
| "decision_json (Deny r) = json_obj [(''decision'', JStr ''deny''), (''reasons'', JStr r)]"

definition node_json :: "resolved_node \<Rightarrow> json" where
  "node_json n = json_obj
     [(''identity'', json_opt JStr (rn_identity n)),
      (''origin'', JStr (origin_describe (rn_origin n))),
      (''remote'', JBool (is_remote (rn_origin n))),
      (''name'', JStr (md_name (mf_doc (rn_manifest n)))),
      (''trust'', trust_json (rn_trust n)),
      (''depth'', json_nat (rn_depth n)),
      (''expired'', JBool (rn_expired n)),
      (''notYetValid'', JBool (rn_premature n))]"

definition planned_json :: "planned_resource \<Rightarrow> json" where
  "planned_json pr = json_obj
     [(''id'', JStr (rd_id (pr_resource pr))),
      (''label'', JStr (display_label pr)),
      (''kind'', JStr (kind_display (pr_kind pr))),
      (''target'', JStr (rd_target (pr_resource pr))),
      (''role'', json_opt JStr (rd_role (pr_resource pr))),
      (''required'', JBool (rd_required (pr_resource pr))),
      (''tier'', JStr (tier_display (pr_tier pr))),
      (''node'', json_nat (pr_node pr)),
      (''rootAnchor'', JStr (pr_root_anchor pr)),
      (''decision'', json_opt decision_json (pr_decision pr))]"

definition resolution_json :: "resolution \<Rightarrow> json" where
  "resolution_json r = json_obj
     [(''selector'', json_opt JStr (rs_selector r)),
      (''warnings'', JArr (map JStr (rs_warnings r))),
      (''nodes'', JArr (map node_json (rs_nodes r))),
      (''resources'', JArr (map planned_json (rs_resources r)))]"

section \<open>Locality\<close>

datatype locality = ThisDevice | Loopback | Network

text \<open>\<open>derive(PartialOrd, Ord)\<close>: the declaration order.\<close>

instantiation locality :: linorder
begin

definition locality_rank :: "locality \<Rightarrow> nat" where
  "locality_rank l = (case l of ThisDevice \<Rightarrow> 0 | Loopback \<Rightarrow> 1 | Network \<Rightarrow> 2)"

definition less_eq_locality :: "locality \<Rightarrow> locality \<Rightarrow> bool" where
  "less_eq_locality a b \<longleftrightarrow> locality_rank a \<le> locality_rank b"

definition less_locality :: "locality \<Rightarrow> locality \<Rightarrow> bool" where
  "less_locality a b \<longleftrightarrow> locality_rank a < locality_rank b"

instance
  by standard (auto simp: less_eq_locality_def less_locality_def locality_rank_def split: locality.splits)

end

definition locality_of :: "authority \<Rightarrow> locality" where
  "locality_of a = (if is_local a then ThisDevice else if is_loopback a then Loopback else Network)"

definition locality_of_source :: "origin \<Rightarrow> murl option \<Rightarrow> locality" where
  "locality_of_source orig m =
     (case orig of
        RemoteOrigin _ _ \<Rightarrow> (case m of Some k \<Rightarrow> locality_of (mu_authority k) | None \<Rightarrow> Network)
      | _ \<Rightarrow> ThisDevice)"

fun locality_describe :: "locality \<Rightarrow> string" where
  "locality_describe ThisDevice = ''this machine''"
| "locality_describe Loopback = ''a loopback server''"
| "locality_describe Network = ''the network''"

lemma ThisDevice_least [simp]: "ThisDevice \<le> l"
  by (simp add: less_eq_locality_def locality_rank_def)

section \<open>The policy pass\<close>

lemma decide_all_Some:
  "list_all (\<lambda>pr. pr_node pr < length nodes) prs \<Longrightarrow>
   decide_all p nodes prs = Some (map (\<lambda>pr. pr\<lparr> pr_decision :=
     Some (evaluate p (pr_kind pr) (pr_tier pr) (node_context (nodes ! pr_node pr))) \<rparr>) prs)"
  by (induction prs) (simp_all add: nth_opt_def Let_def)

lemma decide_all_None_iff:
  "decide_all p nodes prs = None \<longleftrightarrow> \<not> list_all (\<lambda>pr. pr_node pr < length nodes) prs"
  by (induction prs) (auto simp: nth_opt_def Let_def split: option.splits)

end
