(* ===== verification/Protocol.thy ===== *)
theory Protocol
  imports Resolution Doc
begin

text \<open>
  The wire protocol of the daemon, \<open>murl-daemon/src/protocol.rs\<close>: one JSON object per
  line, a closed set of requests, an exact version. The readers follow the derived
  serde code of an internally tagged enum that denies unknown fields; their messages
  are summaries of serde's.
\<close>

section \<open>Requests and responses\<close>

definition PROTOCOL_VERSION :: "32 word" where
  "PROTOCOL_VERSION = 1"

definition MAX_LINE_BYTES :: nat where
  "MAX_LINE_BYTES = 8 * 1024"

datatype wire_request =
    Ping "32 word"
  | ResolveReq "32 word" string
  | Activate "32 word" string "string list"
  | StatusReq "32 word"

fun request_protocol :: "wire_request \<Rightarrow> 32 word" where
  "request_protocol (Ping p) = p"
| "request_protocol (ResolveReq p _) = p"
| "request_protocol (Activate p _ _) = p"
| "request_protocol (StatusReq p) = p"

fun request_name :: "wire_request \<Rightarrow> string" where
  "request_name (Ping _) = ''ping''"
| "request_name (ResolveReq _ _) = ''resolve''"
| "request_name (Activate _ _ _) = ''activate''"
| "request_name (StatusReq _) = ''status''"

datatype response =
    RPong "32 word" string
  | RPlan json
  | RConsent (granted: "string list") (denied: "string list")
  | ROutcome json
  | RStatus string "64 word" "64 word" string
  | RError (stage: string) (message: string)

section \<open>Writing\<close>

definition jstr_list :: "string list \<Rightarrow> json" where
  "jstr_list ss = JArr (map JStr ss)"

definition jword :: "'a::len word \<Rightarrow> json" where
  "jword w = JNum (NInt (uint w))"

text \<open>The members of a request, tag first, as the derived \<open>Serialize\<close> writes them.\<close>

fun request_members :: "wire_request \<Rightarrow> (string \<times> json) list" where
  "request_members (Ping p) = [(''type'', JStr ''ping''), (''protocol'', jword p)]"
| "request_members (ResolveReq p u) = [(''type'', JStr ''resolve''), (''protocol'', jword p), (''murl'', JStr u)]"
| "request_members (Activate p u only) =
     [(''type'', JStr ''activate''), (''protocol'', jword p), (''murl'', JStr u), (''only'', jstr_list only)]"
| "request_members (StatusReq p) = [(''type'', JStr ''status''), (''protocol'', jword p)]"

fun response_members :: "response \<Rightarrow> (string \<times> json) list" where
  "response_members (RPong p v) = [(''type'', JStr ''pong''), (''protocol'', jword p), (''version'', JStr v)]"
| "response_members (RPlan r) = [(''type'', JStr ''plan''), (''resolution'', r)]"
| "response_members (RConsent g d) = [(''type'', JStr ''consent''), (''granted'', jstr_list g), (''denied'', jstr_list d)]"
| "response_members (ROutcome r) = [(''type'', JStr ''outcome''), (''report'', r)]"
| "response_members (RStatus v up n sock) =
     [(''type'', JStr ''status''), (''version'', JStr v), (''uptime_secs'', jword up), (''activations'', jword n),
      (''socket'', JStr sock)]"
| "response_members (RError st m) = [(''type'', JStr ''error''), (''stage'', JStr st), (''message'', JStr m)]"

text \<open>\<open>serde_json::to_string\<close>: compact, strings escaped as in the canonical form, members in
  the order the value has them.\<close>

fun json_text :: "ext \<Rightarrow> json \<Rightarrow> string"
  and items_text :: "ext \<Rightarrow> bool \<Rightarrow> json list \<Rightarrow> string"
  and members_text :: "ext \<Rightarrow> bool \<Rightarrow> (string \<times> json) list \<Rightarrow> string"
where
  "json_text x JNull = ''null''"
| "json_text x (JBool b) = (if b then ''true'' else ''false'')"
| "json_text x (JNum (NInt i)) = dec_of_int i"
| "json_text x (JNum (NFloat f)) = x_f64_text x f"
| "json_text x (JStr s) = write_string s"
| "json_text x (JArr vs) = ''['' @ items_text x True vs @ '']''"
| "json_text x (JObj m) = ''{'' @ members_text x True m @ ''}''"
| "items_text x first [] = []"
| "items_text x first (v # vs) = (if first then [] else '','') @ json_text x v @ items_text x False vs"
| "members_text x first [] = []"
| "members_text x first ((k, v) # m) =
     (if first then [] else '','') @ write_string k @ '':'' @ json_text x v @ members_text x False m"

definition LF :: char where
  "LF = CHR 0x0A"

text \<open>Plain data always serialises, so the fallback of the source is not reached.\<close>

definition to_line :: "ext \<Rightarrow> response \<Rightarrow> string" where
  "to_line x r = json_text x (JObj (response_members r)) @ [LF]"

definition request_text :: "ext \<Rightarrow> wire_request \<Rightarrow> string" where
  "request_text x req = json_text x (JObj (request_members req))"

section \<open>Reading\<close>

definition de_u32 :: "json \<Rightarrow> string + 32 word" where
  "de_u32 v =
     (case v of
        JNum (NInt i) \<Rightarrow> if 0 \<le> i \<and> i < 2 ^ 32 then Inr (word_of_int i) else Inl ''invalid value: expected u32''
      | _ \<Rightarrow> Inl ''invalid type: expected u32'')"

text \<open>The content of a tagged value: its members but the tag, or its elements but the first.\<close>

definition tagged :: "json \<Rightarrow> string + (string \<times> json)" where
  "tagged v =
     (case v of
        JObj m \<Rightarrow>
          (case map_of m ''type'' of
             None \<Rightarrow> Inl ''missing field `type`''
           | Some t \<Rightarrow> and_then (de_string t) (\<lambda>tag. Inr (tag, JObj (filter (\<lambda>kv. fst kv \<noteq> ''type'') m))))
      | JArr [] \<Rightarrow> Inl ''missing field `type`''
      | JArr (t # vs) \<Rightarrow> and_then (de_string t) (\<lambda>tag. Inr (tag, JArr vs))
      | _ \<Rightarrow> Inl ''invalid type: expected internally tagged enum Request'')"

text \<open>\<open>deny_unknown_fields\<close>.\<close>

definition known_fields :: "string list \<Rightarrow> json \<Rightarrow> string + (string \<Rightarrow> json option)" where
  "known_fields names v =
     (case v of
        JObj m \<Rightarrow>
          (case find (\<lambda>kv. fst kv \<notin> set names) m of
             Some kv \<Rightarrow> Inl (''unknown field '' @ quoted (fst kv))
           | None \<Rightarrow> fields_of names v)
      | _ \<Rightarrow> fields_of names v)"

definition de_request :: "json \<Rightarrow> string + wire_request" where
  "de_request v =
     and_then (tagged v) (\<lambda>(tag, content).
       if tag = ''ping'' then
         and_then (known_fields [''protocol''] content) (\<lambda>f.
         and_then (required de_u32 f ''protocol'') (\<lambda>p. Inr (Ping p)))
       else if tag = ''resolve'' then
         and_then (known_fields [''protocol'', ''murl''] content) (\<lambda>f.
         and_then (required de_u32 f ''protocol'') (\<lambda>p.
         and_then (required de_string f ''murl'') (\<lambda>u. Inr (ResolveReq p u))))
       else if tag = ''activate'' then
         and_then (known_fields [''protocol'', ''murl'', ''only''] content) (\<lambda>f.
         and_then (required de_u32 f ''protocol'') (\<lambda>p.
         and_then (required de_string f ''murl'') (\<lambda>u.
         and_then (defaulted [] (de_vec de_string) f ''only'') (\<lambda>only. Inr (Activate p u only)))))
       else if tag = ''status'' then
         and_then (known_fields [''protocol''] content) (\<lambda>f.
         and_then (required de_u32 f ''protocol'') (\<lambda>p. Inr (StatusReq p)))
       else Inl (''unknown variant '' @ quoted tag))"

definition protocol_error :: "string \<Rightarrow> response" where
  "protocol_error m = RError ''protocol'' m"

definition parse_request :: "ext \<Rightarrow> string \<Rightarrow> response + wire_request" where
  "parse_request x line =
     (if MAX_LINE_BYTES < length line
      then Inl (protocol_error (''request exceeds '' @ dec_of_nat MAX_LINE_BYTES @ '' bytes''))
      else
        and_then (map_err (\<lambda>e. protocol_error (''malformed request: '' @ e)) (from_slice_strict (x_events x) line)) (\<lambda>v.
        and_then (map_err (\<lambda>e. protocol_error (''unsupported request: '' @ e)) (de_request v)) (\<lambda>req.
          if request_protocol req \<noteq> PROTOCOL_VERSION
          then Inl (protocol_error (''protocol version '' @ dec_of_nat (unat (request_protocol req))
                 @ '' is not supported (this daemon speaks '' @ dec_of_nat (unat PROTOCOL_VERSION) @ '')''))
          else Inr req)))"

section \<open>Lemmas\<close>

lemma de_u32_iff: "de_u32 v = Inr p \<longleftrightarrow> v = jword p"
proof -
  have "0 \<le> uint p \<and> uint p < 2 ^ 32 \<and> (word_of_int (uint p) :: 32 word) = p"
    using uint_lt2p [of p] by simp
  moreover have "uint (word_of_int i :: 32 word) = i" if "0 \<le> i" "i < 2 ^ 32" for i :: int
    using that by (simp add: uint_word_of_int)
  ultimately show ?thesis by (auto simp: de_u32_def jword_def split: json.splits number.splits)
qed

lemma de_string_iff: "de_string v = Inr s \<longleftrightarrow> v = JStr s"
  by (auto simp: de_string_def split: json.splits)

lemma traverse_strings: "traverse de_string xs = Inr ss \<longleftrightarrow> xs = map JStr ss"
  by (induction xs arbitrary: ss) (auto simp: de_string_iff)

lemma de_strings_iff: "de_vec de_string v = Inr ss \<longleftrightarrow> v = jstr_list ss"
  by (auto simp: de_vec_def jstr_list_def traverse_strings split: json.splits)

lemma required_iff: "required rd f k = Inr a \<longleftrightarrow> (\<exists>v. f k = Some v \<and> rd v = Inr a)"
  by (auto simp: required_def split: option.splits)

lemma defaulted_iff: "defaulted d rd f k = Inr a \<longleftrightarrow> f k = None \<and> a = d \<or> (\<exists>v. f k = Some v \<and> rd v = Inr a)"
  by (auto simp: defaulted_def split: option.splits)

lemma map_of_filter_ne: "map_of (filter (\<lambda>kv. fst kv \<noteq> t) m) = (map_of m)(t := None)"
  by (induction m) (auto simp: fun_eq_iff)

lemma known_fields_iff:
  "known_fields names (JObj m) = Inr f \<longleftrightarrow> dom (map_of m) \<subseteq> set names \<and> f = map_of m"
proof -
  have "find (\<lambda>kv. fst kv \<notin> set names) m = None \<longleftrightarrow> dom (map_of m) \<subseteq> set names"
    unfolding find_None_iff dom_map_of_conv_image_fst by blast
  then show ?thesis by (auto simp: known_fields_def fields_of_def split: option.splits)
qed

lemma tagged_iff:
  "tagged (JObj m) = Inr (tag, c) \<longleftrightarrow>
     map_of m ''type'' = Some (JStr tag) \<and> c = JObj (filter (\<lambda>kv. fst kv \<noteq> ''type'') m)"
  by (auto simp: tagged_def de_string_iff split: option.splits)

text \<open>A map given by its entries.\<close>

lemma map_entries:
  assumes "distinct (map fst kvs)"
  shows "f = map_of kvs \<longleftrightarrow> list_all (\<lambda>(k, v). f k = Some v) kvs \<and> dom f \<subseteq> fst ` set kvs"
proof
  assume "f = map_of kvs"
  then show "list_all (\<lambda>(k, v). f k = Some v) kvs \<and> dom f \<subseteq> fst ` set kvs"
    using assms by (auto simp: list_all_iff dom_map_of_conv_image_fst)
next
  assume a: "list_all (\<lambda>(k, v). f k = Some v) kvs \<and> dom f \<subseteq> fst ` set kvs"
  show "f = map_of kvs"
  proof
    fix k
    show "f k = map_of kvs k"
    proof (cases "map_of kvs k")
      case None
      then have "k \<notin> dom f" using a by (auto simp: map_of_eq_None_iff)
      then show ?thesis using None by (simp add: domIff)
    next
      case (Some v)
      then have "(k, v) \<in> set kvs" by (rule map_of_SomeD)
      then show ?thesis using a Some by (auto simp: list_all_iff)
    qed
  qed
qed

text \<open>The content of each variant.\<close>

definition content_of :: "(string \<times> json) list \<Rightarrow> string \<Rightarrow> string list \<Rightarrow> bool" where
  "content_of m tag names \<longleftrightarrow>
     map_of m ''type'' = Some (JStr tag) \<and> dom ((map_of m)(''type'' := None)) \<subseteq> set names"

lemma read_variant:
  "tagged (JObj m) = Inr (tag, c) \<Longrightarrow>
     and_then (known_fields names c) k = Inr r \<longleftrightarrow> content_of m tag names \<and> k ((map_of m)(''type'' := None)) = Inr r"
  by (auto simp: tagged_iff known_fields_iff map_of_filter_ne content_of_def)

lemma content_of_iff:
  "content_of m tag names \<longleftrightarrow> map_of m ''type'' = Some (JStr tag) \<and> dom (map_of m) \<subseteq> insert ''type'' (set names)"
  by (auto simp: content_of_def)

definition activate_members :: "32 word \<Rightarrow> string \<Rightarrow> (string \<times> json) list" where
  "activate_members p u = [(''type'', JStr ''activate''), (''protocol'', jword p), (''murl'', JStr u)]"

lemma request_keys: "distinct (map fst (request_members req))" "distinct (map fst (activate_members p u))"
  by (cases req) (simp_all add: activate_members_def)

lemmas read_fields = required_iff defaulted_iff de_u32_iff de_string_iff de_strings_iff content_of_iff

text \<open>The four variants, each as the members it is written with; the narrowing list may
  be left out.\<close>

lemma read_ping:
  "content_of m ''ping'' [''protocol''] \<and> required de_u32 ((map_of m)(''type'' := None)) ''protocol'' = Inr p
     \<longleftrightarrow> map_of m = map_of (request_members (Ping p))"
  unfolding map_entries [OF request_keys(1)] by (auto simp: read_fields)

lemma read_status:
  "content_of m ''status'' [''protocol''] \<and> required de_u32 ((map_of m)(''type'' := None)) ''protocol'' = Inr p
     \<longleftrightarrow> map_of m = map_of (request_members (StatusReq p))"
  unfolding map_entries [OF request_keys(1)] by (auto simp: read_fields)

lemma read_resolve:
  "content_of m ''resolve'' [''protocol'', ''murl'']
     \<and> required de_u32 ((map_of m)(''type'' := None)) ''protocol'' = Inr p
     \<and> required de_string ((map_of m)(''type'' := None)) ''murl'' = Inr u
     \<longleftrightarrow> map_of m = map_of (request_members (ResolveReq p u))"
  unfolding map_entries [OF request_keys(1)] by (auto simp: read_fields)

lemma dom_without:
  "f d = None \<Longrightarrow> dom f \<subseteq> insert a (insert b (insert c (insert d {}))) \<longleftrightarrow> dom f \<subseteq> insert a (insert b (insert c {}))"
  by (auto simp: dom_def)

lemma dom_with: "f d = Some v \<Longrightarrow> d \<notin> S \<Longrightarrow> \<not> dom f \<subseteq> S"
  by (auto simp: dom_def)

lemma read_activate:
  "content_of m ''activate'' [''protocol'', ''murl'', ''only'']
     \<and> required de_u32 ((map_of m)(''type'' := None)) ''protocol'' = Inr p
     \<and> required de_string ((map_of m)(''type'' := None)) ''murl'' = Inr u
     \<and> defaulted [] (de_vec de_string) ((map_of m)(''type'' := None)) ''only'' = Inr only
     \<longleftrightarrow> map_of m = map_of (request_members (Activate p u only)) \<or> only = [] \<and> map_of m = map_of (activate_members p u)"
proof (cases "map_of m ''only''")
  case None
  then have "dom (map_of m) \<subseteq> insert ''type'' (insert ''protocol'' (insert ''murl'' (insert ''only'' {})))
      \<longleftrightarrow> dom (map_of m) \<subseteq> insert ''type'' (insert ''protocol'' (insert ''murl'' {}))"
    by (rule dom_without)
  with None show ?thesis
    unfolding map_entries [OF request_keys(1)] map_entries [OF request_keys(2)]
    by (simp add: read_fields activate_members_def conj_ac)
next
  case (Some v)
  then have "\<not> dom (map_of m) \<subseteq> insert ''type'' (insert ''protocol'' (insert ''murl'' {}))"
    by (rule dom_with) simp
  with Some show ?thesis
    unfolding map_entries [OF request_keys(1)] map_entries [OF request_keys(2)]
    by (simp add: read_fields activate_members_def conj_ac)
qed

lemma request_tag: "map_of (request_members req) ''type'' = Some (JStr (request_name req))"
  by (cases req) simp_all

lemma activate_tag: "map_of (activate_members p u) ''type'' = Some (JStr ''activate'')"
  by (simp add: activate_members_def)

lemma de_request_variants:
  assumes "tagged (JObj m) = Inr (tag, c)"
  shows "de_request (JObj m) = Inr req \<longleftrightarrow>
    (case req of
       Ping p \<Rightarrow> tag = ''ping'' \<and> map_of m = map_of (request_members req)
     | StatusReq p \<Rightarrow> tag = ''status'' \<and> map_of m = map_of (request_members req)
     | ResolveReq p u \<Rightarrow> tag = ''resolve'' \<and> map_of m = map_of (request_members req)
     | Activate p u only \<Rightarrow> tag = ''activate''
         \<and> (map_of m = map_of (request_members req) \<or> only = [] \<and> map_of m = map_of (activate_members p u)))"
proof -
  consider "tag = ''ping''" | "tag = ''resolve''" | "tag = ''activate''" | "tag = ''status''"
    | "tag \<noteq> ''ping''" "tag \<noteq> ''resolve''" "tag \<noteq> ''activate''" "tag \<noteq> ''status''" by blast
  then show ?thesis
  proof cases
    case 1
    have e: "de_request (JObj m) = and_then (known_fields [''protocol''] c) (\<lambda>f. and_then (required de_u32 f ''protocol'') (\<lambda>p. Inr (Ping p)))"
      by (simp add: de_request_def assms 1)
    show ?thesis
      unfolding e read_variant [OF assms [unfolded 1]]
      using read_ping [of m] by (cases req) (simp_all add: 1 del: request_members.simps)
  next
    case 2
    have e: "de_request (JObj m) = and_then (known_fields [''protocol'', ''murl''] c) (\<lambda>f. and_then (required de_u32 f ''protocol'') (\<lambda>p.
        and_then (required de_string f ''murl'') (\<lambda>u. Inr (ResolveReq p u))))"
      by (simp add: de_request_def assms 2)
    show ?thesis
      unfolding e read_variant [OF assms [unfolded 2]]
      using read_resolve [of m] by (cases req) (simp_all add: 2 del: request_members.simps)
  next
    case 3
    have e: "de_request (JObj m) = and_then (known_fields [''protocol'', ''murl'', ''only''] c) (\<lambda>f. and_then (required de_u32 f ''protocol'') (\<lambda>p.
        and_then (required de_string f ''murl'') (\<lambda>u. and_then (defaulted [] (de_vec de_string) f ''only'') (\<lambda>only. Inr (Activate p u only)))))"
      by (simp add: de_request_def assms 3)
    show ?thesis
      unfolding e read_variant [OF assms [unfolded 3]]
      using read_activate [of m] by (cases req) (simp_all add: 3 del: request_members.simps)
  next
    case 4
    have e: "de_request (JObj m) = and_then (known_fields [''protocol''] c) (\<lambda>f. and_then (required de_u32 f ''protocol'') (\<lambda>p. Inr (StatusReq p)))"
      by (simp add: de_request_def assms 4)
    show ?thesis
      unfolding e read_variant [OF assms [unfolded 4]]
      using read_status [of m] by (cases req) (simp_all add: 4 del: request_members.simps)
  next
    case 5
    then show ?thesis by (cases req) (simp_all add: de_request_def assms)
  qed
qed

section \<open>Properties\<close>

lemma de_request_iff:
  "de_request (JObj m) = Inr req \<longleftrightarrow>
      map_of m = map_of (request_members req)
      \<or> (\<exists>p u. req = Activate p u [] \<and> map_of m = map_of (activate_members p u))"
proof (cases "tagged (JObj m)")
  case (Inl e)
  then have "map_of m ''type'' \<noteq> Some (JStr t)" for t
    by (auto simp: tagged_def and_then_Inl_iff de_string_def split: option.splits)
  then have "map_of m \<noteq> map_of (request_members req)" "map_of m \<noteq> map_of (activate_members p u)" for p u
    by (metis request_tag, metis activate_tag)
  then show ?thesis using Inl by (simp add: de_request_def)
next
  case (Inr tc)
  obtain tag c where tc: "tc = (tag, c)" by fastforce
  have t: "map_of m ''type'' = Some (JStr tag)" using Inr tagged_iff [of m tag c] by (simp add: tc)
  have r: "map_of m = map_of (request_members req) \<Longrightarrow> tag = request_name req" using t request_tag [of req] by simp
  have a: "map_of m = map_of (activate_members p u) \<Longrightarrow> tag = ''activate''" for p u using t activate_tag [of p u] by simp
  show ?thesis
    unfolding de_request_variants [OF Inr [unfolded tc]] using r a
    by (cases req) (auto simp del: request_members.simps)
qed

text \<open>
  C24: requests are a closed set. A JSON object is read as a request exactly when its
  members are the ones that request is written with, no more and no less, the tag
  included; only \<open>only\<close> of an activation may be left out, for the empty list. So what
  a client writes is what the daemon reads, and nothing else can ride along. Only
  lines within the cap that speak exactly this protocol version are accepted.
\<close>

theorem request_closed:
  "(de_request (JObj m) = Inr req \<longleftrightarrow>
      map_of m = map_of (request_members req)
      \<or> (\<exists>p u. req = Activate p u [] \<and> map_of m = map_of (activate_members p u)))
   \<and> (parse_request x line = Inr req \<longleftrightarrow>
      length line \<le> MAX_LINE_BYTES \<and> request_protocol req = PROTOCOL_VERSION
      \<and> (\<exists>v. from_slice_strict (x_events x) line = Inr v \<and> de_request v = Inr req))"
  by (auto simp: parse_request_def de_request_iff)

text \<open>One line each way: no text the writer produces holds a line feed.\<close>

lemma write_string_no_LF: "LF \<notin> set (write_string s)"
proof -
  have hex: "lower_hex d \<noteq> LF" if "d < 16" for d
  proof -
    have "byte (lower_hex d) \<noteq> byte LF" using that by (auto simp: lower_hex_def LF_def)
    then show ?thesis by auto
  qed
  have n: "LF \<notin> set [CHR 0x22, CHR 0x5C, CHR ''b'', CHR ''f'', CHR ''n'', CHR ''r'', CHR ''t'', CHR ''u'', CHR ''0'']"
    by (simp add: LF_def)
  have "LF \<notin> set (escape_char c)" for c
  proof (cases "c = LF")
    case True
    then show ?thesis using n by (simp add: escape_char_def LF_def)
  next
    case False
    have "byte c < 0x20 \<Longrightarrow> byte c div 16 < 16" by simp
    then show ?thesis using n False hex [of "byte c div 16"] hex [of "byte c mod 16"]
      unfolding escape_char_def by (simp split: if_split) metis
  qed
  then show ?thesis using n by (simp add: write_string_def)
qed

lemma dec_no_LF: "LF \<notin> set (dec_of_int i)"
proof -
  have "\<not> is_digit LF" by code_simp
  then have "LF \<notin> set (dec_of_nat n)" for n
    using all_digits_dec_of_nat [of n] by (auto simp: all_digits_def list_all_iff simp del: all_digits_dec_of_nat)
  then show ?thesis by (simp add: dec_of_int_def LF_def)
qed

text \<open>The float printer of serde\_json never breaks a line.\<close>

definition float_law :: "ext \<Rightarrow> bool" where
  "float_law x \<longleftrightarrow> (\<forall>f. LF \<notin> set (x_f64_text x f))"

lemma json_text_no_LF:
  "float_law x \<Longrightarrow> LF \<notin> set (json_text x v)"
  "float_law x \<Longrightarrow> LF \<notin> set (items_text x b vs)"
  "float_law x \<Longrightarrow> LF \<notin> set (members_text x b m)"
proof (induction x v and x b vs and x b m rule: json_text_items_text_members_text.induct)
  case (4 x f)
  then show ?case by (simp add: float_law_def)
qed (simp_all add: dec_no_LF write_string_no_LF, simp_all add: LF_def)

text \<open>
  One response, one line. Whatever a response carries (names from a hostile
  manifest, error texts with line breaks), its wire form is one line: the only line
  feed is the last byte, so no text can forge a second response.
\<close>

lemma response_one_line:
  assumes "float_law x"
  shows "\<exists>body. to_line x r = body @ [LF] \<and> LF \<notin> set body \<and> LF \<notin> set (request_text x req)"
  unfolding to_line_def request_text_def using json_text_no_LF(1) [OF assms] by blast

lemma toy_float_law: "float_law toy_ext"
  by (simp add: float_law_def toy_ext_def LF_def)

lemma response_one_line_witness:
  "\<exists>body. to_line toy_ext (RError ''resolve'' [CHR ''a'', LF, CHR ''b'']) = body @ [LF] \<and> LF \<notin> set body"
  using response_one_line [OF toy_float_law] by blast

text \<open>The reader of a tagged enum takes an array too: the tag, then the fields in order.\<close>

lemma request_as_array:
  "de_request (JArr [JStr ''activate'', JNum (NInt 1), JStr ''murl://local/x'']) = Inr (Activate 1 ''murl://local/x'' [])"
  by code_simp

end
