(* ===== verification/Cache.thy ===== *)
theory Cache
  imports Trust Fetch
begin

text \<open>
  The manifest cache, \<open>murl-core/src/cache.rs\<close>, over the file system of the theory
  \<open>Fetch\<close>. An entry is two files named by the SHA-256 of the identity: the bytes and a
  metadata sidecar. The derived JSON writer and reader of the sidecar are the
  parameter \<open>meta_codec\<close>.
\<close>

record cache_meta =
  cm_identity :: string
  cm_url :: string
  cm_fetched_at :: nat
  cm_sha256 :: string

record cache_entry =
  ce_bytes :: bytes
  ce_meta :: cache_meta
  ce_fresh :: bool

record meta_codec =
  mc_write :: "cache_meta \<Rightarrow> bytes"
  mc_read :: "bytes \<Rightarrow> cache_meta option"

definition codec_law :: "meta_codec \<Rightarrow> bool" where
  "codec_law mc \<longleftrightarrow> (\<forall>m. mc_read mc (mc_write mc m) = Some m)"

text \<open>\<open>u64::MAX\<close>\<close>

definition U64_MAX :: nat where
  "U64_MAX = 2 ^ 64 - 1"

definition data_path :: "ext \<Rightarrow> path \<Rightarrow> string \<Rightarrow> path" where
  "data_path x root ident = root @ [sha256_hex x ident @ ''.murl.json'']"

definition meta_path :: "ext \<Rightarrow> path \<Rightarrow> string \<Rightarrow> path" where
  "meta_path x root ident = root @ [sha256_hex x ident @ ''.meta.json'']"

text \<open>\<open>std::fs::remove_file(..).ok()\<close>\<close>

definition try_remove :: "path \<Rightarrow> fs \<Rightarrow> fs" where
  "try_remove p f = (case fs_remove_file p f of Inr g \<Rightarrow> g | Inl _ \<Rightarrow> f)"

definition is_fresh :: "nat \<Rightarrow> nat \<Rightarrow> nat \<Rightarrow> bool" where
  "is_fresh ttl fetched now \<longleftrightarrow> ttl = U64_MAX \<or> now < min (fetched + ttl) U64_MAX"

definition cache_get ::
  "ext \<Rightarrow> meta_codec \<Rightarrow> path \<Rightarrow> string \<Rightarrow> nat \<Rightarrow> nat \<Rightarrow> fs \<Rightarrow> cache_entry option \<times> fs"
where
  "cache_get x mc root ident ttl now f =
     (let dp = data_path x root ident; mp = meta_path x root ident in
      case fs_read f dp of
        Inl _ \<Rightarrow> (None, f)
      | Inr b \<Rightarrow>
          (case fs_read f mp of
             Inl _ \<Rightarrow> (None, f)
           | Inr mb \<Rightarrow>
               (case mc_read mc mb of
                  None \<Rightarrow> (None, f)
                | Some meta \<Rightarrow>
                    if cm_identity meta \<noteq> ident \<or> sha256_hex x b \<noteq> cm_sha256 meta
                    then (None, try_remove mp (try_remove dp f))
                    else (Some \<lparr> ce_bytes = b, ce_meta = meta, ce_fresh = is_fresh ttl (cm_fetched_at meta) now \<rparr>, f))))"

text \<open>Three steps; the first error ends the call and leaves what was done.\<close>

definition cache_put ::
  "ext \<Rightarrow> meta_codec \<Rightarrow> path \<Rightarrow> string \<Rightarrow> string \<Rightarrow> bytes \<Rightarrow> nat \<Rightarrow> fs \<Rightarrow> (error + unit) \<times> fs"
where
  "cache_put x mc root ident url b now f =
     (let meta = \<lparr> cm_identity = ident, cm_url = url, cm_fetched_at = now, cm_sha256 = sha256_hex x b \<rparr> in
      case fs_create_dir_all root f of
        Inl e \<Rightarrow> (Inl (EIo (io_message e)), f)
      | Inr f1 \<Rightarrow>
          (case fs_write (data_path x root ident) b f1 of
             Inl e \<Rightarrow> (Inl (EIo (io_message e)), f1)
           | Inr f2 \<Rightarrow>
               (case fs_write (meta_path x root ident) (mc_write mc meta) f2 of
                  Inl e \<Rightarrow> (Inl (EIo (io_message e)), f2)
                | Inr f3 \<Rightarrow> (Inr (), f3))))"

definition fs_exists :: "fs \<Rightarrow> path \<Rightarrow> bool" where
  "fs_exists f p \<longleftrightarrow> \<not> blocked f p \<and> fs_get f p \<noteq> None"

definition remove_if_exists :: "path \<Rightarrow> fs \<Rightarrow> (error + unit) \<times> fs" where
  "remove_if_exists p f =
     (if fs_exists f p
      then (case fs_remove_file p f of Inl e \<Rightarrow> (Inl (EIo (io_message e)), f) | Inr g \<Rightarrow> (Inr (), g))
      else (Inr (), f))"

definition cache_evict :: "ext \<Rightarrow> path \<Rightarrow> string \<Rightarrow> fs \<Rightarrow> (error + bool) \<times> fs" where
  "cache_evict x root ident f =
     (let dp = data_path x root ident; mp = meta_path x root ident;
          existed = (fs_exists f dp \<or> fs_exists f mp) in
      case remove_if_exists dp f of
        (Inl e, g) \<Rightarrow> (Inl e, g)
      | (Inr _, g) \<Rightarrow>
          (case remove_if_exists mp g of
             (Inl e, h) \<Rightarrow> (Inl e, h)
           | (Inr _, h) \<Rightarrow> (Inr existed, h)))"

text \<open>Directory entries come in the order of the map.\<close>

definition listed_meta :: "meta_codec \<Rightarrow> path \<Rightarrow> fs \<Rightarrow> path \<times> fs_node \<Rightarrow> cache_meta option" where
  "listed_meta mc root f e =
     (let p = fst e in
      if p \<noteq> [] \<and> butlast p = root \<and> ends_with ''.meta.json'' (last p)
      then (case fs_read f p of Inr b \<Rightarrow> mc_read mc b | Inl _ \<Rightarrow> None)
      else None)"

definition cache_list :: "meta_codec \<Rightarrow> path \<Rightarrow> fs \<Rightarrow> error + cache_meta list" where
  "cache_list mc root f =
     (if \<not> fs_exists f root then Inr []
      else if is_file (fs_get f root) then Inl (EIo ''Not a directory'')
      else Inr (sort_key cm_identity (List.map_filter (listed_meta mc root f) f)))"

fun evict_all :: "ext \<Rightarrow> path \<Rightarrow> cache_meta list \<Rightarrow> fs \<Rightarrow> (error + unit) \<times> fs" where
  "evict_all x root [] f = (Inr (), f)"
| "evict_all x root (m # ms) f =
     (case cache_evict x root (cm_identity m) f of
        (Inl e, g) \<Rightarrow> (Inl e, g)
      | (Inr _, g) \<Rightarrow> evict_all x root ms g)"

definition cache_clear :: "ext \<Rightarrow> meta_codec \<Rightarrow> path \<Rightarrow> fs \<Rightarrow> (error + nat) \<times> fs" where
  "cache_clear x mc root f =
     (case cache_list mc root f of
        Inl e \<Rightarrow> (Inl e, f)
      | Inr entries \<Rightarrow>
          (case evict_all x root entries f of
             (Inl e, g) \<Rightarrow> (Inl e, g)
           | (Inr _, g) \<Rightarrow> (Inr (length entries), g)))"

definition describe_err :: "error \<Rightarrow> string" where
  "describe_err e = ''cache error (ignored): '' @ error_display e"

section \<open>The two files of an entry\<close>

lemma data_path_inject: "data_path x root i = data_path x root j \<longleftrightarrow> sha256_hex x i = sha256_hex x j"
  by (simp add: data_path_def)

lemma meta_path_inject: "meta_path x root i = meta_path x root j \<longleftrightarrow> sha256_hex x i = sha256_hex x j"
  by (simp add: meta_path_def)

lemma data_meta_differ [simp]: "data_path x root i \<noteq> meta_path x root j"
proof
  assume "data_path x root i = meta_path x root j"
  then have "rev (sha256_hex x i @ ''.murl.json'') = rev (sha256_hex x j @ ''.meta.json'')"
    by (simp add: data_path_def meta_path_def)
  then show False by simp
qed

lemma paths_not_Nil [simp]: "data_path x root i \<noteq> []" "meta_path x root i \<noteq> []"
  by (simp_all add: data_path_def meta_path_def)

lemma fs_read_file: "fs_read f p = Inr b \<longleftrightarrow> fs_file f p = Some b"
  by (auto simp: fs_file_def split: sum.splits)

text \<open>What \<open>get\<close> returns depends on the two files only.\<close>

lemma cache_get_files:
  "fst (cache_get x mc root i ttl now f) =
     (case (fs_file f (data_path x root i), fs_file f (meta_path x root i)) of
        (Some b, Some mb) \<Rightarrow>
          (case mc_read mc mb of
             Some meta \<Rightarrow> if cm_identity meta = i \<and> sha256_hex x b = cm_sha256 meta
               then Some \<lparr> ce_bytes = b, ce_meta = meta, ce_fresh = is_fresh ttl (cm_fetched_at meta) now \<rparr> else None
           | None \<Rightarrow> None)
      | _ \<Rightarrow> None)"
  by (auto simp: cache_get_def fs_file_def Let_def split: sum.split option.split)

text \<open>C21: the cache never serves corrupted or crossed bytes. Whatever is on disk, after
  crashes between the two writes or edits by others, an entry that \<open>get\<close> returns is for
  the identity asked, its bytes hash to the recorded digest, and it is fresh exactly
  when the lifetime is unlimited (pinned versions) or now is before the saturated end
  of its lifetime; a lookup that returns an entry changes nothing.\<close>

theorem cache_get_sound:
  assumes "cache_get x mc root i ttl now f = (Some e, g)"
  shows "cm_identity (ce_meta e) = i \<and> sha256_hex x (ce_bytes e) = cm_sha256 (ce_meta e)
    \<and> fs_read f (data_path x root i) = Inr (ce_bytes e)
    \<and> (ce_fresh e \<longleftrightarrow> ttl = U64_MAX \<or> now < min (cm_fetched_at (ce_meta e) + ttl) U64_MAX)
    \<and> g = f"
  using assms by (auto simp: cache_get_def is_fresh_def Let_def split: sum.splits option.splits if_splits)

lemma cache_put_files:
  assumes "cache_put x mc root i url b now f = (Inr (), g)" "fs_wf f"
  shows "fs_wf g \<and> fs_file g = (fs_file f)(data_path x root i \<mapsto> b, meta_path x root i \<mapsto>
    mc_write mc \<lparr> cm_identity = i, cm_url = url, cm_fetched_at = now, cm_sha256 = sha256_hex x b \<rparr>)"
proof -
  let ?m = "\<lparr> cm_identity = i, cm_url = url, cm_fetched_at = now, cm_sha256 = sha256_hex x b \<rparr>"
  obtain f1 f2 where 1: "fs_create_dir_all root f = Inr f1" and 2: "fs_write (data_path x root i) b f1 = Inr f2"
    and 3: "fs_write (meta_path x root i) (mc_write mc ?m) f2 = Inr g"
    using assms(1) by (auto simp: cache_put_def Let_def split: sum.splits)
  note k1 = fs_create_keeps [OF 1 assms(2)]
  then have k2: "fs_wf f2 \<and> fs_file f2 = (fs_file f)(data_path x root i \<mapsto> b)"
    using fs_write_effect [OF 2] by simp
  then show ?thesis using fs_write_effect [OF 3] by simp
qed

text \<open>A put is seen by the next get of the same ident, with the bytes verbatim and
  the metadata of the put, and changes no lookup of an identity with another digest.\<close>

lemma cache_put_get:
  assumes "cache_put x mc root i url b now f = (Inr (), g)" "fs_wf f" "codec_law mc"
    and "sha256_hex x j \<noteq> sha256_hex x i"
  shows "fst (cache_get x mc root i ttl later g) = Some \<lparr> ce_bytes = b,
       ce_meta = \<lparr> cm_identity = i, cm_url = url, cm_fetched_at = now, cm_sha256 = sha256_hex x b \<rparr>,
       ce_fresh = is_fresh ttl now later \<rparr>
    \<and> fst (cache_get x mc root j ttl later g) = fst (cache_get x mc root j ttl later f)"
proof -
  note files = cache_put_files [OF assms(1,2), THEN conjunct2]
  show ?thesis
    using assms(3,4) data_meta_differ [of x root i i]
    unfolding cache_get_files files
    by (simp add: codec_law_def data_path_inject meta_path_inject data_meta_differ [symmetric])
qed

lemma remove_if_exists_file:
  assumes "remove_if_exists p f = (Inr u, g)" "fs_wf f"
  shows "fs_wf g \<and> fs_file g = (fs_file f)(p := None)"
proof (cases "fs_exists f p")
  case True
  then have "fs_remove_file p f = Inr g" using assms(1) by (auto simp: remove_if_exists_def split: sum.splits)
  then show ?thesis using fs_remove_effect assms(2) by blast
next
  case False
  then have "fs_file f p = None" by (auto simp: fs_exists_def fs_file_def fs_read_def split: option.split)
  moreover have "g = f" using False assms(1) by (simp add: remove_if_exists_def)
  ultimately show ?thesis using assms(2) by auto
qed

text \<open>Evicting an identity that returns without error leaves no entry for it, and
  touches the files of no identity with another digest.\<close>

lemma cache_evict_gone:
  assumes "cache_evict x root i f = (Inr existed, g)" "fs_wf f" "sha256_hex x j \<noteq> sha256_hex x i"
  shows "fst (cache_get x mc root i ttl now g) = None
    \<and> fst (cache_get x mc root j ttl now g) = fst (cache_get x mc root j ttl now f)
    \<and> (existed \<longleftrightarrow> fs_exists f (data_path x root i) \<or> fs_exists f (meta_path x root i))"
proof -
  obtain f1 where 1: "remove_if_exists (data_path x root i) f = (Inr (), f1)"
    and 2: "remove_if_exists (meta_path x root i) f1 = (Inr (), g)"
    and e: "existed = (fs_exists f (data_path x root i) \<or> fs_exists f (meta_path x root i))"
    using assms(1) by (auto simp: cache_evict_def Let_def split: prod.splits sum.splits)
  from remove_if_exists_file [OF 1 assms(2)] remove_if_exists_file [OF 2]
  have files: "fs_file g = (fs_file f)(data_path x root i := None, meta_path x root i := None)" by simp
  show ?thesis
    using assms(3) e unfolding cache_get_files files
    by (simp add: data_path_inject meta_path_inject data_meta_differ [symmetric])
qed

section \<open>A codec that satisfies the law, and witnesses\<close>

definition toy_codec :: meta_codec where
  "toy_codec = \<lparr>
     mc_write = (\<lambda>m. join '','' [toy_hex (cm_identity m), toy_hex (cm_url m), dec_of_nat (cm_fetched_at m), toy_hex (cm_sha256 m)]),
     mc_read = (\<lambda>b. case split_on CHR '','' b of
        [i, u, t, s] \<Rightarrow> Some \<lparr> cm_identity = toy_unhex i, cm_url = toy_unhex u, cm_fetched_at = nat_of_dec t, cm_sha256 = toy_unhex s \<rparr>
      | _ \<Rightarrow> None) \<rparr>"

lemma toy_hex_no_comma: "CHR '','' \<notin> set (toy_hex b)"
proof -
  have "nibble_char n \<noteq> CHR '',''" if "n < 16" for n
  proof
    assume "nibble_char n = CHR '',''"
    then have "byte (nibble_char n) = byte CHR '',''" by simp
    then show False using that by (simp add: nibble_char_def)
  qed
  moreover have "byte c div 16 < 16" "byte c mod 16 < 16" for c
    using byte_less_256 [of c] by (simp_all add: less_mult_imp_div_less)
  ultimately have "CHR '','' \<noteq> nibble_char (byte c div 16) \<and> CHR '','' \<noteq> nibble_char (byte c mod 16)" for c
    by metis
  then show ?thesis unfolding toy_hex_def by simp
qed

lemma toy_codec_law: "codec_law toy_codec"
proof -
  have "CHR '','' \<notin> set (dec_of_nat n)" for n
    using all_digits_dec_of_nat [of n] by (auto simp: all_digits_def list_all_iff is_digit_def in_range_def)
  then show ?thesis
    by (simp add: codec_law_def toy_codec_def split_on_append split_on_absent toy_hex_no_comma toy_unhex_hex)
qed

definition sample_put :: "(error + unit) \<times> fs" where
  "sample_put = cache_put toy_ext toy_codec [''c''] ''murl://a/b'' ''https://a'' ''{}'' 100 []"

lemma sample_put_ok: "sample_put = (Inr (), snd sample_put)"
proof -
  have "fst sample_put = Inr ()" by code_simp
  then show ?thesis by (metis prod.collapse)
qed

lemma cache_put_get_witness:
  "map_option ce_bytes (fst (cache_get toy_ext toy_codec [''c''] ''murl://a/b'' 3600 200 (snd sample_put))) = Some ''{}''"
proof -
  have "sha256_hex toy_ext ''murl://a/z'' \<noteq> sha256_hex toy_ext ''murl://a/b''" "fs_wf []" by code_simp+
  from cache_put_get [OF sample_put_ok [unfolded sample_put_def] this(2) toy_codec_law this(1), of 3600 200]
  show ?thesis by (simp add: sample_put_def)
qed

theorem cache_get_sound_witness:
  "\<exists>e. cache_get toy_ext toy_codec [''c''] ''murl://a/b'' U64_MAX 200 (snd sample_put) = (Some e, snd sample_put)
     \<and> ce_fresh e"
proof -
  let ?g = "cache_get toy_ext toy_codec [''c''] ''murl://a/b'' U64_MAX 200 (snd sample_put)"
  have "fst ?g \<noteq> None" by code_simp
  then obtain e g where e: "?g = (Some e, g)" by (cases ?g) auto
  from cache_get_sound [OF this] show ?thesis by (simp add: e)
qed

lemma cache_evict_gone_example:
  "case cache_evict toy_ext [''c''] ''murl://a/b'' (snd sample_put) of
     (Inr existed, g) \<Rightarrow> existed \<and> fst (cache_get toy_ext toy_codec [''c''] ''murl://a/b'' 3600 200 g) = None
   | _ \<Rightarrow> False"
proof -
  let ?e = "cache_evict toy_ext [''c''] ''murl://a/b'' (snd sample_put)"
  have "fst ?e = Inr True" by code_simp
  then obtain g where e: "?e = (Inr True, g)" by (cases ?e) auto
  have "fs_wf (snd sample_put)" "sha256_hex toy_ext ''murl://a/z'' \<noteq> sha256_hex toy_ext ''murl://a/b''" by code_simp+
  from cache_evict_gone [OF e this] show ?thesis by (simp add: e)
qed

text \<open>\<open>clear\<close> promises everything; it removes what \<open>list\<close> can read. Bytes whose sidecar was
  never written stay, and are not counted.\<close>

lemma cache_clear_leaves_orphans:
  "let g = [([''c''], FDir), (data_path toy_ext [''c''] ''i'', FFile ''{}'')] in
   cache_clear toy_ext toy_codec [''c''] g = (Inr 0, g)"
  by code_simp

end
