(* ===== verification/Resolver.thy ===== *)
theory Resolver
  imports Resolution Cache Graph
begin

text \<open>
  The resolver, \<open>murl-core/src/resolver.rs\<close>: from a name to the flattened plan. One
  definition per step of \<open>ingest_named\<close>, \<open>locate\<close> and \<open>ingest_bytes\<close>; the recursion
  through nested names is \<open>ingest_named\<close>, \<open>ingest_bytes\<close> and the resource loop.

  A step takes the mutable state and returns its result with the state it leaves, also
  when it fails. A failure is an error of the program or a panic (an index out of
  range, an \<open>expect\<close>). The fetcher and the clock are functions of the lookups made so
  far, so they may answer differently every time.
\<close>

section \<open>Collaborators and state\<close>

datatype request = StoreRead murl | Request murl string

record resolver =
  rv_ext :: ext
  rv_codec :: meta_codec
  rv_names_root :: string
  rv_names :: fs
  rv_remote :: "(request list \<Rightarrow> string \<Rightarrow> error + bytes) option"
  rv_cache :: "path option"
  rv_trust_store :: trust_store
  rv_limits :: limits
  rv_clock :: "request list \<Rightarrow> nat"

record rstate =
  st_nodes :: "resolved_node list"
  st_resources :: "planned_resource list"
  st_warnings :: "string list"
  st_stack :: "string list"
  st_visited :: "string list"
  st_dedup :: "(string \<times> string) list"
  st_manifests :: nat
  st_cache :: fs
  st_log :: "request list"

definition default_state :: "fs \<Rightarrow> rstate" where
  "default_state cache = \<lparr> st_nodes = [], st_resources = [], st_warnings = [], st_stack = [], st_visited = [],
     st_dedup = [], st_manifests = 0, st_cache = cache, st_log = [] \<rparr>"

datatype fault = Err error | Panic

type_synonym 'a step = "rstate \<Rightarrow> (fault + 'a) \<times> rstate"

definition bindS :: "'a step \<Rightarrow> ('a \<Rightarrow> 'b step) \<Rightarrow> 'b step" where
  "bindS m f s = (case m s of (Inl e, s') \<Rightarrow> (Inl e, s') | (Inr a, s') \<Rightarrow> f a s')"

definition returnS :: "'a \<Rightarrow> 'a step" where
  "returnS a s = (Inr a, s)"

definition failS :: "error \<Rightarrow> 'a step" where
  "failS e s = (Inl (Err e), s)"

definition liftS :: "error + 'a \<Rightarrow> 'a step" where
  "liftS r s = (case r of Inl e \<Rightarrow> (Inl (Err e), s) | Inr a \<Rightarrow> (Inr a, s))"

definition warnS :: "string \<Rightarrow> unit step" where
  "warnS w s = (Inr (), s\<lparr> st_warnings := st_warnings s @ [w] \<rparr>)"

definition warn_when :: "bool \<Rightarrow> string \<Rightarrow> unit step" where
  "warn_when b w = (if b then warnS w else returnS ())"

lemma bindS_cong [fundef_cong]:
  assumes "s = s'" "m s' = m' s'" "\<And>a t. m' s' = (Inr a, t) \<Longrightarrow> f a t = f' a t"
  shows "bindS m f s = bindS m' f' s'"
  using assms by (auto simp: bindS_def split: prod.split sum.split)

section \<open>Locating a manifest\<close>

definition count_manifest :: "resolver \<Rightarrow> unit step" where
  "count_manifest v s =
     (let s' = s\<lparr> st_manifests := st_manifests s + 1 \<rparr> in
      if max_nested_manifests (rv_limits v) < st_manifests s'
      then failS (ELimitExceeded (''resolution touches more than ''
             @ dec_of_nat (max_nested_manifests (rv_limits v)) @ '' manifests'')) s'
      else (Inr (), s'))"

definition ttl_for :: "limits \<Rightarrow> version_tag \<Rightarrow> nat" where
  "ttl_for lim t = (case t of Latest \<Rightarrow> cache_ttl_secs lim | Pinned _ \<Rightarrow> U64_MAX)"

definition lookup_cache :: "resolver \<Rightarrow> murl \<Rightarrow> cache_entry option step" where
  "lookup_cache v m s =
     (case rv_cache v of
        None \<Rightarrow> (Inr None, s)
      | Some root \<Rightarrow>
          (case cache_get (rv_ext v) (rv_codec v) root (identity m) (ttl_for (rv_limits v) (mu_version m))
                  (rv_clock v (st_log s)) (st_cache s) of
             (e, f) \<Rightarrow> (Inr e, s\<lparr> st_cache := f \<rparr>)))"

text \<open>A failed put is a warning.\<close>

definition store_in_cache :: "resolver \<Rightarrow> murl \<Rightarrow> string \<Rightarrow> bytes \<Rightarrow> nat \<Rightarrow> unit step" where
  "store_in_cache v m url b now s =
     (case rv_cache v of
        None \<Rightarrow> (Inr (), s)
      | Some root \<Rightarrow>
          (case cache_put (rv_ext v) (rv_codec v) root (identity m) url b now (st_cache s) of
             (Inl e, f) \<Rightarrow> warnS (describe_err e) (s\<lparr> st_cache := f \<rparr>)
           | (Inr _, f) \<Rightarrow> (Inr (), s\<lparr> st_cache := f \<rparr>)))"

definition from_cache :: "cache_entry \<Rightarrow> bytes \<times> origin" where
  "from_cache e = (ce_bytes e, RemoteOrigin (cm_url (ce_meta e)) True)"

definition fetch_remote :: "resolver \<Rightarrow> murl \<Rightarrow> string \<Rightarrow> cache_entry option \<Rightarrow> nat \<Rightarrow> (bytes \<times> origin) step" where
  "fetch_remote v m url cached now s =
     (case rv_remote v of
        Some fetch \<Rightarrow>
          (let s1 = s\<lparr> st_log := st_log s @ [Request m url] \<rparr> in
           case fetch (st_log s) url of
             Inr b \<Rightarrow>
               if max_manifest_bytes (rv_limits v) < length b
               then failS (ELimitExceeded (''manifest at '' @ url @ '' exceeds ''
                      @ dec_of_nat (max_manifest_bytes (rv_limits v)) @ '' bytes'')) s1
               else bindS (store_in_cache v m url b now) (\<lambda>_. returnS (b, RemoteOrigin url False)) s1
           | Inl fetch_err \<Rightarrow>
               (case cached of
                  Some e \<Rightarrow>
                    bindS (warnS (identity m @ '': fetch failed ('' @ error_display fetch_err
                             @ ''); using stale cache from '' @ cm_url (ce_meta e)))
                      (\<lambda>_. returnS (from_cache e)) s1
                | None \<Rightarrow> failS fetch_err s1))
      | None \<Rightarrow>
          (case cached of
             Some e \<Rightarrow>
               bindS (warnS (identity m @ '': offline; using cached manifest from '' @ cm_url (ce_meta e)))
                 (\<lambda>_. returnS (from_cache e)) s
           | None \<Rightarrow> failS (EResolution (quoted (identity m)
               @ '' requires network resolution, but the resolver is offline and the manifest is not cached'')) s))"

definition locate :: "resolver \<Rightarrow> murl \<Rightarrow> (bytes \<times> origin) step" where
  "locate v m s =
     (if is_local (mu_authority m)
      then
        (let s1 = s\<lparr> st_log := st_log s @ [StoreRead m] \<rparr> in
         case store_load (rv_names_root v) (rv_names v) m of
           Inl e \<Rightarrow> failS e s1
         | Inr (b, p) \<Rightarrow> (Inr (b, LocalStore (path_display (rv_names_root v) p)), s1))
      else
        bindS (lookup_cache v m) (\<lambda>cached.
          case cached of
            Some e \<Rightarrow>
              if ce_fresh e then returnS (from_cache e)
              else (case well_known_url m of
                      None \<Rightarrow> (\<lambda>t. (Inl Panic, t))
                    | Some url \<Rightarrow> fetch_remote v m url cached (rv_clock v (st_log s)))
          | None \<Rightarrow>
              (case well_known_url m of
                 None \<Rightarrow> (\<lambda>t. (Inl Panic, t))
               | Some url \<Rightarrow> fetch_remote v m url cached (rv_clock v (st_log s)))) s)"

section \<open>Admitting a manifest\<close>

definition em_dash :: string where
  "em_dash = [CHR 0xE2, CHR 0x80, CHR 0x94]"

definition node_label :: "murl option \<Rightarrow> origin \<Rightarrow> string" where
  "node_label m orig = (case m of Some k \<Rightarrow> identity k | None \<Rightarrow> origin_describe orig)"

fun warn_all :: "string list \<Rightarrow> unit step" where
  "warn_all [] s = (Inr (), s)"
| "warn_all (w # ws) s = warn_all ws (s\<lparr> st_warnings := st_warnings s @ [w] \<rparr>)"

definition trust_of :: "trust_store \<Rightarrow> origin \<Rightarrow> murl option \<Rightarrow> verified_signature option \<Rightarrow> trust_status" where
  "trust_of ts orig m verified =
     (case orig of
        RemoteOrigin _ _ \<Rightarrow>
          (let auth = (case m of Some k \<Rightarrow> authority_display (mu_authority k) | None \<Rightarrow> []) in
           case verified of
             None \<Rightarrow> TUnsignedRemote
           | Some sg \<Rightarrow>
               if is_trusted ts auth (vs_key_id sg) then TSignedTrusted (vs_key_id sg)
               else TSignedUnknownKey (vs_key_id sg))
      | _ \<Rightarrow> TLocal)"

definition version_conflicts :: "version_tag \<Rightarrow> version_tag \<Rightarrow> bool" where
  "version_conflicts a b = (case (a, b) of (Pinned x, Pinned y) \<Rightarrow> x \<noteq> y | _ \<Rightarrow> False)"

definition bind_identity :: "string \<Rightarrow> origin \<Rightarrow> murl option \<Rightarrow> string option \<Rightarrow> error + unit" where
  "bind_identity label orig m declared_id =
     (case (m, declared_id) of
        (Some requested, Some d) \<Rightarrow>
          and_then (map_err (\<lambda>e. EValidation (label @ '': manifest id is invalid: '' @ murl_error_display e)) (murl_parse d))
            (\<lambda>declared.
              if \<not> (mu_authority declared = mu_authority requested \<and> mu_name declared = mu_name requested)
                 \<or> version_conflicts (mu_version declared) (mu_version requested)
              then Inl (EResolution (''manifest at '' @ origin_describe orig @ '' declares id '' @ quoted (identity declared)
                     @ '' but was resolved as '' @ quoted (identity requested) @ '' '' @ em_dash
                     @ '' refusing a re-labeled manifest''))
              else Inr ())
      | _ \<Rightarrow> Inr ())"

definition time_or_zero :: "string \<Rightarrow> int" where
  "time_or_zero t = (case parse_rfc3339_utc t of Inr n \<Rightarrow> n | Inl _ \<Rightarrow> 0)"

definition is_expired :: "manifest_doc \<Rightarrow> nat \<Rightarrow> bool" where
  "is_expired d now = (case md_expires d of Some t \<Rightarrow> time_or_zero t \<le> int now | None \<Rightarrow> False)"

definition is_premature :: "manifest_doc \<Rightarrow> nat \<Rightarrow> bool" where
  "is_premature d now = (case md_not_before d of Some t \<Rightarrow> int now < time_or_zero t | None \<Rightarrow> False)"

text \<open>What the resource loop needs of the admitted manifest.\<close>

record node_ctx =
  cx_murl :: "murl option"
  cx_label :: string
  cx_source :: locality
  cx_node :: nat
  cx_depth :: nat
  cx_anchor :: "string option"
  cx_resources :: "resource_doc list"

text \<open>The checks of \<open>ingest_bytes\<close> up to the identity binding: the manifest and the
  verified signature.\<close>

definition check_manifest :: "resolver \<Rightarrow> murl option \<Rightarrow> bytes \<Rightarrow> origin \<Rightarrow> (manifest \<times> verified_signature option) step" where
  "check_manifest v m b orig =
     (let label = node_label m orig in
      bindS (liftS (manifest_from_slice (x_events (rv_ext v)) (rv_limits v) b)) (\<lambda>mf.
        let report = validate (rv_ext v) mf in
        bindS (warn_all (map (\<lambda>w. label @ '': '' @ is_path w @ '' '' @ em_dash @ '' '' @ is_message w) (vr_warnings report))) (\<lambda>_.
        bindS (liftS (into_result report)) (\<lambda>_.
        bindS (liftS (verify_manifest (rv_ext v) (mf_raw mf))) (\<lambda>verified.
        bindS (warn_when (verified \<noteq> None \<and> md_id (mf_doc mf) = None)
                 (label @ '': signed manifest carries no `id`; without it a valid signature can be replayed under a different name'')) (\<lambda>_.
        bindS (liftS (bind_identity label orig m (md_id (mf_doc mf)))) (\<lambda>_.
          returnS (mf, verified))))))))"

definition push_node :: "resolved_node \<Rightarrow> nat step" where
  "push_node n s = (Inr (length (st_nodes s)), s\<lparr> st_nodes := st_nodes s @ [n] \<rparr>)"

definition make_node :: "resolver \<Rightarrow> murl option \<Rightarrow> bytes \<Rightarrow> origin \<Rightarrow> nat \<Rightarrow> manifest \<Rightarrow> verified_signature option \<Rightarrow> nat \<Rightarrow> resolved_node" where
  "make_node v m b orig depth mf verified now =
     \<lparr> rn_identity = map_option identity m, rn_origin = orig, rn_manifest = mf, rn_raw_bytes = b,
       rn_trust = trust_of (rv_trust_store v) orig m verified, rn_depth = depth,
       rn_expired = is_expired (mf_doc mf) now, rn_premature = is_premature (mf_doc mf) now \<rparr>"

text \<open>The node is pushed before the execution order is computed, so a cycle of
  dependencies is found afterwards.\<close>

definition admit :: "resolver \<Rightarrow> murl option \<Rightarrow> bytes \<Rightarrow> origin \<Rightarrow> nat \<Rightarrow> string option \<Rightarrow> (node_ctx \<times> nat list) step" where
  "admit v m b orig depth anchor s =
     (let label = node_label m orig in
      bindS (check_manifest v m b orig) (\<lambda>(mf, verified) t.
        let now = rv_clock v (st_log t); doc = mf_doc mf in
        bindS (warn_when (is_expired doc now)
                 (label @ '': manifest expired at '' @ (case md_expires doc of Some e \<Rightarrow> e | None \<Rightarrow> []))) (\<lambda>_.
        bindS (warn_when (is_premature doc now)
                 (label @ '': manifest is not valid before '' @ (case md_not_before doc of Some e \<Rightarrow> e | None \<Rightarrow> []))) (\<lambda>_.
        bindS (push_node (make_node v m b orig depth mf verified now)) (\<lambda>index.
        bindS (liftS (map_err EValidation (execution_order (md_resources doc)))) (\<lambda>order.
          returnS (\<lparr> cx_murl = m, cx_label = label, cx_source = locality_of_source orig m, cx_node = index,
                     cx_depth = depth, cx_anchor = anchor, cx_resources = md_resources doc \<rparr>, order))))) t) s)"

section \<open>One resource\<close>

definition crosses_authority :: "murl option \<Rightarrow> murl \<Rightarrow> bool" where
  "crosses_authority m child = (case m of Some p \<Rightarrow> mu_authority p \<noteq> mu_authority child | None \<Rightarrow> False)"

definition enter_child :: "string \<Rightarrow> unit step" where
  "enter_child ident s = (Inr (), s\<lparr> st_stack := st_stack s @ [ident] \<rparr>)"

text \<open>Everything before the recursive call: \<open>None\<close> when the name is skipped.\<close>

definition nested_child :: "resolver \<Rightarrow> node_ctx \<Rightarrow> resource_doc \<Rightarrow> murl option step" where
  "nested_child v c r =
     bindS (liftS (map_err (\<lambda>e. EValidation (''nested mURL: '' @ murl_error_display e)) (murl_parse (rd_target r)))) (\<lambda>child.
     if locality_of (mu_authority child) < cx_source c
     then failS (EResolution (cx_label c @ '' comes from '' @ locality_describe (cx_source c) @ '' and nests ''
            @ quoted (identity child)
            @ '', which is on this machine; a manifest may nest only names at least as far away as itself''))
     else
     bindS (warn_when (mu_selector child \<noteq> None)
              (cx_label c @ '': selector on nested mURL '' @ quoted (rd_target r) @ '' is ignored'')) (\<lambda>_.
     if max_depth (rv_limits v) < cx_depth c + 1
     then failS (ELimitExceeded (''nesting depth exceeds '' @ dec_of_nat (max_depth (rv_limits v)) @ '' at ''
            @ quoted (identity child)))
     else (\<lambda>s.
       let ident = identity child in
       if ident \<in> set (st_stack s) then failS (ECycle (join '' -> '' (st_stack s) @ '' -> '' @ ident)) s
       else if ident \<in> set (st_visited s)
       then bindS (warnS (cx_label c @ '': nested mURL '' @ quoted ident @ '' already resolved elsewhere; skipping duplicate''))
              (\<lambda>_. returnS None) s
       else bindS (warn_when (crosses_authority (cx_murl c) child)
                     (cx_label c @ '': nested mURL '' @ quoted ident @ '' crosses into authority ''
                      @ quoted (authority_display (mu_authority child)))) (\<lambda>_.
            bindS (enter_child ident) (\<lambda>_. returnS (Some child))) s)))"

definition leave_child :: "string \<Rightarrow> unit step" where
  "leave_child ident s = (Inr (), s\<lparr> st_stack := butlast (st_stack s), st_visited := ident # st_visited s \<rparr>)"

definition planned :: "node_ctx \<Rightarrow> kind \<Rightarrow> resource_doc \<Rightarrow> planned_resource" where
  "planned c k r = \<lparr> pr_resource = r, pr_kind = k, pr_tier = classify k (rd_target r), pr_node = cx_node c,
     pr_root_anchor = (case cx_anchor c of Some a \<Rightarrow> a | None \<Rightarrow> rd_id r), pr_decision = None \<rparr>"

definition plan_resource :: "resolver \<Rightarrow> node_ctx \<Rightarrow> kind \<Rightarrow> resource_doc \<Rightarrow> unit step" where
  "plan_resource v c k r s =
     (if max_total_resources (rv_limits v) < length (st_resources s) + 1
      then failS (ELimitExceeded (''resolution exceeds '' @ dec_of_nat (max_total_resources (rv_limits v)) @ '' total resources'')) s
      else
        (let key = (kind_display k, rd_target r) in
         if key \<in> set (st_dedup s)
         then warnS (cx_label c @ '': duplicate resource ('' @ kind_display k @ '' '' @ rd_target r @ '') skipped'') s
         else (Inr (), s\<lparr> st_dedup := key # st_dedup s, st_resources := st_resources s @ [planned c k r] \<rparr>)))"

section \<open>The recursion\<close>

lemma nested_child_depth:
  "nested_child v c r s = (Inr (Some child), s') \<Longrightarrow> cx_depth c + 1 \<le> max_depth (rv_limits v)"
  by (auto simp: nested_child_def bindS_def liftS_def failS_def warn_when_def warnS_def returnS_def Let_def
      split: sum.splits prod.splits if_splits)

lemma admit_depth: "admit v m b orig depth anchor s = (Inr (c, order), s') \<Longrightarrow> cx_depth c = depth"
  by (auto simp: admit_def bindS_def liftS_def warn_when_def warnS_def returnS_def push_node_def Let_def
      split: sum.splits prod.splits if_splits)

function (sequential) ingest_named :: "resolver \<Rightarrow> murl \<Rightarrow> nat \<Rightarrow> string option \<Rightarrow> string option \<Rightarrow> unit step"
  and ingest_bytes :: "resolver \<Rightarrow> murl option \<Rightarrow> bytes \<Rightarrow> origin \<Rightarrow> nat \<Rightarrow> string option \<Rightarrow> unit step"
  and ingest_resources :: "resolver \<Rightarrow> node_ctx \<Rightarrow> nat list \<Rightarrow> unit step"
where
  "ingest_named v m depth anchor integrity s =
     bindS (count_manifest v) (\<lambda>_.
     bindS (locate v m) (\<lambda>(b, orig).
     bindS (liftS (case integrity of Some pin \<Rightarrow> check_integrity (rv_ext v) b pin | None \<Rightarrow> Inr ())) (\<lambda>_ t.
       ingest_bytes v (Some m) b orig depth anchor t))) s"
| "ingest_bytes v m b orig depth anchor s =
     bindS (admit v m b orig depth anchor) (\<lambda>(c, order) t. ingest_resources v c order t) s"
| "ingest_resources v c [] s = (Inr (), s)"
| "ingest_resources v c (i # rest) s =
     (case nth_opt (cx_resources c) i of
        None \<Rightarrow> (Inl Panic, s)
      | Some r \<Rightarrow>
          bindS (liftS (map_err EValidation (kind_parse (rd_kind r)))) (\<lambda>k t.
            if k = kind.Murl
            then
              bindS (nested_child v c r) (\<lambda>oc t.
                case oc of
                  None \<Rightarrow> ingest_resources v c rest t
                | Some child \<Rightarrow>
                    bindS (\<lambda>t. ingest_named v child (cx_depth c + 1)
                              (Some (case cx_anchor c of Some a \<Rightarrow> a | None \<Rightarrow> rd_id r)) (rd_integrity r) t) (\<lambda>_.
                    bindS (leave_child (identity child)) (\<lambda>_ t. ingest_resources v c rest t)) t) t
            else bindS (plan_resource v c k r) (\<lambda>_ t. ingest_resources v c rest t) t) s)"
  by pat_completeness auto
termination
  by (relation "measures [
       \<lambda>x. case x of Inl (v, _, d, _) \<Rightarrow> max_depth (rv_limits v) + 1 - d
           | Inr (Inl (v, _, _, _, d, _)) \<Rightarrow> max_depth (rv_limits v) + 1 - d
           | Inr (Inr (v, c, _)) \<Rightarrow> max_depth (rv_limits v) + 1 - cx_depth c,
       \<lambda>x. case x of Inl _ \<Rightarrow> 2 | Inr (Inl _) \<Rightarrow> 1 | Inr (Inr _) \<Rightarrow> 0,
       \<lambda>x. case x of Inr (Inr (_, _, is, _)) \<Rightarrow> length is | _ \<Rightarrow> 0]")
     (auto dest: nested_child_depth admit_depth)

declare ingest_named.simps [simp del] ingest_bytes.simps [simp del] ingest_resources.simps(2) [simp del]

section \<open>Selectors and entry points\<close>

fun claims :: "selector_item \<Rightarrow> planned_resource \<Rightarrow> bool" where
  "claims (SelId i) pr \<longleftrightarrow> pr_root_anchor pr = i"
| "claims (SelRole role) pr \<longleftrightarrow> rd_role (pr_resource pr) = Some role"
| "claims (SelTag tag) pr \<longleftrightarrow> tag \<in> set (rd_tags (pr_resource pr))"

text \<open>Whether an item matches something; \<open>None\<close> when there is no root node to index.\<close>

fun item_matched :: "resolution \<Rightarrow> selector_item \<Rightarrow> bool option" where
  "item_matched r (SelId i) =
     (case nth_opt (rs_nodes r) 0 of
        None \<Rightarrow> None
      | Some n \<Rightarrow> Some (list_ex (\<lambda>d. rd_id d = i) (md_resources (mf_doc (rn_manifest n)))))"
| "item_matched r (SelRole role) = Some (list_ex (claims (SelRole role)) (rs_resources r))"
| "item_matched r (SelTag tag) = Some (list_ex (claims (SelTag tag)) (rs_resources r))"

fun check_items :: "resolution \<Rightarrow> selector_item list \<Rightarrow> fault + unit" where
  "check_items r [] = Inr ()"
| "check_items r (item # items) =
     (case item_matched r item of
        None \<Rightarrow> Inl Panic
      | Some False \<Rightarrow> Inl (Err (ENotFound (''selector item '' @ quoted (selector_item_display item)
                       @ '' matches nothing in the resolved destination'')))
      | Some True \<Rightarrow> check_items r items)"

definition finish :: "rstate \<Rightarrow> selector_item list option \<Rightarrow> fault + resolution" where
  "finish s selector =
     (let r = \<lparr> rs_nodes = st_nodes s, rs_resources = st_resources s, rs_warnings = st_warnings s, rs_selector = None \<rparr> in
      case selector of
        None \<Rightarrow> Inr r
      | Some items \<Rightarrow>
          and_then (check_items r items) (\<lambda>_.
            Inr (r\<lparr> rs_resources := filter (\<lambda>pr. list_ex (\<lambda>item. claims item pr) items) (rs_resources r),
                    rs_selector := Some (join '','' (map selector_item_display items)) \<rparr>)))"

definition resolve :: "resolver \<Rightarrow> fs \<Rightarrow> murl \<Rightarrow> (fault + resolution) \<times> rstate" where
  "resolve v cache m =
     bindS (enter_child (identity m)) (\<lambda>_.
     bindS (ingest_named v m 0 None None) (\<lambda>_ s.
       let s' = s\<lparr> st_stack := butlast (st_stack s) \<rparr> in (finish s' (mu_selector m), s'))) (default_state cache)"

text \<open>\<open>contents\<close> is what reading the path gives.\<close>

definition resolve_file :: "resolver \<Rightarrow> fs \<Rightarrow> string \<Rightarrow> io_error + bytes \<Rightarrow> (fault + resolution) \<times> rstate" where
  "resolve_file v cache path contents =
     (case contents of
        Inl e \<Rightarrow> failS (ENotFound (''cannot read manifest '' @ path @ '': '' @ io_message e)) (default_state cache)
      | Inr b \<Rightarrow>
          bindS (ingest_bytes v None b (LocalFile path) 0 None) (\<lambda>_ s. (finish s None, s)) (default_state cache))"

definition fetch_root :: "resolver \<Rightarrow> fs \<Rightarrow> murl \<Rightarrow> (fault + manifest \<times> origin \<times> string list) \<times> rstate" where
  "fetch_root v cache m =
     bindS (locate v m) (\<lambda>(b, orig).
     bindS (liftS (manifest_from_slice (x_events (rv_ext v)) (rv_limits v) b)) (\<lambda>mf s.
       (Inr (mf, orig, st_warnings s), s))) (default_state cache)"

section \<open>Rules for steps\<close>

text \<open>\<open>ends P E out\<close>: the step failed in a way \<open>E\<close> allows, or its result and state satisfy
  \<open>P\<close>.\<close>

definition ends :: "('a \<Rightarrow> rstate \<Rightarrow> bool) \<Rightarrow> (fault \<Rightarrow> rstate \<Rightarrow> bool) \<Rightarrow> (fault + 'a) \<times> rstate \<Rightarrow> bool" where
  "ends P E out \<longleftrightarrow> (case fst out of Inl e \<Rightarrow> E e (snd out) | Inr a \<Rightarrow> P a (snd out))"

lemma ends_Inl [simp]: "ends P E (Inl e, s) \<longleftrightarrow> E e s"
  by (simp add: ends_def)

lemma ends_Inr [simp]: "ends P E (Inr a, s) \<longleftrightarrow> P a s"
  by (simp add: ends_def)

lemma ends_bindS [intro?]:
  assumes "ends Q E (m s)" "\<And>a t. m s = (Inr a, t) \<Longrightarrow> Q a t \<Longrightarrow> ends P E (f a t)"
  shows "ends P E (bindS m f s)"
  using assms by (auto simp: bindS_def ends_def split: prod.splits sum.splits)

lemma ends_mono: "ends P E out \<Longrightarrow> (\<And>a s. P a s \<Longrightarrow> P' a s) \<Longrightarrow> ends P' E out"
  by (auto simp: ends_def split: sum.splits)

lemma ends_returnS [simp]: "ends P E (returnS a s) \<longleftrightarrow> P a s"
  by (simp add: returnS_def)

lemma ends_failS [simp]: "ends P E (failS e s) \<longleftrightarrow> E (Err e) s"
  by (simp add: failS_def)

lemma ends_liftS: "ends P E (liftS r s) \<longleftrightarrow> (case r of Inl e \<Rightarrow> E (Err e) s | Inr a \<Rightarrow> P a s)"
  by (simp add: liftS_def split: sum.split)

lemma ends_warnS [simp]: "ends P E (warnS w s) \<longleftrightarrow> P () (s\<lparr> st_warnings := st_warnings s @ [w] \<rparr>)"
  by (simp add: warnS_def)

lemma ends_warn_when [simp]:
  "ends P E (warn_when b w s) \<longleftrightarrow> P () (if b then s\<lparr> st_warnings := st_warnings s @ [w] \<rparr> else s)"
  by (simp add: warn_when_def)

lemma warn_all_eq: "warn_all ws s = (Inr (), s\<lparr> st_warnings := st_warnings s @ ws \<rparr>)"
  by (induction ws arbitrary: s) simp_all

end
