(* ===== verification/Resolver_Rules.thy ===== *)
theory Resolver_Rules
  imports Resolver
begin

text \<open>
  How facts about single steps of the resolver carry over to a whole resolution. The
  frame lemmas say what each step leaves alone. The locale \<open>resolution_rules\<close> is the
  contract of a property of states that every state update keeps; its rule, proved
  once by induction over the recursion, gives the property for \<open>ingest_named\<close>,
  \<open>ingest_bytes\<close> and the resource loop. The same induction shows that no step panics
  and bounds the locality of every lookup, errors included.
\<close>

section \<open>What the steps leave alone\<close>

lemmas step_defs = bindS_def liftS_def failS_def returnS_def warn_when_def warnS_def warn_all_eq Let_def

lemma count_frame:
  "count_manifest v s = (Inr u, t) \<Longrightarrow> t = s\<lparr> st_manifests := st_manifests s + 1 \<rparr>
     \<and> st_manifests t \<le> max_nested_manifests (rv_limits v)"
  by (auto simp: count_manifest_def step_defs split: if_splits)

text \<open>\<open>locate\<close> only adds warnings, a log entry and changes the cache.\<close>

definition located :: "rstate \<Rightarrow> rstate \<Rightarrow> bool" where
  "located s t \<longleftrightarrow> st_nodes t = st_nodes s \<and> st_resources t = st_resources s \<and> st_stack t = st_stack s
     \<and> st_visited t = st_visited s \<and> st_dedup t = st_dedup s \<and> st_manifests t = st_manifests s"

lemma located_simps [simp]:
  "located s s"
  "located s (t\<lparr> st_warnings := w \<rparr>) \<longleftrightarrow> located s t"
  "located s (t\<lparr> st_log := l \<rparr>) \<longleftrightarrow> located s t"
  "located s (t\<lparr> st_cache := f \<rparr>) \<longleftrightarrow> located s t"
  by (simp_all add: located_def)

lemma located_trans: "located s t \<Longrightarrow> located t u \<Longrightarrow> located s u"
  by (simp add: located_def)

lemma lookup_cache_located: "located s (snd (lookup_cache v m s)) \<and> st_log (snd (lookup_cache v m s)) = st_log s
    \<and> is_ok (fst (lookup_cache v m s))"
  by (auto simp: lookup_cache_def split: option.split prod.split)

lemma store_in_cache_located: "located s (snd (store_in_cache v m url b now s))
    \<and> st_log (snd (store_in_cache v m url b now s)) = st_log s \<and> is_ok (fst (store_in_cache v m url b now s))"
  by (auto simp: store_in_cache_def warnS_def split: option.split prod.split sum.split)

text \<open>Fetching logs at most its own request.\<close>

lemma fetch_remote_located:
  "located s (snd (fetch_remote v m url cached now s))
   \<and> (\<exists>new. st_log (snd (fetch_remote v m url cached now s)) = st_log s @ new \<and> set new \<subseteq> {Request m url})
   \<and> ends (\<lambda>(b, orig) t. is_remote orig) (\<lambda>e t. e \<noteq> Panic) (fetch_remote v m url cached now s)"
proof (cases "rv_remote v")
  case None
  then show ?thesis
    by (cases cached) (auto simp: fetch_remote_def step_defs from_cache_def)
next
  case (Some fetch)
  let ?s1 = "s\<lparr> st_log := st_log s @ [Request m url] \<rparr>"
  show ?thesis
  proof (cases "fetch (st_log s) url")
    case (Inl e)
    then show ?thesis using Some
      by (cases cached) (auto simp: fetch_remote_def step_defs from_cache_def)
  next
    case (Inr b)
    obtain r t where st: "store_in_cache v m url b now ?s1 = (Inr r, t)"
      using store_in_cache_located [of ?s1 v m url b now]
      by (cases "store_in_cache v m url b now ?s1") (auto simp: is_ok_iff)
    then show ?thesis
      using Some Inr store_in_cache_located [of ?s1 v m url b now] located_trans [of s ?s1 t]
      by (auto simp: fetch_remote_def step_defs)
  qed
qed

lemma locate_located:
  "located s (snd (locate v m s))
   \<and> (\<exists>new. st_log (snd (locate v m s)) = st_log s @ new
        \<and> set new \<subseteq> (if is_local (mu_authority m) then {StoreRead m} else {Request m (the (well_known_url m))}))
   \<and> ends (\<lambda>(b, orig) t. is_remote orig \<longleftrightarrow> \<not> is_local (mu_authority m)) (\<lambda>e t. e \<noteq> Panic) (locate v m s)"
proof (cases "is_local (mu_authority m)")
  case True
  then show ?thesis by (auto simp: locate_def failS_def Let_def split: sum.split prod.split)
next
  case False
  then obtain url where url: "well_known_url m = Some url"
    by (cases "mu_authority m") (auto simp: well_known_url_def Let_def)
  obtain c t where c: "lookup_cache v m s = (Inr c, t)"
    using lookup_cache_located [of s v m] by (cases "lookup_cache v m s") (auto simp: is_ok_iff)
  then have t: "located s t" "st_log t = st_log s" using lookup_cache_located [of s v m] by simp_all
  note f = fetch_remote_located [of t v m url c "rv_clock v (st_log s)"]
  have l: "locate v m s = (case c of Some e \<Rightarrow> if ce_fresh e then returnS (from_cache e) t
      else fetch_remote v m url c (rv_clock v (st_log s)) t | None \<Rightarrow> fetch_remote v m url c (rv_clock v (st_log s)) t)"
    using False c url by (simp add: locate_def bindS_def split: option.split)
  then consider e where "locate v m s = returnS (from_cache e) t"
    | "locate v m s = fetch_remote v m url c (rv_clock v (st_log s)) t"
    by (auto split: option.splits if_splits)
  then show ?thesis
  proof cases
    case 1
    then show ?thesis using False t by (simp add: returnS_def from_cache_def)
  next
    case 2
    have "located s (snd (locate v m s))" using f t(1) located_trans 2 by metis
    moreover have "ends (\<lambda>(b, orig) t. is_remote orig \<longleftrightarrow> \<not> is_local (mu_authority m)) (\<lambda>e t. e \<noteq> Panic) (locate v m s)"
      unfolding 2 using f False by (auto elim!: ends_mono)
    ultimately show ?thesis using f t(2) url False 2 by simp
  qed
qed

section \<open>Admission\<close>

lemma step_ok:
  "bindS m f s = (Inr b, t) \<longleftrightarrow> (\<exists>a u. m s = (Inr a, u) \<and> f a u = (Inr b, t))"
  "liftS r s = (Inr a, t') \<longleftrightarrow> r = Inr a \<and> t' = s"
  "returnS c s = (Inr d, t') \<longleftrightarrow> d = c \<and> t' = s"
  "failS e s = (Inr d, t') \<longleftrightarrow> False"
  "warn_when w txt s = (Inr u, t') \<longleftrightarrow> t' = (if w then s\<lparr> st_warnings := st_warnings s @ [txt] \<rparr> else s)"
  "warnS txt s = (Inr u, t') \<longleftrightarrow> t' = s\<lparr> st_warnings := st_warnings s @ [txt] \<rparr>"
  by (auto simp: bindS_def liftS_def returnS_def failS_def warn_when_def warnS_def split: prod.split sum.split)

lemma only_warnings [simp]:
  "(\<exists>w. s\<lparr> st_warnings := a \<rparr> = s\<lparr> st_warnings := w \<rparr>)"
  "(\<exists>w. s = s\<lparr> st_warnings := w \<rparr>)"
  by (auto intro: exI [of _ "st_warnings s"])

lemma check_manifest_ok:
  assumes "check_manifest v m b orig s = (Inr (mf, verified), t)"
  shows "(\<exists>w. t = s\<lparr> st_warnings := w \<rparr>)
    \<and> manifest_from_slice (x_events (rv_ext v)) (rv_limits v) b = Inr mf
    \<and> is_valid (validate (rv_ext v) mf) \<and> verify_manifest (rv_ext v) (mf_raw mf) = Inr verified
    \<and> bind_identity (node_label m orig) orig m (md_id (mf_doc mf)) = Inr ()"
proof -
  have valid: "is_valid r" if "into_result r = Inr u" for r u
    using that by (auto simp: into_result_def Let_def split: if_splits)
  obtain mf' where 1: "manifest_from_slice (x_events (rv_ext v)) (rv_limits v) b = Inr mf'"
    using assms unfolding check_manifest_def Let_def step_ok by blast
  then show ?thesis
    using assms by (auto simp: check_manifest_def Let_def step_ok warn_all_eq valid)
qed

lemma check_manifest_err:
  "ends (\<lambda>_ _. True) (\<lambda>e t. e \<noteq> Panic \<and> (\<exists>w. t = s\<lparr> st_warnings := w \<rparr>)) (check_manifest v m b orig s)"
  unfolding check_manifest_def Let_def
  by (intro ends_bindS [where Q = "\<lambda>_ t. \<exists>w. t = s\<lparr> st_warnings := w \<rparr>"])
     (auto simp: ends_liftS warn_all_eq split: sum.split)

definition admissible :: "resolver \<Rightarrow> murl option \<Rightarrow> bytes \<Rightarrow> origin \<Rightarrow> manifest \<Rightarrow> verified_signature option \<Rightarrow> bool" where
  "admissible v m b orig mf verified \<longleftrightarrow>
     manifest_from_slice (x_events (rv_ext v)) (rv_limits v) b = Inr mf
     \<and> is_valid (validate (rv_ext v) mf)
     \<and> verify_manifest (rv_ext v) (mf_raw mf) = Inr verified
     \<and> bind_identity (node_label m orig) orig m (md_id (mf_doc mf)) = Inr ()
     \<and> is_ok (execution_order (md_resources (mf_doc mf)))"

definition ctx_ok :: "node_ctx \<Rightarrow> rstate \<Rightarrow> bool" where
  "ctx_ok c s \<longleftrightarrow> cx_node c < length (st_nodes s)
     \<and> cx_resources c = md_resources (mf_doc (rn_manifest (st_nodes s ! cx_node c)))"

lemma admit_ok:
  assumes "admit v m b orig depth anchor s = (Inr (c, order), t)"
  shows "\<exists>mf verified now w. admissible v m b orig mf verified
    \<and> t = s\<lparr> st_warnings := w, st_nodes := st_nodes s @ [make_node v m b orig depth mf verified now] \<rparr>
    \<and> ctx_ok c t \<and> set order \<subseteq> {..<length (cx_resources c)}
    \<and> cx_depth c = depth \<and> cx_source c = locality_of_source orig m"
proof -
  obtain mf verified t1 where cm: "check_manifest v m b orig s = (Inr (mf, verified), t1)"
    and rest: "bindS (warn_when (is_expired (mf_doc mf) (rv_clock v (st_log t1)))
                 (node_label m orig @ '': manifest expired at '' @ (case md_expires (mf_doc mf) of Some e \<Rightarrow> e | None \<Rightarrow> []))) (\<lambda>_.
        bindS (warn_when (is_premature (mf_doc mf) (rv_clock v (st_log t1)))
                 (node_label m orig @ '': manifest is not valid before '' @ (case md_not_before (mf_doc mf) of Some e \<Rightarrow> e | None \<Rightarrow> []))) (\<lambda>_.
        bindS (push_node (make_node v m b orig depth mf verified (rv_clock v (st_log t1)))) (\<lambda>index.
        bindS (liftS (map_err EValidation (execution_order (md_resources (mf_doc mf))))) (\<lambda>order.
          returnS (\<lparr> cx_murl = m, cx_label = node_label m orig, cx_source = locality_of_source orig m, cx_node = index,
                     cx_depth = depth, cx_anchor = anchor, cx_resources = md_resources (mf_doc mf) \<rparr>, order))))) t1
       = (Inr (c, order), t)"
    using assms by (auto simp: admit_def Let_def step_ok)
  from check_manifest_ok [OF cm] obtain w1 where t1: "t1 = s\<lparr> st_warnings := w1 \<rparr>" by blast
  from rest obtain w where t: "t = s\<lparr> st_warnings := w, st_nodes := st_nodes s @
        [make_node v m b orig depth mf verified (rv_clock v (st_log t1))] \<rparr>"
    and o1: "execution_order (md_resources (mf_doc mf)) = Inr order"
    and c: "c = \<lparr> cx_murl = m, cx_label = node_label m orig, cx_source = locality_of_source orig m,
        cx_node = length (st_nodes s), cx_depth = depth, cx_anchor = anchor, cx_resources = md_resources (mf_doc mf) \<rparr>"
    unfolding t1 by (simp only: step_ok push_node_def) (auto split: if_splits)
  have "admissible v m b orig mf verified"
    using check_manifest_ok [OF cm] o1 by (simp add: admissible_def)
  moreover have "ctx_ok c t" by (simp add: ctx_ok_def c t make_node_def)
  moreover have "set order \<subseteq> {..<length (cx_resources c)}"
    using execution_order_greedy [OF o1] c by simp
  ultimately show ?thesis using t c by auto
qed

section \<open>Good outcomes\<close>

fun request_locality :: "request \<Rightarrow> locality" where
  "request_locality (StoreRead _) = ThisDevice"
| "request_locality (Request m _) = locality_of (mu_authority m)"

definition log_from :: "locality \<Rightarrow> rstate \<Rightarrow> rstate \<Rightarrow> bool" where
  "log_from L s t \<longleftrightarrow> (\<exists>new. st_log t = st_log s @ new \<and> list_all (\<lambda>r. L \<le> request_locality r) new)"

text \<open>No panic, no lookup nearer than \<open>L\<close>, and \<open>P\<close> if it succeeds.\<close>

definition good :: "locality \<Rightarrow> rstate \<Rightarrow> ('a \<Rightarrow> rstate \<Rightarrow> bool) \<Rightarrow> (fault + 'a) \<times> rstate \<Rightarrow> bool" where
  "good L s P out \<longleftrightarrow> log_from L s (snd out) \<and> ends P (\<lambda>e _. e \<noteq> Panic) out"

lemma log_from_same: "st_log t = st_log s \<Longrightarrow> log_from L s t"
  by (simp add: log_from_def)

lemma log_from_trans: "log_from L s t \<Longrightarrow> log_from L t u \<Longrightarrow> log_from L s u"
  unfolding log_from_def by (elim exE conjE) (simp add: list_all_append)

lemma good_ok: "good L s P (Inr a, t) \<longleftrightarrow> log_from L s t \<and> P a t"
  by (simp add: good_def)

lemma good_bindS:
  assumes "good L s Q (m s)" "\<And>a t. m s = (Inr a, t) \<Longrightarrow> Q a t \<Longrightarrow> good L t P (f a t)"
  shows "good L s P (bindS m f s)"
proof (cases "m s")
  case (Pair r t)
  then show ?thesis
  proof (cases r)
    case (Inl e)
    then show ?thesis using assms(1) Pair by (simp add: good_def bindS_def)
  next
    case (Inr a)
    then show ?thesis
      using assms Pair log_from_trans [of L s t] by (auto simp: good_def bindS_def)
  qed
qed

lemma good_mono: "good L s P out \<Longrightarrow> (\<And>a t. P a t \<Longrightarrow> P' a t) \<Longrightarrow> good L s P' out"
  by (auto simp: good_def elim: ends_mono)

text \<open>A step that succeeds in the log it found.\<close>

lemma good_quiet:
  "ends (\<lambda>a t. P a t \<and> st_log t = st_log s) (\<lambda>e t. e \<noteq> Panic \<and> st_log t = st_log s) out \<Longrightarrow> good L s P out"
  by (cases out; cases "fst out") (auto simp: good_def intro: log_from_same)

lemma good_liftS: "(\<And>a. r = Inr a \<Longrightarrow> P a s) \<Longrightarrow> good L s P (liftS r s)"
  by (rule good_quiet) (simp add: ends_liftS split: sum.split)

lemma count_good:
  "good L s (\<lambda>_ t. t = s\<lparr> st_manifests := st_manifests s + 1 \<rparr> \<and> st_manifests s + 1 \<le> max_nested_manifests (rv_limits v))
     (count_manifest v s)"
  by (rule good_quiet) (simp add: count_manifest_def Let_def)

lemma locality_of_origin:
  "(is_remote orig \<longleftrightarrow> \<not> is_local (mu_authority m)) \<Longrightarrow> locality_of_source orig (Some m) = locality_of (mu_authority m)"
  by (cases orig) (auto simp: locality_of_source_def locality_of_def)

lemma locate_good:
  assumes "L \<le> locality_of (mu_authority m)"
  shows "good L s (\<lambda>(b, orig) t. located s t \<and> locality_of_source orig (Some m) = locality_of (mu_authority m)) (locate v m s)"
proof -
  note l = locate_located [of s v m]
  from l obtain new where new: "st_log (snd (locate v m s)) = st_log s @ new"
    "set new \<subseteq> (if is_local (mu_authority m) then {StoreRead m} else {Request m (the (well_known_url m))})" by blast
  have "L \<le> request_locality r" if "r \<in> set new" for r
    using that new(2) assms by (auto simp: locality_of_def split: if_splits)
  then have "log_from L s (snd (locate v m s))" using new(1) by (auto simp: log_from_def list_all_iff)
  then show ?thesis
    using l locality_of_origin [of _ m]
    by (cases "locate v m s"; cases "fst (locate v m s)") (auto simp: good_def)
qed

lemma admit_good:
  "good L s (\<lambda>(c, order) t. \<exists>mf verified now w. admissible v m b orig mf verified
    \<and> t = s\<lparr> st_warnings := w, st_nodes := st_nodes s @ [make_node v m b orig depth mf verified now] \<rparr>
    \<and> ctx_ok c t \<and> set order \<subseteq> {..<length (cx_resources c)}
    \<and> cx_depth c = depth \<and> cx_source c = locality_of_source orig m) (admit v m b orig depth anchor s)"
    (is "good L s ?P ?a")
proof (rule good_quiet)
  have log: "ends (\<lambda>_ t. st_log t = st_log s) (\<lambda>e t. e \<noteq> Panic \<and> st_log t = st_log s) ?a"
  proof -
    have "ends (\<lambda>_ t. st_log t = st_log s) (\<lambda>e t. e \<noteq> Panic \<and> st_log t = st_log s) (check_manifest v m b orig s)"
      using check_manifest_err [of s v m b orig] check_manifest_ok [of v m b orig s]
      by (cases "check_manifest v m b orig s"; cases "fst (check_manifest v m b orig s)") force+
    then show ?thesis
      unfolding admit_def Let_def
      by (rule ends_bindS)
         (auto simp: push_node_def liftS_def bindS_def warn_when_def warnS_def returnS_def split: sum.split)
  qed
  then show "ends (\<lambda>a t. ?P a t \<and> st_log t = st_log s) (\<lambda>e t. e \<noteq> Panic \<and> st_log t = st_log s) ?a"
    using admit_ok [of v m b orig depth anchor s]
    by (cases ?a; cases "fst ?a") auto
qed

lemma nested_good:
  "good L s (\<lambda>oc t. case oc of
      None \<Rightarrow> \<exists>w. t = s\<lparr> st_warnings := w \<rparr>
    | Some child \<Rightarrow> murl_parse (rd_target r) = Inr child \<and> cx_source c \<le> locality_of (mu_authority child)
        \<and> cx_depth c + 1 \<le> max_depth (rv_limits v)
        \<and> identity child \<notin> set (st_stack s) \<and> identity child \<notin> set (st_visited s)
        \<and> (\<exists>w. t = s\<lparr> st_warnings := w, st_stack := st_stack s @ [identity child] \<rparr>)) (nested_child v c r s)"
  by (rule good_quiet)
     (auto simp: nested_child_def ends_def bindS_def liftS_def failS_def returnS_def warn_when_def warnS_def enter_child_def
        Let_def not_less split: sum.split intro: exI [of _ "st_warnings s"])

lemma plan_good:
  "good L s (\<lambda>_ t. (\<exists>w. t = s\<lparr> st_warnings := w \<rparr>)
      \<or> (length (st_resources s) + 1 \<le> max_total_resources (rv_limits v) \<and> (kind_display k, rd_target r) \<notin> set (st_dedup s)
         \<and> t = s\<lparr> st_dedup := (kind_display k, rd_target r) # st_dedup s, st_resources := st_resources s @ [planned c k r] \<rparr>))
     (plan_resource v c k r s)"
  by (rule good_quiet) (simp add: plan_resource_def Let_def not_less)

section \<open>The rule\<close>

definition frame :: "rstate \<Rightarrow> rstate \<Rightarrow> bool" where
  "frame s t \<longleftrightarrow> st_stack t = st_stack s \<and> (\<exists>ns. st_nodes t = st_nodes s @ ns)"

lemma frame_refl [simp]: "frame s s"
  by (simp add: frame_def)

lemma frame_updates [simp]:
  "frame s (t\<lparr> st_warnings := w \<rparr>) \<longleftrightarrow> frame s t"
  "frame s (t\<lparr> st_resources := rs \<rparr>) \<longleftrightarrow> frame s t"
  "frame s (t\<lparr> st_dedup := d \<rparr>) \<longleftrightarrow> frame s t"
  by (simp_all add: frame_def)

lemma frame_trans: "frame s t \<Longrightarrow> frame t u \<Longrightarrow> frame s u"
  by (auto simp: frame_def)

lemma ctx_ok_frame: "ctx_ok c s \<Longrightarrow> (\<exists>ns. st_nodes t = st_nodes s @ ns) \<Longrightarrow> ctx_ok c t"
  by (auto simp: ctx_ok_def nth_append)

text \<open>\<open>K m\<close>: the name \<open>m\<close> is about to be ingested. \<open>J m\<close>: its manifest is counted and being
  located and checked. \<open>I\<close>: between resources.\<close>

locale resolution_rules =
  fixes v :: resolver
    and K :: "murl \<Rightarrow> rstate \<Rightarrow> bool"
    and J :: "murl option \<Rightarrow> rstate \<Rightarrow> bool"
    and I :: "rstate \<Rightarrow> bool"
  assumes counted: "K m s \<Longrightarrow> st_manifests s + 1 \<le> max_nested_manifests (rv_limits v) \<Longrightarrow>
      J (Some m) (s\<lparr> st_manifests := st_manifests s + 1 \<rparr>)"
    and located: "J om s \<Longrightarrow> located s t \<Longrightarrow> J om t"
    and admitted: "J om s \<Longrightarrow> admissible v om b orig mf verified \<Longrightarrow> depth \<le> max_depth (rv_limits v) \<Longrightarrow>
      I (s\<lparr> st_warnings := w, st_nodes := st_nodes s @ [make_node v om b orig depth mf verified now] \<rparr>)"
    and warned: "I s \<Longrightarrow> I (s\<lparr> st_warnings := w \<rparr>)"
    and nested: "I s \<Longrightarrow> murl_parse text1 = Inr child \<Longrightarrow> identity child \<notin> set (st_stack s) \<Longrightarrow>
      identity child \<notin> set (st_visited s) \<Longrightarrow>
      K child (s\<lparr> st_warnings := w, st_stack := st_stack s @ [identity child] \<rparr>)"
    and left: "I s \<Longrightarrow> st_stack s = stk @ [ident] \<Longrightarrow> I (s\<lparr> st_stack := stk, st_visited := ident # st_visited s \<rparr>)"
    and planned: "I s \<Longrightarrow> ctx_ok c s \<Longrightarrow> r \<in> set (cx_resources c) \<Longrightarrow> kind_parse (rd_kind r) = Inr k \<Longrightarrow> k \<noteq> kind.Murl \<Longrightarrow>
      length (st_resources s) + 1 \<le> max_total_resources (rv_limits v) \<Longrightarrow>
      (kind_display k, rd_target r) \<notin> set (st_dedup s) \<Longrightarrow>
      I (s\<lparr> st_dedup := (kind_display k, rd_target r) # st_dedup s, st_resources := st_resources s @ [planned c k r] \<rparr>)"
begin

lemma bytes_step:
  assumes "J om s" "depth \<le> max_depth (rv_limits v)" "L \<le> locality_of_source orig om"
    and loop: "\<And>c order t. I t \<Longrightarrow> ctx_ok c t \<Longrightarrow> set order \<subseteq> {..<length (cx_resources c)} \<Longrightarrow> cx_depth c = depth \<Longrightarrow>
      cx_source c = locality_of_source orig om \<Longrightarrow>
      good L t (\<lambda>_ u. I u \<and> frame t u) (ingest_resources v c order t)"
  shows "good L s (\<lambda>_ t. I t \<and> frame s t) (ingest_bytes v om b orig depth anchor s)"
  unfolding ingest_bytes.simps
proof (rule good_bindS [OF admit_good])
  fix a t
  assume "(case a of (c, order) \<Rightarrow> \<lambda>t. \<exists>mf verified now w. admissible v om b orig mf verified
    \<and> t = s\<lparr> st_warnings := w, st_nodes := st_nodes s @ [make_node v om b orig depth mf verified now] \<rparr>
    \<and> ctx_ok c t \<and> set order \<subseteq> {..<length (cx_resources c)}
    \<and> cx_depth c = depth \<and> cx_source c = locality_of_source orig om) t"
  then obtain c order mf verified now w where a: "a = (c, order)" and adm: "admissible v om b orig mf verified"
    and t: "t = s\<lparr> st_warnings := w, st_nodes := st_nodes s @ [make_node v om b orig depth mf verified now] \<rparr>"
    and c: "ctx_ok c t" "set order \<subseteq> {..<length (cx_resources c)}" "cx_depth c = depth" "cx_source c = locality_of_source orig om"
    by (cases a) auto
  have "I t" unfolding t by (rule admitted [OF assms(1) adm assms(2)])
  moreover have "frame s t" by (simp add: t frame_def)
  ultimately show "good L t (\<lambda>_ t. I t \<and> frame s t)
      ((case a of (c, order) \<Rightarrow> \<lambda>t. ingest_resources v c order t) t)"
    using loop [of t c order] c frame_trans [of s t] by (auto simp: a elim: good_mono)
qed

lemma named_step:
  assumes "K m s" "depth \<le> max_depth (rv_limits v)" "L \<le> locality_of (mu_authority m)"
    and bytes: "\<And>b orig t. J (Some m) t \<Longrightarrow> L \<le> locality_of_source orig (Some m) \<Longrightarrow>
      good L t (\<lambda>_ u. I u \<and> frame t u) (ingest_bytes v (Some m) b orig depth anchor t)"
  shows "good L s (\<lambda>_ t. I t \<and> frame s t) (ingest_named v m depth anchor pin s)"
  unfolding ingest_named.simps
proof (rule good_bindS [OF count_good])
  fix u :: unit and t assume t: "t = s\<lparr> st_manifests := st_manifests s + 1 \<rparr> \<and> st_manifests s + 1 \<le> max_nested_manifests (rv_limits v)"
  then have J: "J (Some m) t" and fr: "frame s t" using counted [OF assms(1)] by (simp_all add: frame_def)
  show "good L t (\<lambda>_ t. I t \<and> frame s t)
    (bindS (locate v m) (\<lambda>(b, orig). bindS (liftS (case pin of None \<Rightarrow> Inr () | Some pin \<Rightarrow> check_integrity (rv_ext v) b pin))
        (\<lambda>_. ingest_bytes v (Some m) b orig depth anchor)) t)"
  proof (rule good_bindS [OF locate_good [OF assms(3)]])
    fix bo :: "bytes \<times> origin" and t'
    assume "(case bo of (b, orig) \<Rightarrow> \<lambda>t'. located t t' \<and> locality_of_source orig (Some m) = locality_of (mu_authority m)) t'"
    then obtain b orig where bo: "bo = (b, orig)" and l: "located t t'"
      and src: "locality_of_source orig (Some m) = locality_of (mu_authority m)" by (cases bo) auto
    have "J (Some m) t'" by (rule located [OF J l])
    then have "good L t' (\<lambda>_ u. I u \<and> frame t' u) (ingest_bytes v (Some m) b orig depth anchor t')"
      using bytes assms(3) src by simp
    moreover have "frame s t'" using fr l by (auto simp: frame_def located_def)
    ultimately have body: "good L t' (\<lambda>_ u. I u \<and> frame s u) (ingest_bytes v (Some m) b orig depth anchor t')"
      using frame_trans by (auto elim!: good_mono)
    show "good L t' (\<lambda>_ t. I t \<and> frame s t)
      ((case bo of (b, orig) \<Rightarrow> bindS (liftS (case pin of None \<Rightarrow> Inr () | Some pin \<Rightarrow> check_integrity (rv_ext v) b pin))
        (\<lambda>_. ingest_bytes v (Some m) b orig depth anchor)) t')"
      unfolding bo prod.case
      by (rule good_bindS [where Q = "\<lambda>_ u. u = t'"]) (auto intro: good_liftS body)
  qed
qed

lemma child_step:
  assumes I: "I s" and c: "ctx_ok c s"
    and child: "murl_parse (rd_target r) = Inr child" "identity child \<notin> set (st_stack s)" "identity child \<notin> set (st_visited s)"
    and t: "t = s\<lparr> st_warnings := w, st_stack := st_stack s @ [identity child] \<rparr>"
    and named: "K child t \<Longrightarrow> good L t (\<lambda>_ u. I u \<and> frame t u) (named t)"
    and rest: "\<And>u. I u \<Longrightarrow> ctx_ok c u \<Longrightarrow> good L u (\<lambda>_ z. I z \<and> frame u z) (loop u)"
  shows "good L t (\<lambda>_ u. I u \<and> frame s u) (bindS named (\<lambda>_. bindS (leave_child (identity child)) (\<lambda>_. loop)) t)"
proof (rule good_bindS [where Q = "\<lambda>_ u. I u \<and> frame t u"])
  have "K child t" unfolding t by (rule nested [OF I child])
  then show "good L t (\<lambda>_ u. I u \<and> frame t u) (named t)" by (rule named)
next
  fix x :: 'x and u assume u: "I u \<and> frame t u"
  let ?u = "u\<lparr> st_stack := st_stack s, st_visited := identity child # st_visited u \<rparr>"
  have "leave_child (identity child) u = (Inr (), ?u)"
    using u by (simp add: leave_child_def frame_def t)
  moreover have "I ?u" using u by (intro left) (auto simp: frame_def t)
  moreover have fr: "frame s ?u" using u by (auto simp: frame_def t)
  moreover have "ctx_ok c ?u" using fr c by (auto simp: frame_def elim!: ctx_ok_frame)
  moreover have "log_from L u ?u" by (simp add: log_from_same)
  ultimately show "good L u (\<lambda>_ u. I u \<and> frame s u) (bindS (leave_child (identity child)) (\<lambda>_. loop) u)"
    using rest [of ?u] frame_trans [OF fr]
    by (intro good_bindS [where Q = "\<lambda>_ z. z = ?u"]) (auto simp: good_ok elim!: good_mono)
qed

lemma resource_step:
  assumes I: "I s" and c: "ctx_ok c s" and i: "i < length (cx_resources c)"
    and rest: "\<And>u. I u \<Longrightarrow> ctx_ok c u \<Longrightarrow> good L u (\<lambda>_ z. I z \<and> frame u z) (ingest_resources v c rest u)"
    and named: "\<And>child anchor pin t. K child t \<Longrightarrow> cx_depth c + 1 \<le> max_depth (rv_limits v) \<Longrightarrow>
      cx_source c \<le> locality_of (mu_authority child) \<Longrightarrow>
      good L t (\<lambda>_ u. I u \<and> frame t u) (ingest_named v child (cx_depth c + 1) anchor pin t)"
  shows "good L s (\<lambda>_ t. I t \<and> frame s t) (ingest_resources v c (i # rest) s)"
proof -
  define r where "r = cx_resources c ! i"
  have r: "nth_opt (cx_resources c) i = Some r" "r \<in> set (cx_resources c)" using i by (simp_all add: nth_opt_def r_def)
  have after: "good L t (\<lambda>_ z. I z \<and> frame s z) (ingest_resources v c rest t)" if "I t" "frame s t" for t
  proof -
    have "ctx_ok c t" using that(2) c by (auto simp: frame_def elim!: ctx_ok_frame)
    from rest [OF that(1) this] show ?thesis using frame_trans [OF that(2)] by (auto elim!: good_mono)
  qed
  show ?thesis
    unfolding ingest_resources.simps r option.case
  proof (rule good_bindS [where Q = "\<lambda>k t. kind_parse (rd_kind r) = Inr k \<and> t = s"])
    show "good L s (\<lambda>k t. kind_parse (rd_kind r) = Inr k \<and> t = s) (liftS (map_err EValidation (kind_parse (rd_kind r))) s)"
      by (rule good_liftS) simp
    fix k t assume "kind_parse (rd_kind r) = Inr k \<and> t = s"
    then have k: "kind_parse (rd_kind r) = Inr k" and t: "t = s" by simp_all
    show "good L t (\<lambda>_ t. I t \<and> frame s t)
      (if k = kind.Murl then bindS (nested_child v c r) (\<lambda>oc t. case oc of None \<Rightarrow> ingest_resources v c rest t
          | Some child \<Rightarrow> bindS (ingest_named v child (cx_depth c + 1)
                (Some (case cx_anchor c of None \<Rightarrow> rd_id r | Some a \<Rightarrow> a)) (rd_integrity r))
              (\<lambda>_. bindS (leave_child (identity child)) (\<lambda>_. ingest_resources v c rest)) t) t
       else bindS (plan_resource v c k r) (\<lambda>_. ingest_resources v c rest) t)"
    proof (cases "k = kind.Murl")
      case False
      then show ?thesis
        unfolding t
        using planned [OF I c r(2) k False] warned [OF I]
        by (auto intro!: good_bindS [OF plan_good] after)
    next
      case True
      have "good L u (\<lambda>_ t. I t \<and> frame s t) (case oc of None \<Rightarrow> ingest_resources v c rest u
          | Some child \<Rightarrow> bindS (ingest_named v child (cx_depth c + 1)
                (Some (case cx_anchor c of None \<Rightarrow> rd_id r | Some a \<Rightarrow> a)) (rd_integrity r))
              (\<lambda>_. bindS (leave_child (identity child)) (\<lambda>_. ingest_resources v c rest)) u)"
        if H: "case oc of None \<Rightarrow> \<exists>w. u = s\<lparr> st_warnings := w \<rparr>
          | Some child \<Rightarrow> murl_parse (rd_target r) = Inr child \<and> cx_source c \<le> locality_of (mu_authority child)
              \<and> cx_depth c + 1 \<le> max_depth (rv_limits v)
              \<and> identity child \<notin> set (st_stack s) \<and> identity child \<notin> set (st_visited s)
              \<and> (\<exists>w. u = s\<lparr> st_warnings := w, st_stack := st_stack s @ [identity child] \<rparr>)" for oc u
      proof (cases oc)
        case None
        then show ?thesis using H warned [OF I] by (auto intro!: after)
      next
        case (Some child)
        then obtain w where "u = s\<lparr> st_warnings := w, st_stack := st_stack s @ [identity child] \<rparr>" using H by auto
        then show ?thesis
          using H Some named by (auto intro!: child_step [OF I c] rest)
      qed
      then show ?thesis
        unfolding t using True by (auto intro!: good_bindS [OF nested_good])
    qed
  qed
qed

text \<open>The rule, by induction on the depth that is left and on the resources.\<close>

lemma resources_rule:
  assumes "I s" "ctx_ok c s" "set idxs \<subseteq> {..<length (cx_resources c)}"
    "cx_depth c \<le> max_depth (rv_limits v)" "L \<le> cx_source c"
  shows "good L s (\<lambda>_ t. I t \<and> frame s t) (ingest_resources v c idxs s)"
  using assms
proof (induction "max_depth (rv_limits v) - cx_depth c" arbitrary: c idxs s rule: less_induct)
  case less
  have named: "good L t (\<lambda>_ u. I u \<and> frame t u) (ingest_named v child (cx_depth c + 1) anchor pin t)"
    if "K child t" "cx_depth c + 1 \<le> max_depth (rv_limits v)" "cx_source c \<le> locality_of (mu_authority child)"
    for child anchor pin t
    using that less.prems(5) less.hyps
    by (intro named_step bytes_step) (auto intro: order_trans)
  from less.prems show ?case
  proof (induction idxs arbitrary: s)
    case Nil
    then show ?case by (simp add: good_ok log_from_same)
  next
    case (Cons i idxs)
    then show ?case by (intro resource_step named) auto
  qed
qed

lemma bytes_rule:
  assumes "J om s" "depth \<le> max_depth (rv_limits v)" "L \<le> locality_of_source orig om"
  shows "good L s (\<lambda>_ t. I t \<and> frame s t) (ingest_bytes v om b orig depth anchor s)"
  using assms by (intro bytes_step resources_rule) auto

lemma named_rule:
  assumes "K m s" "depth \<le> max_depth (rv_limits v)" "L \<le> locality_of (mu_authority m)"
  shows "good L s (\<lambda>_ t. I t \<and> frame s t) (ingest_named v m depth anchor pin s)"
  using assms by (intro named_step bytes_rule) auto

end

end
