(* ===== verification/Resolver_Sample.thy ===== *)
theory Resolver_Sample
  imports Resolver_Rules
begin

text \<open>
  A concrete resolution, computed step by step: two names of the local store, one nested
  in the other. The properties of the resolver are applied to it.
\<close>

section \<open>Running the steps\<close>

definition start_state :: "fs \<Rightarrow> murl \<Rightarrow> rstate" where
  "start_state cache m = (default_state cache)\<lparr> st_stack := [identity m] \<rparr>"

lemma resolve_unfold:
  "resolve v cache m = bindS (ingest_named v m 0 None None) (\<lambda>_ s.
     (finish (s\<lparr> st_stack := butlast (st_stack s) \<rparr>) (mu_selector m), s\<lparr> st_stack := butlast (st_stack s) \<rparr>)) (start_state cache m)"
  by (simp add: resolve_def bindS_def enter_child_def start_state_def default_state_def Let_def split: prod.split sum.split)

lemma finish_stack: "finish (s\<lparr> st_stack := x \<rparr>) sel = finish s sel"
  by (simp add: finish_def)

lemma bindS_run: "m s = (Inr a, t) \<Longrightarrow> bindS m f s = f a t"
  by (simp add: bindS_def)

text \<open>A clean manifest of the name store: no warnings, no signature, no dates, no id.\<close>

definition clean :: "resolver \<Rightarrow> bytes \<Rightarrow> manifest \<Rightarrow> nat list \<Rightarrow> bool" where
  "clean v b mf order \<longleftrightarrow> manifest_from_slice (x_events (rv_ext v)) (rv_limits v) b = Inr mf
     \<and> vr_errors (validate (rv_ext v) mf) = [] \<and> vr_warnings (validate (rv_ext v) mf) = []
     \<and> verify_manifest (rv_ext v) (mf_raw mf) = Inr None \<and> md_id (mf_doc mf) = None
     \<and> md_expires (mf_doc mf) = None \<and> md_not_before (mf_doc mf) = None
     \<and> execution_order (md_resources (mf_doc mf)) = Inr order"

definition clean_ctx :: "murl \<Rightarrow> nat \<Rightarrow> nat \<Rightarrow> string option \<Rightarrow> manifest \<Rightarrow> node_ctx" where
  "clean_ctx m node depth anchor mf = \<lparr> cx_murl = Some m, cx_label = identity m, cx_source = ThisDevice, cx_node = node,
     cx_depth = depth, cx_anchor = anchor, cx_resources = md_resources (mf_doc mf) \<rparr>"

lemma check_manifest_run:
  assumes "clean v b mf order"
  shows "check_manifest v m b orig s = (Inr (mf, None), s)"
proof -
  have i: "into_result (validate (rv_ext v) mf) = Inr (validate (rv_ext v) mf)"
    using assms by (simp add: clean_def into_result_def is_valid_def)
  have "bind_identity l orig m None = Inr ()" for l
    by (simp add: bind_identity_def split: option.split)
  then show ?thesis
    using assms i unfolding check_manifest_def Let_def clean_def
    by (simp add: bindS_def liftS_def warn_when_def returnS_def)
qed

lemma admit_run:
  assumes "clean v b mf order"
  shows "admit v (Some m) b (LocalStore p) depth anchor s =
    (Inr (clean_ctx m (length (st_nodes s)) depth anchor mf, order),
     s\<lparr> st_nodes := st_nodes s @ [make_node v (Some m) b (LocalStore p) depth mf None (rv_clock v (st_log s))] \<rparr>)"
  unfolding admit_def Let_def bindS_run [OF check_manifest_run [OF assms]] prod.case
  using assms
  by (simp add: clean_def is_expired_def is_premature_def bindS_def warn_when_def returnS_def liftS_def push_node_def
      clean_ctx_def node_label_def locality_of_source_def)

lemma named_run:
  assumes "clean v b mf order" "is_local (mu_authority m)" "store_load (rv_names_root v) (rv_names v) m = Inr (b, p)"
    "st_manifests s + 1 \<le> max_nested_manifests (rv_limits v)"
  shows "\<exists>n. rn_identity n = Some (identity m) \<and> rn_manifest n = mf \<and> rn_raw_bytes n = b \<and> ingest_named v m depth anchor None s =
    ingest_resources v (clean_ctx m (length (st_nodes s)) depth anchor mf) order
      (s\<lparr> st_manifests := st_manifests s + 1, st_log := st_log s @ [StoreRead m], st_nodes := st_nodes s @ [n] \<rparr>)"
proof -
  have c: "count_manifest v s = (Inr (), s\<lparr> st_manifests := st_manifests s + 1 \<rparr>)"
    using assms(4) by (simp add: count_manifest_def Let_def)
  have l: "locate v m t = (Inr (b, LocalStore (path_display (rv_names_root v) p)), t\<lparr> st_log := st_log t @ [StoreRead m] \<rparr>)" for t
    using assms(2,3) by (simp add: locate_def Let_def)
  show ?thesis
    by (simp add: ingest_named.simps c l liftS_def bindS_def ingest_bytes.simps admit_run [OF assms(1)])
      (rule exI [of _ "make_node v (Some m) b (LocalStore (path_display (rv_names_root v) p)) depth mf None (rv_clock v (st_log s @ [StoreRead m]))"],
        simp add: make_node_def)
qed


lemma plan_run:
  assumes "nth_opt (cx_resources c) i = Some r" "kind_parse (rd_kind r) = Inr k" "k \<noteq> kind.Murl"
    "length (st_resources s) + 1 \<le> max_total_resources (rv_limits v)"
  shows "ingest_resources v c (i # rest) s = ingest_resources v c rest
    (if (kind_display k, rd_target r) \<in> set (st_dedup s)
     then s\<lparr> st_warnings := st_warnings s @ [cx_label c @ '': duplicate resource ('' @ kind_display k @ '' '' @ rd_target r @ '') skipped''] \<rparr>
     else s\<lparr> st_dedup := (kind_display k, rd_target r) # st_dedup s, st_resources := st_resources s @ [planned c k r] \<rparr>)"
  using assms by (simp add: ingest_resources.simps bindS_def liftS_def plan_resource_def warnS_def Let_def)

lemma not_below_ThisDevice [simp]: "\<not> l < ThisDevice"
  by (simp add: less_locality_def locality_rank_def)

lemma child_run:
  assumes "nth_opt (cx_resources c) i = Some r" "kind_parse (rd_kind r) = Inr kind.Murl"
    "murl_parse (rd_target r) = Inr child" "cx_source c = ThisDevice" "mu_selector child = None"
    "cx_depth c + 1 \<le> max_depth (rv_limits v)" "identity child \<notin> set (st_stack s)" "identity child \<notin> set (st_visited s)"
    "\<not> crosses_authority (cx_murl c) child"
    "ingest_named v child (cx_depth c + 1) (Some (case cx_anchor c of Some a \<Rightarrow> a | None \<Rightarrow> rd_id r)) (rd_integrity r)
       (s\<lparr> st_stack := st_stack s @ [identity child] \<rparr>) = (Inr (), t)"
  shows "ingest_resources v c (i # rest) s = ingest_resources v c rest
    (t\<lparr> st_stack := butlast (st_stack t), st_visited := identity child # st_visited t \<rparr>)"
  using assms
  by (simp add: ingest_resources.simps bindS_def liftS_def nested_child_def warn_when_def returnS_def enter_child_def
      leave_child_def Let_def not_less [symmetric])

section \<open>Two stored names\<close>

text \<open>The first name has a web page and nests the second, which has the same
  page again and a directory.\<close>

definition sample_events :: "bytes \<Rightarrow> string + raw" where
  "sample_events b =
     (if b = ''root'' then Inr (RMap [(''murlVersion'', RStr ''0.2''), (''name'', RStr ''Root''),
        (''resources'', RSeq [
          RMap [(''id'', RStr ''page''), (''kind'', RStr ''https''), (''target'', RStr ''https://x.example/'')],
          RMap [(''id'', RStr ''more''), (''kind'', RStr ''murl''), (''target'', RStr ''murl://local/kid'')]])])
      else if b = ''kid'' then Inr (RMap [(''murlVersion'', RStr ''0.2''), (''name'', RStr ''Kid''),
        (''resources'', RSeq [
          RMap [(''id'', RStr ''page''), (''kind'', RStr ''https''), (''target'', RStr ''https://x.example/'')],
          RMap [(''id'', RStr ''src''), (''kind'', RStr ''dir''), (''target'', RStr ''~/src'')]])])
      else Inl ''not JSON'')"

definition sample_name :: "string \<Rightarrow> murl" where
  "sample_name n = \<lparr> mu_authority = Local, mu_name = [n], mu_version = Latest, mu_selector = None, mu_query = None \<rparr>"

definition sample_resolver :: resolver where
  "sample_resolver = \<lparr> rv_ext = toy_ext\<lparr> x_events := sample_events \<rparr>, rv_codec = toy_codec, rv_names_root = ''names'',
     rv_names = snd (store_add (sample_name ''kid'') ''kid'' (snd (store_add (sample_name ''root'') ''root'' []))),
     rv_remote = None, rv_cache = None, rv_trust_store = in_memory, rv_limits = default_limits, rv_clock = (\<lambda>_. 1700000000) \<rparr>"

definition sample_manifest :: "bytes \<Rightarrow> manifest" where
  "sample_manifest b = projr (manifest_from_slice sample_events default_limits b)"

lemma sample_cleanI:
  assumes "manifest_from_slice sample_events default_limits b = Inr (sample_manifest b)"
    and "vr_errors (validate (rv_ext sample_resolver) (sample_manifest b)) = []
       \<and> vr_warnings (validate (rv_ext sample_resolver) (sample_manifest b)) = []"
    and "verify_manifest (rv_ext sample_resolver) (mf_raw (sample_manifest b)) = Inr None \<and> md_id (mf_doc (sample_manifest b)) = None
       \<and> md_expires (mf_doc (sample_manifest b)) = None \<and> md_not_before (mf_doc (sample_manifest b)) = None
       \<and> execution_order (md_resources (mf_doc (sample_manifest b))) = Inr order"
  shows "clean sample_resolver b (sample_manifest b) order"
  using assms by (simp add: clean_def sample_resolver_def)

lemma sample_clean:
  "clean sample_resolver ''root'' (sample_manifest ''root'') [0, 1]"
  "clean sample_resolver ''kid'' (sample_manifest ''kid'') [0, 1]"
  by (rule sample_cleanI; code_simp)+

definition sample_doc :: "string \<Rightarrow> string \<Rightarrow> string \<Rightarrow> resource_doc" where
  "sample_doc i k t = \<lparr> rd_id = i, rd_kind = k, rd_target = t, rd_label = None, rd_role = None, rd_required = False,
     rd_order = 100, rd_depends_on = [], rd_tags = [], rd_integrity = None, rd_meta = None \<rparr>"

lemma sample_docs:
  "md_resources (mf_doc (sample_manifest ''root'')) = [sample_doc ''page'' ''https'' ''https://x.example/'', sample_doc ''more'' ''murl'' ''murl://local/kid'']"
  "md_resources (mf_doc (sample_manifest ''kid'')) = [sample_doc ''page'' ''https'' ''https://x.example/'', sample_doc ''src'' ''dir'' ''~/src'']"
  by code_simp+

lemma sample_names:
  "\<exists>p. store_load ''names'' (rv_names sample_resolver) (sample_name ''root'') = Inr (''root'', p)"
  "\<exists>p. store_load ''names'' (rv_names sample_resolver) (sample_name ''kid'') = Inr (''kid'', p)"
proof -
  have "case store_load ''names'' (rv_names sample_resolver) (sample_name ''root'') of Inr (b, p) \<Rightarrow> b = ''root'' | Inl _ \<Rightarrow> False"
    "case store_load ''names'' (rv_names sample_resolver) (sample_name ''kid'') of Inr (b, p) \<Rightarrow> b = ''kid'' | Inl _ \<Rightarrow> False" by code_simp+
  then show "\<exists>p. store_load ''names'' (rv_names sample_resolver) (sample_name ''root'') = Inr (''root'', p)"
    "\<exists>p. store_load ''names'' (rv_names sample_resolver) (sample_name ''kid'') = Inr (''kid'', p)"
    by (auto split: sum.splits)
qed


lemma sample_resolves:
  "\<exists>r s. resolve sample_resolver [] (sample_name ''root'') = (Inr r, s)
     \<and> length (rs_nodes r) = 2 \<and> map (\<lambda>pr. (rd_id (pr_resource pr), pr_root_anchor pr)) (rs_resources r) = [(''page'', ''page''), (''src'', ''more'')]"
proof -
  let ?root = "sample_name ''root''" and ?kid = "sample_name ''kid''"
  let ?c = "clean_ctx ?root"
  have names: "rv_names_root sample_resolver = ''names''" and lim: "rv_limits sample_resolver = default_limits" by (simp_all add: sample_resolver_def)
  have loc: "is_local (mu_authority ?root)" "is_local (mu_authority ?kid)" by (simp_all add: sample_name_def)
  obtain p pk where load: "store_load ''names'' (rv_names sample_resolver) ?root = Inr (''root'', p)"
    "store_load ''names'' (rv_names sample_resolver) ?kid = Inr (''kid'', pk)" using sample_names by blast
  have parse: "murl_parse ''murl://local/kid'' = Inr ?kid" by code_simp
  have kinds: "kind_parse ''https'' = Inr Https" "kind_parse ''dir'' = Inr Dir" "kind_parse ''murl'' = Inr kind.Murl" by code_simp+
  have ids: "identity ?root = ''murl://local/root''" "identity ?kid = ''murl://local/kid''" by code_simp+
  let ?v = sample_resolver
  define c0 where "c0 = clean_ctx ?root 0 0 None (sample_manifest ''root'')"
  define c1 where "c1 = clean_ctx ?kid 1 1 (Some ''more'') (sample_manifest ''kid'')"
  define s0 where "s0 = start_state [] ?root"
  note st = start_state_def default_state_def ids
  note step = clean_ctx_def sample_docs sample_doc_def nth_opt_def kinds lim default_limits_def
  obtain n0 where 0: "ingest_named ?v ?root 0 None None s0 = ingest_resources ?v c0 [0, 1]
        (s0\<lparr> st_manifests := 1, st_log := [StoreRead ?root], st_nodes := [n0] \<rparr>)" (is "_ = ingest_resources _ _ _ ?s1")
    using named_run [OF sample_clean(1) loc(1) load(1) [folded names], of s0 0 None]
    by (auto simp: s0_def st lim default_limits_def c0_def)
  let ?page = "sample_doc ''page'' ''https'' ''https://x.example/''" and ?src = "sample_doc ''src'' ''dir'' ''~/src''"
  have 1: "ingest_resources ?v c0 [0, 1] ?s1 = ingest_resources ?v c0 [1]
      (?s1\<lparr> st_dedup := [(''https'', ''https://x.example/'')], st_resources := [planned c0 Https ?page] \<rparr>)" (is "_ = ingest_resources _ _ _ ?s2")
    using plan_run [of c0 0 ?page Https ?s1 ?v "[1]"] by (simp add: c0_def step s0_def st)
  let ?s3 = "?s2\<lparr> st_stack := [identity ?root, identity ?kid] \<rparr>"
  obtain n1 where 2: "ingest_named ?v ?kid 1 (Some ''more'') None ?s3 = ingest_resources ?v c1 [0, 1]
        (?s3\<lparr> st_manifests := 2, st_log := [StoreRead ?root, StoreRead ?kid], st_nodes := [n0, n1] \<rparr>)" (is "_ = ingest_resources _ _ _ ?s4")
    using named_run [OF sample_clean(2) loc(2) load(2) [folded names], of ?s3 1 "Some ''more''"]
    by (auto simp: lim default_limits_def c1_def numeral_2_eq_2)
  obtain w where 3: "ingest_resources ?v c1 [0, 1] ?s4 = ingest_resources ?v c1 [1] (?s4\<lparr> st_warnings := w \<rparr>)" (is "_ = ingest_resources _ _ _ ?s5")
    using plan_run [of c1 0 ?page Https ?s4 ?v "[1]"] by (simp add: c1_def step)
  let ?s6 = "?s5\<lparr> st_dedup := (''dir'', ''~/src'') # st_dedup ?s5, st_resources := [planned c0 Https ?page, planned c1 Dir ?src] \<rparr>"
  have 4: "ingest_resources ?v c1 [1] ?s5 = (Inr (), ?s6)"
    using plan_run [of c1 1 ?src Dir ?s5 ?v "[]"] by (simp add: c1_def step)
  let ?s7 = "?s6\<lparr> st_stack := [identity ?root], st_visited := [identity ?kid] \<rparr>"
  have 5: "ingest_resources ?v c0 [1] ?s2 = (Inr (), ?s7)"
    using child_run [of c0 1 "sample_doc ''more'' ''murl'' ''murl://local/kid''" ?kid ?v ?s2 ?s6 "[]"] 2 3 4
    by (simp add: c0_def step parse s0_def st crosses_authority_def) (simp add: sample_name_def)
  have sel: "mu_selector ?root = None" by (simp add: sample_name_def)
  have "resolve ?v [] ?root = (finish (?s7\<lparr> st_stack := [] \<rparr>) None, ?s7\<lparr> st_stack := [] \<rparr>)"
    unfolding resolve_unfold s0_def [symmetric] bindS_def 0 1 5 prod.case sum.case
    by (simp add: sel)
  then show ?thesis
    by (simp add: finish_def planned_def c0_def c1_def clean_ctx_def sample_doc_def)
qed

end
