(* ===== verification/Resolver_Props.thy ===== *)
theory Resolver_Props
  imports Resolver_Sample
begin

text \<open>
  What a resolution guarantees: bounds, well-formed nodes and resources, no panic, the
  locality of every lookup, trust, selectors, and the policy pass over a result. The
  facts come from one interpretation of \<open>resolution_rules\<close>.
\<close>

section \<open>The invariant\<close>

text \<open>A node is what \<open>make_node\<close> builds from an admissible document.\<close>

definition node_from :: "resolver \<Rightarrow> resolved_node \<Rightarrow> bool" where
  "node_from v n \<longleftrightarrow> (\<exists>m verified now. admissible v m (rn_raw_bytes n) (rn_origin n) (rn_manifest n) verified
     \<and> n = make_node v m (rn_raw_bytes n) (rn_origin n) (rn_depth n) (rn_manifest n) verified now
     \<and> rn_depth n \<le> max_depth (rv_limits v))"

definition planned_from :: "resolved_node list \<Rightarrow> planned_resource \<Rightarrow> bool" where
  "planned_from nodes pr \<longleftrightarrow> pr_node pr < length nodes
     \<and> pr_resource pr \<in> set (md_resources (mf_doc (rn_manifest (nodes ! pr_node pr))))
     \<and> kind_parse (rd_kind (pr_resource pr)) = Inr (pr_kind pr) \<and> pr_kind pr \<noteq> kind.Murl
     \<and> pr_tier pr = classify (pr_kind pr) (rd_target (pr_resource pr))"

definition plan_key :: "planned_resource \<Rightarrow> string \<times> string" where
  "plan_key pr = (kind_display (pr_kind pr), rd_target (pr_resource pr))"

definition node_ids :: "resolved_node list \<Rightarrow> string list" where
  "node_ids nodes = List.map_filter rn_identity nodes"

definition state_ok :: "resolver \<Rightarrow> rstate \<Rightarrow> bool" where
  "state_ok v s \<longleftrightarrow>
     list_all (node_from v) (st_nodes s)
     \<and> list_all (planned_from (st_nodes s)) (st_resources s)
     \<and> distinct (map plan_key (st_resources s)) \<and> set (st_dedup s) = plan_key ` set (st_resources s)
     \<and> length (st_resources s) \<le> max_total_resources (rv_limits v)
     \<and> distinct (node_ids (st_nodes s)) \<and> set (node_ids (st_nodes s)) \<subseteq> set (st_stack s) \<union> set (st_visited s)
     \<and> st_manifests s \<le> max_nested_manifests (rv_limits v)"

text \<open>\<open>k\<close> is 1 when the root is a file, which is not counted.\<close>

definition inv_between :: "resolver \<Rightarrow> nat \<Rightarrow> rstate \<Rightarrow> bool" where
  "inv_between v k s \<longleftrightarrow> state_ok v s \<and> length (st_nodes s) \<le> st_manifests s + k \<and> st_nodes s \<noteq> []"

definition inv_name :: "resolver \<Rightarrow> nat \<Rightarrow> murl \<Rightarrow> rstate \<Rightarrow> bool" where
  "inv_name v k m s \<longleftrightarrow> state_ok v s \<and> length (st_nodes s) \<le> st_manifests s + k
     \<and> identity m \<in> set (st_stack s) \<and> identity m \<notin> set (node_ids (st_nodes s))"

definition inv_locating :: "resolver \<Rightarrow> nat \<Rightarrow> murl option \<Rightarrow> rstate \<Rightarrow> bool" where
  "inv_locating v k om s \<longleftrightarrow> state_ok v s \<and> length (st_nodes s) + 1 \<le> st_manifests s + k
     \<and> (case om of Some m \<Rightarrow> identity m \<in> set (st_stack s) \<and> identity m \<notin> set (node_ids (st_nodes s)) | None \<Rightarrow> True)"

lemma node_ids_append [simp]: "node_ids (a @ b) = node_ids a @ node_ids b"
  by (simp add: node_ids_def map_filter_def)

lemma node_ids_single: "node_ids [n] = (case rn_identity n of Some i \<Rightarrow> [i] | None \<Rightarrow> [])"
  by (simp add: node_ids_def map_filter_simps split: option.split)

lemma planned_from_mono: "planned_from nodes pr \<Longrightarrow> planned_from (nodes @ ns) pr"
  by (simp add: planned_from_def nth_append)

lemma state_ok_located: "state_ok v s \<Longrightarrow> located s t \<Longrightarrow> state_ok v t"
  by (simp add: state_ok_def located_def)

lemma state_ok_admitted:
  assumes "inv_locating v k om s" "admissible v om b orig mf verified" "depth \<le> max_depth (rv_limits v)"
  shows "inv_between v k (s\<lparr> st_warnings := w, st_nodes := st_nodes s @ [make_node v om b orig depth mf verified now] \<rparr>)"
proof -
  let ?n = "make_node v om b orig depth mf verified now"
  have "node_from v ?n" using assms(2,3) by (auto simp: node_from_def make_node_def)
  moreover have "list_all (planned_from (st_nodes s @ [?n])) (st_resources s)"
    using assms(1) by (auto simp: inv_locating_def state_ok_def list_all_iff intro: planned_from_mono)
  moreover have "node_ids [?n] = (case om of Some m \<Rightarrow> [identity m] | None \<Rightarrow> [])"
    by (simp add: node_ids_single make_node_def split: option.split)
  ultimately show ?thesis
    using assms(1) by (auto simp: inv_between_def inv_locating_def state_ok_def split: option.splits)
qed

lemma state_ok_planned:
  assumes "state_ok v s" "ctx_ok c s" "r \<in> set (cx_resources c)" "kind_parse (rd_kind r) = Inr k" "k \<noteq> kind.Murl"
    "length (st_resources s) + 1 \<le> max_total_resources (rv_limits v)"
    "(kind_display k, rd_target r) \<notin> set (st_dedup s)"
  shows "state_ok v (s\<lparr> st_dedup := (kind_display k, rd_target r) # st_dedup s, st_resources := st_resources s @ [planned c k r] \<rparr>)"
proof -
  have "plan_key (planned c k r) = (kind_display k, rd_target r)" by (simp add: plan_key_def planned_def)
  moreover have "planned_from (st_nodes s) (planned c k r)"
    using assms(2-5) by (simp add: planned_from_def planned_def ctx_ok_def)
  ultimately show ?thesis using assms(1,6,7) by (auto simp: state_ok_def)
qed

interpretation resolving: resolution_rules v "inv_name v k" "inv_locating v k" "inv_between v k" for v k
proof
  fix m s
  assume "inv_name v k m s" "st_manifests s + 1 \<le> max_nested_manifests (rv_limits v)"
  then show "inv_locating v k (Some m) (s\<lparr> st_manifests := st_manifests s + 1 \<rparr>)"
    by (simp add: inv_name_def inv_locating_def state_ok_def)
next
  fix om s t
  assume "inv_locating v k om s" "located s t"
  then show "inv_locating v k om t"
    using state_ok_located by (auto simp: inv_locating_def located_def split: option.splits)
next
  fix om s b orig mf verified depth w now
  assume "inv_locating v k om s" "admissible v om b orig mf verified" "depth \<le> max_depth (rv_limits v)"
  then show "inv_between v k (s\<lparr> st_warnings := w, st_nodes := st_nodes s @ [make_node v om b orig depth mf verified now] \<rparr>)"
    by (rule state_ok_admitted)
next
  fix s w
  assume "inv_between v k s"
  then show "inv_between v k (s\<lparr> st_warnings := w \<rparr>)" by (simp add: inv_between_def state_ok_def)
next
  fix s :: rstate and tx child w
  assume "inv_between v k s" "identity child \<notin> set (st_stack s)" "identity child \<notin> set (st_visited s)"
  then show "inv_name v k child (s\<lparr> st_warnings := w, st_stack := st_stack s @ [identity child] \<rparr>)"
    by (auto simp: inv_between_def inv_name_def state_ok_def)
next
  fix s stk ident
  assume "inv_between v k s" "st_stack s = stk @ [ident]"
  then show "inv_between v k (s\<lparr> st_stack := stk, st_visited := ident # st_visited s \<rparr>)"
    by (auto simp: inv_between_def state_ok_def)
next
  fix s c r kd
  assume "inv_between v k s" "ctx_ok c s" "r \<in> set (cx_resources c)" "kind_parse (rd_kind r) = Inr kd" "kd \<noteq> kind.Murl"
    "length (st_resources s) + 1 \<le> max_total_resources (rv_limits v)" "(kind_display kd, rd_target r) \<notin> set (st_dedup s)"
  then show "inv_between v k (s\<lparr> st_dedup := (kind_display kd, rd_target r) # st_dedup s,
      st_resources := st_resources s @ [planned c kd r] \<rparr>)"
    unfolding inv_between_def using state_ok_planned by simp
qed

section \<open>The two entry points\<close>

lemma named_good:
  "good (locality_of (mu_authority m)) (start_state cache m) (\<lambda>_ t. inv_between v 0 t \<and> frame (start_state cache m) t)
     (ingest_named v m 0 None None (start_state cache m))"
  by (rule resolving.named_rule)
     (simp_all add: inv_name_def state_ok_def start_state_def default_state_def node_ids_def map_filter_simps)

lemma file_good:
  "good ThisDevice (default_state cache) (\<lambda>_ t. inv_between v 1 t \<and> frame (default_state cache) t)
     (ingest_bytes v None b (LocalFile p) 0 None (default_state cache))"
  by (rule resolving.bytes_rule)
     (simp_all add: inv_locating_def state_ok_def default_state_def node_ids_def map_filter_simps)

lemma finish_no_panic: "st_nodes s \<noteq> [] \<Longrightarrow> finish s sel \<noteq> Inl Panic"
proof -
  assume n: "st_nodes s \<noteq> []"
  have "check_items r items \<noteq> Inl Panic" if "rs_nodes r \<noteq> []" for r items
  proof (induction items)
    case (Cons item items)
    have "item_matched r item \<noteq> None" using that by (cases item) (simp_all add: nth_opt_def)
    then show ?case using Cons by (auto split: option.split bool.split)
  qed simp
  then show ?thesis using n
    by (auto simp: finish_def Let_def and_then_Inl_iff split: option.split)
qed

lemma finish_fields:
  assumes "finish s sel = Inr r"
  shows "rs_nodes r = st_nodes s \<and> (\<exists>P. rs_resources r = filter P (st_resources s))"
  using assms by (auto simp: finish_def Let_def split: option.splits intro: exI [of _ "\<lambda>_. True"])

text \<open>What the invariant says of a finished resolution.\<close>

definition resolution_ok :: "resolver \<Rightarrow> resolution \<Rightarrow> bool" where
  "resolution_ok v r \<longleftrightarrow>
     list_all (\<lambda>n. rn_depth n \<le> max_depth (rv_limits v) \<and> length (rn_raw_bytes n) \<le> max_manifest_bytes (rv_limits v)
        \<and> manifest_from_slice (x_events (rv_ext v)) (rv_limits v) (rn_raw_bytes n) = Inr (rn_manifest n)
        \<and> wf_manifest (rv_ext v) (rn_manifest n)) (rs_nodes r)
     \<and> distinct (node_ids (rs_nodes r))
     \<and> length (rs_resources r) \<le> max_total_resources (rv_limits v)
     \<and> distinct (map plan_key (rs_resources r))
     \<and> list_all (planned_from (rs_nodes r)) (rs_resources r)"

lemma wf_of_valid: "is_valid (validate x m) \<Longrightarrow> wf_manifest x m"
  by (simp add: is_valid_def validate_errors)

lemma finish_ok:
  assumes "state_ok v s" "finish s sel = Inr r"
  shows "resolution_ok v r \<and> list_all (node_from v) (rs_nodes r)"
proof -
  note f = finish_fields [OF assms(2)]
  have nodes: "list_all (node_from v) (rs_nodes r)" using assms(1) f by (simp add: state_ok_def)
  have n: "rn_depth n \<le> max_depth (rv_limits v) \<and> length (rn_raw_bytes n) \<le> max_manifest_bytes (rv_limits v)
        \<and> manifest_from_slice (x_events (rv_ext v)) (rv_limits v) (rn_raw_bytes n) = Inr (rn_manifest n)
        \<and> wf_manifest (rv_ext v) (rn_manifest n)" if "node_from v n" for n
    using that manifest_from_slice_ok wf_of_valid by (auto simp: node_from_def admissible_def)
  obtain P where P: "rs_resources r = filter P (st_resources s)" using f by blast
  have "length (rs_resources r) \<le> max_total_resources (rv_limits v)"
    using assms(1) order_trans [OF length_filter_le [of P "st_resources s"]] by (simp add: P state_ok_def)
  moreover have "distinct (map plan_key (rs_resources r))"
    using assms(1) by (simp add: P state_ok_def distinct_map_filter)
  ultimately show ?thesis
    using assms(1) f n nodes by (auto simp: resolution_ok_def state_ok_def list_all_iff P)
qed

section \<open>Properties\<close>

lemma resolve_cases:
  obtains (failed) e t where "resolve v cache m = (Inl e, t)" "e \<noteq> Panic"
      "log_from (locality_of (mu_authority m)) (start_state cache m) t"
  | (finished) t where "resolve v cache m = (finish t (mu_selector m), t\<lparr> st_stack := [] \<rparr>)" "inv_between v 0 t"
      "log_from (locality_of (mu_authority m)) (start_state cache m) t"
proof (cases "ingest_named v m 0 None None (start_state cache m)")
  case (Pair r t)
  note g = named_good [of m cache v, unfolded Pair]
  show thesis
  proof (cases r)
    case (Inl e)
    then show thesis using g Pair by (intro failed [of e t]) (simp_all add: resolve_unfold bindS_def good_def)
  next
    case (Inr u)
    have inv: "inv_between v 0 t" "frame (start_state cache m) t" "log_from (locality_of (mu_authority m)) (start_state cache m) t"
      using g Inr by (simp_all add: good_def)
    then have "butlast (st_stack t) = []" by (simp add: frame_def start_state_def)
    then show thesis
      using inv Pair Inr by (intro finished [of t]) (simp_all add: resolve_unfold bindS_def finish_stack)
  qed
qed

lemma resolve_success:
  assumes "resolve v cache m = (Inr r, s)"
  shows "resolution_ok v r \<and> rs_nodes r \<noteq> [] \<and> length (rs_nodes r) \<le> max_nested_manifests (rv_limits v)"
  using resolve_cases [of v cache m]
proof cases
  case (finished t)
  then have "finish t (mu_selector m) = Inr r" using assms by simp
  then show ?thesis
    using finished(2) finish_ok [of v t] finish_fields [of t _ r] by (auto simp: inv_between_def state_ok_def)
qed (use assms in simp)

lemma resolve_no_panic: "fst (resolve v cache m) \<noteq> Inl Panic"
  using resolve_cases [of v cache m]
proof cases
  case (finished t)
  then have "finish t (mu_selector m) \<noteq> Inl Panic" by (intro finish_no_panic) (simp add: inv_between_def)
  then show ?thesis using finished by simp
qed simp

text \<open>The policy pass on a finished resolution is total.\<close>

lemma policy_total:
  assumes "resolution_ok v r"
  shows "apply_policy p r = Some (r\<lparr> rs_resources := map (\<lambda>pr. pr\<lparr> pr_decision :=
      Some (evaluate p (pr_kind pr) (pr_tier pr) (node_context (rs_nodes r ! pr_node pr))) \<rparr>) (rs_resources r) \<rparr>)"
proof -
  have "list_all (\<lambda>pr. pr_node pr < length (rs_nodes r)) (rs_resources r)"
    using assms by (auto simp: resolution_ok_def planned_from_def list_all_iff)
  then show ?thesis by (simp add: apply_policy_def decide_all_Some)
qed

lemma evaluate_untrusted:
  "po_dangerous_requires_trust p \<Longrightarrow> \<not> is_trusted_status (rn_trust n) \<Longrightarrow> \<exists>reason. evaluate p k Dangerous (node_context n) = Deny reason"
  by (simp add: evaluate_def node_context_def)

text \<open>C1: whatever a resolution returns is within every limit and well formed. The tree has
  at least one and at most \<open>max_nested_manifests\<close> manifests, none deeper than
  \<open>max_depth\<close>, each parsed from its recorded bytes (of bounded size), satisfying the
  specification, and no name twice. The plan has at most \<open>max_total_resources\<close>
  resources, no kind and target twice, each a resource of the manifest it points to,
  classified by what it is, and never a container.\<close>

theorem resolve_bounded:
  assumes "resolve v cache m = (Inr r, s)"
  shows "resolution_ok v r \<and> rs_nodes r \<noteq> [] \<and> length (rs_nodes r) \<le> max_nested_manifests (rv_limits v)"
  using assms by (rule resolve_success)

text \<open>C2: resolution never panics, whatever the fetcher, the clock, the cache and the name
  store answer: every failure is an error value. And it looks only as far away as it
  may: no lookup, also on a path that ends in an error, is nearer than the name
  that was asked for, so a name on the network can make the resolver touch neither a
  loopback server nor the local name store.\<close>

theorem resolve_safe:
  "fst (resolve v cache m) \<noteq> Inl Panic
   \<and> list_all (\<lambda>q. locality_of (mu_authority m) \<le> request_locality q) (st_log (snd (resolve v cache m)))"
proof
  show "list_all (\<lambda>q. locality_of (mu_authority m) \<le> request_locality q) (st_log (snd (resolve v cache m)))"
    using resolve_cases [of v cache m] by cases (auto simp: log_from_def start_state_def default_state_def)
qed (rule resolve_no_panic)

theorem resolve_bounded_witness:
  "\<exists>r s. resolve sample_resolver [] (sample_name ''root'') = (Inr r, s) \<and> length (rs_resources r) = 2
     \<and> distinct (map plan_key (rs_resources r)) \<and> length (rs_nodes r) \<le> 8"
proof -
  obtain r s where r: "resolve sample_resolver [] (sample_name ''root'') = (Inr r, s)"
    and two: "length (map (\<lambda>pr. (rd_id (pr_resource pr), pr_root_anchor pr)) (rs_resources r)) = 2"
    using sample_resolves by force
  then show ?thesis
    using resolve_bounded [OF r] by (auto simp: resolution_ok_def sample_resolver_def default_limits_def)
qed

text \<open>C3: what the trust status of a resolved manifest means. LOCAL is exactly for manifests
  from the name store or a file; TRUSTED with a key is only given to a remote manifest
  whose signature verifies under that key id, and whose key the user pinned for the
  authority of the very name it was resolved by; and a manifest that declares an id
  was resolved by a name with that authority and path.\<close>

theorem resolve_trust:
  assumes "resolve v cache m = (Inr r, s)" "n \<in> set (rs_nodes r)"
  shows "(rn_trust n = TLocal \<longleftrightarrow> \<not> is_remote (rn_origin n))
    \<and> (case rn_trust n of
         TSignedTrusted k \<Rightarrow> \<exists>sg req. verify_manifest (rv_ext v) (mf_raw (rn_manifest n)) = Inr (Some sg) \<and> vs_key_id sg = k
           \<and> is_trusted (rv_trust_store v) (case req of Some b \<Rightarrow> authority_display (mu_authority b) | None \<Rightarrow> []) k
           \<and> rn_identity n = map_option identity req
       | TUnsignedRemote \<Rightarrow> verify_manifest (rv_ext v) (mf_raw (rn_manifest n)) = Inr None
       | _ \<Rightarrow> True)
    \<and> (case (rn_identity n, md_id (mf_doc (rn_manifest n))) of
         (Some i, Some d) \<Rightarrow> \<exists>req declared. i = identity req \<and> murl_parse d = Inr declared
            \<and> mu_authority declared = mu_authority req \<and> mu_name declared = mu_name req
            \<and> \<not> version_conflicts (mu_version declared) (mu_version req)
       | _ \<Rightarrow> True)"
proof -
  have "node_from v n"
    using resolve_cases [of v cache m]
  proof cases
    case (finished t)
    then have "finish t (mu_selector m) = Inr r" using assms by simp
    then show ?thesis
      using finished(2) finish_ok [of v t] assms(2) by (auto simp: inv_between_def list_all_iff)
  qed (use assms in simp)
  then obtain req verified now where adm: "admissible v req (rn_raw_bytes n) (rn_origin n) (rn_manifest n) verified"
    and n: "n = make_node v req (rn_raw_bytes n) (rn_origin n) (rn_depth n) (rn_manifest n) verified now"
    by (auto simp: node_from_def)
  have t: "rn_trust n = trust_of (rv_trust_store v) (rn_origin n) req verified"
    and i: "rn_identity n = map_option identity req"
    by (subst n, simp add: make_node_def)+
  have "(rn_trust n = TLocal \<longleftrightarrow> \<not> is_remote (rn_origin n))"
    unfolding t by (cases "rn_origin n") (simp_all add: trust_of_def Let_def split: option.split)
  moreover have "case rn_trust n of
         TSignedTrusted k \<Rightarrow> \<exists>sg req. verify_manifest (rv_ext v) (mf_raw (rn_manifest n)) = Inr (Some sg) \<and> vs_key_id sg = k
           \<and> is_trusted (rv_trust_store v) (case req of Some b \<Rightarrow> authority_display (mu_authority b) | None \<Rightarrow> []) k
           \<and> rn_identity n = map_option identity req
       | TUnsignedRemote \<Rightarrow> verify_manifest (rv_ext v) (mf_raw (rn_manifest n)) = Inr None
       | _ \<Rightarrow> True"
    using adm i unfolding t
    by (cases "rn_origin n"; cases verified) (auto simp: trust_of_def admissible_def Let_def)
  moreover have "case (rn_identity n, md_id (mf_doc (rn_manifest n))) of
         (Some i, Some d) \<Rightarrow> \<exists>req declared. i = identity req \<and> murl_parse d = Inr declared
            \<and> mu_authority declared = mu_authority req \<and> mu_name declared = mu_name req
            \<and> \<not> version_conflicts (mu_version declared) (mu_version req)
       | _ \<Rightarrow> True"
    using adm i by (auto simp: admissible_def bind_identity_def split: option.splits if_splits)
  ultimately show ?thesis by blast
qed

theorem resolve_trust_witness:
  "\<exists>r s. resolve sample_resolver [] (sample_name ''root'') = (Inr r, s)
     \<and> (rn_trust (hd (rs_nodes r)) = TLocal \<longleftrightarrow> \<not> is_remote (rn_origin (hd (rs_nodes r))))"
proof -
  obtain r s where r: "resolve sample_resolver [] (sample_name ''root'') = (Inr r, s)" and "length (rs_nodes r) = 2"
    using sample_resolves by blast
  then have "hd (rs_nodes r) \<in> set (rs_nodes r)" by (intro hd_in_set) auto
  then show ?thesis using resolve_trust [OF r] r by blast
qed

text \<open>Opening a file has the same guarantees, with the file itself on top of the
  nested names that are counted: no panic, at most one manifest more than the limit, and
  the same well-formedness.\<close>

lemma resolve_file_safe:
  "fst (resolve_file v cache p contents) \<noteq> Inl Panic
   \<and> (case fst (resolve_file v cache p contents) of
        Inr r \<Rightarrow> resolution_ok v r \<and> rs_nodes r \<noteq> [] \<and> length (rs_nodes r) \<le> max_nested_manifests (rv_limits v) + 1
      | Inl _ \<Rightarrow> True)"
proof (cases contents)
  case (Inl e)
  then show ?thesis by (simp add: resolve_file_def failS_def)
next
  case (Inr b)
  note g = file_good [of cache v b p]
  show ?thesis
  proof (cases "ingest_bytes v None b (LocalFile p) 0 None (default_state cache)")
    case (Pair r t)
    show ?thesis
    proof (cases r)
      case (Inl e)
      then show ?thesis using g Pair \<open>contents = Inr b\<close> by (simp add: resolve_file_def bindS_def good_def)
    next
      case (Inr u)
      then have inv: "inv_between v 1 t" using g Pair by (simp add: good_def)
      have "resolve_file v cache p contents = (finish t None, t)"
        using Pair Inr \<open>contents = Inr b\<close> by (simp add: resolve_file_def bindS_def)
      then show ?thesis
        using inv finish_no_panic [of t None] finish_ok [of v t None] finish_fields [of t None]
        by (auto simp: inv_between_def state_ok_def split: sum.split)
    qed
  qed
qed

section \<open>Selectors\<close>

text \<open>What an item addresses: an id any resource of the root manifest, a role or a tag the
  plan.\<close>

definition item_addresses :: "rstate \<Rightarrow> selector_item \<Rightarrow> bool" where
  "item_addresses s item \<longleftrightarrow>
     (case item of
        SelId i \<Rightarrow> (\<exists>d\<in>set (md_resources (mf_doc (rn_manifest (hd (st_nodes s))))). rd_id d = i)
      | _ \<Rightarrow> (\<exists>pr\<in>set (st_resources s). claims item pr))"

lemma check_items_iff:
  assumes "rs_nodes r = st_nodes s" "rs_resources r = st_resources s" "st_nodes s \<noteq> []"
  shows "check_items r items = Inr () \<longleftrightarrow> list_all (item_addresses s) items"
proof (induction items)
  case (Cons item items)
  have "item_matched r item = Some (item_addresses s item)"
    using assms by (cases item) (simp_all add: item_addresses_def nth_opt_def hd_conv_nth list_ex_iff)
  then show ?case using Cons by (auto split: bool.split)
qed simp

text \<open>A selector is strict and a union. It succeeds exactly when every item addresses
  something, and the plan is then, in order, every resource that some item claims;
  without a selector nothing is left out.\<close>

lemma finish_selector:
  assumes "st_nodes s \<noteq> []"
  shows "(is_ok (finish s (Some items)) \<longleftrightarrow> list_all (item_addresses s) items)
    \<and> (case finish s (Some items) of
         Inr r \<Rightarrow> rs_resources r = filter (\<lambda>pr. \<exists>item\<in>set items. claims item pr) (st_resources s)
           \<and> rs_nodes r = st_nodes s \<and> rs_warnings r = st_warnings s
       | Inl e \<Rightarrow> \<exists>item\<in>set items. \<not> item_addresses s item)
    \<and> (case finish s None of Inr r \<Rightarrow> rs_resources r = st_resources s | Inl _ \<Rightarrow> False)"
proof -
  let ?r = "\<lparr> rs_nodes = st_nodes s, rs_resources = st_resources s, rs_warnings = st_warnings s, rs_selector = None \<rparr>"
  have c: "check_items ?r items = Inr () \<longleftrightarrow> list_all (item_addresses s) items"
    by (rule check_items_iff) (simp_all add: assms)
  show ?thesis
  proof (cases "check_items ?r items")
    case (Inl e)
    then show ?thesis using c by (auto simp: finish_def list_all_iff)
  next
    case (Inr u)
    then show ?thesis using c by (simp add: finish_def list_ex_iff)
  qed
qed

definition sample_node :: resolved_node where
  "sample_node = make_node sample_resolver (Some (sample_name ''root'')) ''root'' (LocalStore ''x'') 0 (sample_manifest ''root'') None 0"

lemma finish_selector_witness:
  "\<not> is_ok (finish ((default_state [])\<lparr> st_nodes := [sample_node] \<rparr>) (Some [SelId ''missing'']))"
proof -
  have "\<not> list_all (item_addresses ((default_state [])\<lparr> st_nodes := [sample_node] \<rparr>)) [SelId ''missing'']"
    by (simp add: item_addresses_def sample_node_def make_node_def sample_docs sample_doc_def)
  then show ?thesis
    using finish_selector [of "(default_state [])\<lparr> st_nodes := [sample_node] \<rparr>" "[SelId ''missing'']"] by simp
qed

text \<open>An id item is matched by the root manifest alone. When that resource was dropped as a
  duplicate, the selection succeeds with nothing in it.\<close>

lemma selector_empty_success:
  assumes "st_nodes s \<noteq> []" "item_addresses s (SelId i)" "\<And>pr. pr \<in> set (st_resources s) \<Longrightarrow> pr_root_anchor pr \<noteq> i"
  shows "\<exists>r. finish s (Some [SelId i]) = Inr r \<and> rs_resources r = []"
  using check_items_iff [of _ s "[SelId i]"] assms
  by (simp add: finish_def Let_def del: check_items.simps)

section \<open>The policy pass over a resolution\<close>

text \<open>C5: the policy pass never panics on a resolution; the result differs from it in
  nothing but the decisions of its resources, and every resource is decided with the
  trust, validity and origin of the manifest it came from. In particular a dangerous resource of a manifest that is not trusted is
  refused whenever the policy requires trust.\<close>

theorem policy_after_resolve:
  assumes "resolve v cache m = (Inr r, s)"
  shows "case apply_policy p r of
      None \<Rightarrow> False
    | Some r' \<Rightarrow> rs_nodes r' = rs_nodes r \<and> length (rs_resources r') = length (rs_resources r)
        \<and> r'\<lparr> rs_resources := [] \<rparr> = r\<lparr> rs_resources := [] \<rparr>
        \<and> map (\<lambda>pr. pr\<lparr> pr_decision := None \<rparr>) (rs_resources r') = map (\<lambda>pr. pr\<lparr> pr_decision := None \<rparr>) (rs_resources r)
        \<and> (\<forall>pr\<in>set (rs_resources r'). pr_decision pr
             = Some (evaluate p (pr_kind pr) (pr_tier pr) (node_context (rs_nodes r ! pr_node pr)))
           \<and> (pr_tier pr = Dangerous \<longrightarrow> po_dangerous_requires_trust p
               \<longrightarrow> \<not> is_trusted_status (rn_trust (rs_nodes r ! pr_node pr))
               \<longrightarrow> (\<exists>reason. pr_decision pr = Some (Deny reason))))"
proof -
  have "resolution_ok v r" using resolve_success [OF assms] by simp
  then show ?thesis by (auto simp: policy_total [of v r p] evaluate_untrusted)
qed

theorem policy_after_resolve_witness:
  "\<exists>r s r'. resolve sample_resolver [] (sample_name ''root'') = (Inr r, s)
     \<and> apply_policy default_policy r = Some r' \<and> length (rs_resources r') = length (rs_resources r)"
proof -
  obtain r s where r: "resolve sample_resolver [] (sample_name ''root'') = (Inr r, s)" using sample_resolves by blast
  from policy_after_resolve [OF this, of default_policy] r show ?thesis by (auto split: option.splits)
qed

end
