(* ===== verification/Dispatch.thy ===== *)
theory Dispatch
  imports Resolution
begin

text \<open>
  The dispatch engine, \<open>murl-core/src/dispatch.rs\<close>: how a kind of resource maps to
  an argument vector, the execution of an approved plan, and the aggregate result.

  Processes are started by the \<open>Launcher\<close> trait. Its effects are recorded in order;
  an embedder answers a launch or an existence check as a function of everything
  that happened before. Paths follow the POSIX rules of \<open>std::path\<close>; a path is the
  string it displays as.
\<close>

section \<open>The launcher\<close>

datatype effect = LaunchCall "string list" "string option" | Slept nat

record launcher =
  la_launch :: "effect list \<Rightarrow> string list \<Rightarrow> string option \<Rightarrow> error + unit"
  la_path_exists :: "effect list \<Rightarrow> string \<Rightarrow> bool"

section \<open>Opener configuration\<close>

record opener_config =
  oc_open_argv :: "string list"
  oc_terminal_argv :: "string list option"
  oc_ssh_argv :: "string list option"
  oc_remote_desktop_argv :: "string list option"
  oc_custom :: "(string \<times> string list) list"
  oc_home_dir :: "string option"

definition platform_default :: "string \<Rightarrow> string option \<Rightarrow> opener_config" where
  "platform_default os home = \<lparr>
     oc_open_argv = (if os = ''macos'' then [''open''] else if os = ''windows'' then [''explorer.exe''] else [''xdg-open'']),
     oc_terminal_argv = None, oc_ssh_argv = None, oc_remote_desktop_argv = None,
     oc_custom = [], oc_home_dir = home \<rparr>"

datatype component = RootDir | CurDir | ParentDir | NormalComp string

text \<open>\<open>Path::components\<close>: repeated separators and inner dots vanish, a leading dot is
  kept.\<close>

definition path_components :: "string \<Rightarrow> component list" where
  "path_components s =
     (let parts = split_on CHR ''/'' s;
          lead = (if starts_with ''/'' s then [RootDir] else if hd parts = ''.'' then [CurDir] else [])
      in lead @ map (\<lambda>p. if p = ''..'' then ParentDir else NormalComp p)
                    (filter (\<lambda>p. p \<noteq> [] \<and> p \<noteq> ''.'') parts))"

fun is_normal :: "component \<Rightarrow> bool" where
  "is_normal (NormalComp _) = True"
| "is_normal _ = False"

text \<open>\<open>PathBuf::push\<close>: an absolute argument replaces the path.\<close>

definition path_push :: "string \<Rightarrow> string \<Rightarrow> string" where
  "path_push p s =
     (if starts_with ''/'' s then s
      else if p = [] \<or> ends_with ''/'' p then p @ s
      else p @ ''/'' @ s)"

fun push_segments :: "string \<Rightarrow> string list \<Rightarrow> string \<Rightarrow> string + string" where
  "push_segments target [] p = Inr p"
| "push_segments target (seg # segs) p =
     (if seg = [] then Inl (quoted target @ '' has an empty path segment; it would escape the home directory'')
      else if seg = ''.'' \<or> seg = ''..'' then Inl (quoted target @ '' contains a dot segment'')
      else if \<not> list_all is_normal (path_components seg)
      then Inl (quoted target @ '' has a segment that is not a plain name; it would escape the home directory'')
      else push_segments target segs (path_push p seg))"

text \<open>The ellipsis of the message, in UTF-8.\<close>

definition ellipsis :: string where
  "ellipsis = [CHR 0xE2, CHR 0x80, CHR 0xA6]"

definition expand_path :: "opener_config \<Rightarrow> string \<Rightarrow> string + string" where
  "expand_path oc target =
     (case strip_prefix ''~'' target of
        None \<Rightarrow> Inr target
      | Some rest \<Rightarrow>
          and_then (ok_or ''no home directory available for ~ expansion'' (oc_home_dir oc)) (\<lambda>home.
            if rest = [] then Inr home
            else
              (case strip_prefix ''/'' rest of
                 None \<Rightarrow> Inl (quoted target @ '' is not a `~` or `~/'' @ ellipsis @ ''` path'')
               | Some r \<Rightarrow>
                   let r' = (case strip_suffix ''/'' r of Some q \<Rightarrow> q | None \<Rightarrow> r) in
                   if r' = [] then Inr home else push_segments target (split_on CHR ''/'' r') home)))"

section \<open>Explorer\<close>

text \<open>\<open>rsplit([sep]).next()\<close>: what follows the last separator.\<close>

definition after_last :: "(char \<Rightarrow> bool) \<Rightarrow> string \<Rightarrow> string" where
  "after_last sep s = rev (takeWhile (\<lambda>c. \<not> sep c) (rev s))"

definition is_explorer :: "string \<Rightarrow> bool" where
  "is_explorer program =
     (let name = after_last (\<lambda>c. c = CHR ''/'' \<or> c = CHR 0x5C) program in
      eq_ignore_ascii_case name ''explorer.exe'' \<or> eq_ignore_ascii_case name ''explorer'')"

definition explorer_argument :: "string \<Rightarrow> string + string" where
  "explorer_argument arg =
     (if CHR 0x22 \<in> set arg
      then Inl (quoted arg @ '' contains a double quote, which explorer.exe cannot be given safely'')
      else Inr (CHR 0x22 # arg @ [CHR 0x22]))"

section \<open>Argument vectors\<close>

definition contains :: "string \<Rightarrow> string \<Rightarrow> bool" where
  "contains pat s \<longleftrightarrow> list_ex (\<lambda>i. starts_with pat (drop i s)) [0..<length s + 1]"

text \<open>\<open>str::replace\<close> with a non-empty pattern: leftmost matches, no overlaps.\<close>

function replace_all :: "string \<Rightarrow> string \<Rightarrow> string \<Rightarrow> string" where
  "replace_all pat to [] = []"
| "replace_all pat to (c # s) =
     (case strip_prefix pat (c # s) of
        Some r \<Rightarrow> if pat = [] then c # s else to @ replace_all pat to r
      | None \<Rightarrow> c # replace_all pat to s)"
  by pat_completeness auto
termination
  by (relation "measure (\<lambda>(_, _, s). length s)") (auto simp: strip_prefix_iff dest: arg_cong [of _ _ length])

definition substitute :: "string list \<Rightarrow> string \<Rightarrow> string list" where
  "substitute template target =
     (if template = [] then []
      else
        let used = list_ex (contains ''{target}'') template;
            argv = map (\<lambda>part. if contains ''{target}'' part then replace_all ''{target}'' target part else part) template
        in if used then argv else argv @ [target])"

definition open_with :: "opener_config \<Rightarrow> string \<Rightarrow> string list" where
  "open_with oc target = (if oc_open_argv oc = [] then [] else oc_open_argv oc @ [target])"

section \<open>Outcomes\<close>

datatype approval = Approved | Denied string | Skipped string

datatype outcome_status = OOpened | OSkipped | ODenied | OFailed | OUnavailable

fun outcome_status_display :: "outcome_status \<Rightarrow> string" where
  "outcome_status_display OOpened = ''OPENED''"
| "outcome_status_display OSkipped = ''SKIPPED''"
| "outcome_status_display ODenied = ''DENIED''"
| "outcome_status_display OFailed = ''FAILED''"
| "outcome_status_display OUnavailable = ''UNAVAILABLE''"

record resource_outcome =
  ro_id :: string
  ro_label :: string
  ro_kind :: string
  ro_tier :: tier
  ro_status :: outcome_status
  ro_detail :: "string option"

datatype aggregate_status = AggSuccess | AggPartial | AggFailed | AggDenied

fun aggregate_display :: "aggregate_status \<Rightarrow> string" where
  "aggregate_display AggSuccess = ''SUCCESS''"
| "aggregate_display AggPartial = ''PARTIAL_SUCCESS''"
| "aggregate_display AggFailed = ''FAILED''"
| "aggregate_display AggDenied = ''DENIED''"

record execution_report =
  er_outcomes :: "resource_outcome list"
  er_aggregate :: aggregate_status

text \<open>A missing detail is left out of the JSON form.\<close>

definition outcome_json :: "resource_outcome \<Rightarrow> json" where
  "outcome_json o1 = json_obj
     ([(''id'', JStr (ro_id o1)), (''label'', JStr (ro_label o1)), (''kind'', JStr (ro_kind o1)),
       (''tier'', JStr (tier_display (ro_tier o1))), (''status'', JStr (outcome_status_display (ro_status o1)))]
      @ (case ro_detail o1 of None \<Rightarrow> [] | Some d \<Rightarrow> [(''detail'', JStr d)]))"

definition report_json :: "execution_report \<Rightarrow> json" where
  "report_json r = json_obj
     [(''aggregate'', JStr (aggregate_display (er_aggregate r))),
      (''outcomes'', JArr (map outcome_json (er_outcomes r)))]"

section \<open>Executing a plan\<close>

text \<open>\<open>char::is_whitespace\<close>.\<close>

definition is_whitespace :: "nat \<Rightarrow> bool" where
  "is_whitespace c \<longleftrightarrow> (9 \<le> c \<and> c \<le> 13) \<or> c = 0x20 \<or> c = 0x85 \<or> c = 0xA0 \<or> c = 0x1680
     \<or> (0x2000 \<le> c \<and> c \<le> 0x200A) \<or> c = 0x2028 \<or> c = 0x2029 \<or> c = 0x202F \<or> c = 0x205F \<or> c = 0x3000"

definition blank :: "string \<Rightarrow> bool" where
  "blank s \<longleftrightarrow> list_all is_whitespace (utf8_chars s)"

type_synonym status = "outcome_status \<times> string option"

definition launch :: "launcher \<Rightarrow> string list \<Rightarrow> string option \<Rightarrow> effect list \<Rightarrow> status \<times> effect list" where
  "launch l argv cwd log =
     (if argv = [] \<or> blank (hd argv)
      then ((OFailed, Some ''handler is configured with an empty program; refusing to launch''), log)
      else
        (case la_launch l log argv cwd of
           Inr _ \<Rightarrow> (OOpened, None)
         | Inl e \<Rightarrow> (OFailed, Some (error_display e)),
         log @ [LaunchCall argv cwd]))"

definition with_path ::
  "opener_config \<Rightarrow> launcher \<Rightarrow> string \<Rightarrow> effect list \<Rightarrow> (string \<Rightarrow> status \<times> effect list) \<Rightarrow> status \<times> effect list"
where
  "with_path oc l target log f =
     (case expand_path oc target of
        Inl e \<Rightarrow> ((OFailed, Some e), log)
      | Inr path \<Rightarrow>
          if \<not> la_path_exists l log path
          then ((OUnavailable, Some (path @ '' does not exist'')), log)
          else f path)"

definition with_handler ::
  "string list option \<Rightarrow> string \<Rightarrow> effect list \<Rightarrow> (string list \<Rightarrow> status \<times> effect list) \<Rightarrow> status \<times> effect list"
where
  "with_handler argv msg log f =
     (case argv of None \<Rightarrow> ((OFailed, Some msg), log) | Some template \<Rightarrow> f template)"

definition dispatch_one :: "planned_resource \<Rightarrow> opener_config \<Rightarrow> launcher \<Rightarrow> effect list \<Rightarrow> status \<times> effect list" where
  "dispatch_one pr oc l log =
     (let target = rd_target (pr_resource pr) in
      case pr_kind pr of
        Https \<Rightarrow> launch l (open_with oc target) None log
      | File \<Rightarrow> with_path oc l target log (\<lambda>path. launch l (open_with oc path) None log)
      | Dir \<Rightarrow> with_path oc l target log (\<lambda>path. launch l (open_with oc path) None log)
      | Terminal \<Rightarrow>
          with_path oc l target log (\<lambda>path.
            with_handler (oc_terminal_argv oc) ''no terminal handler configured (murl handler set-terminal)'' log
              (\<lambda>t. launch l (substitute t path) (Some path) log))
      | Ssh \<Rightarrow>
          with_handler (oc_ssh_argv oc) ''no ssh handler configured (murl handler set-ssh)'' log
            (\<lambda>t. launch l (substitute t target) None log)
      | RemoteDesktop \<Rightarrow>
          with_handler (oc_remote_desktop_argv oc)
            ''no remote-desktop handler configured (murl handler set-remote-desktop)'' log
            (\<lambda>t. launch l (substitute t target) None log)
      | Geo \<Rightarrow> launch l (open_with oc target) None log
      | Mailto \<Rightarrow> launch l (open_with oc target) None log
      | kind.Murl \<Rightarrow> ((OSkipped, Some ''container resource''), log)
      | Custom name \<Rightarrow>
          with_handler (map_of (oc_custom oc) name)
            (''no handler registered for kind custom:'' @ name @ '' (murl handler register)'') log
            (\<lambda>t. launch l (substitute t target) None log))"

definition outcome_of :: "planned_resource \<Rightarrow> status \<Rightarrow> resource_outcome" where
  "outcome_of pr st = \<lparr> ro_id = rd_id (pr_resource pr), ro_label = display_label pr,
     ro_kind = kind_display (pr_kind pr), ro_tier = pr_tier pr, ro_status = fst st, ro_detail = snd st \<rparr>"

text \<open>The loop of \<open>execute\<close>; the flag is \<open>launched_any\<close>.\<close>

fun execute_loop ::
  "opener_config \<Rightarrow> launcher \<Rightarrow> limits \<Rightarrow> bool \<Rightarrow> (planned_resource \<times> approval) list \<Rightarrow> effect list
   \<Rightarrow> resource_outcome list \<times> effect list"
where
  "execute_loop oc l lim launched [] log = ([], log)"
| "execute_loop oc l lim launched ((pr, a) # rest) log =
     (case a of
        Denied reason \<Rightarrow>
          (case execute_loop oc l lim launched rest log of
             (outs, log') \<Rightarrow> (outcome_of pr (ODenied, Some reason) # outs, log'))
      | Skipped reason \<Rightarrow>
          (case execute_loop oc l lim launched rest log of
             (outs, log') \<Rightarrow> (outcome_of pr (OSkipped, Some reason) # outs, log'))
      | Approved \<Rightarrow>
          (let log1 = (if launched \<and> 0 < dispatch_stagger_ms lim then log @ [Slept (dispatch_stagger_ms lim)] else log) in
           case dispatch_one pr oc l log1 of
             (st, log2) \<Rightarrow>
               (case execute_loop oc l lim (launched \<or> fst st = OOpened) rest log2 of
                  (outs, log') \<Rightarrow> (outcome_of pr st # outs, log'))))"

record seen =
  any_opened :: bool
  any_bad :: bool
  any_denied :: bool
  required_missed :: bool

fun see :: "planned_resource \<times> resource_outcome \<Rightarrow> seen \<Rightarrow> seen" where
  "see (pr, o1) s =
     (let req = rd_required (pr_resource pr) in
      case ro_status o1 of
        OOpened \<Rightarrow> s\<lparr> any_opened := True \<rparr>
      | OSkipped \<Rightarrow> s
      | ODenied \<Rightarrow> s\<lparr> any_denied := True, required_missed := required_missed s \<or> req \<rparr>
      | OFailed \<Rightarrow> s\<lparr> any_bad := True, required_missed := required_missed s \<or> req \<rparr>
      | OUnavailable \<Rightarrow> s\<lparr> any_bad := True, required_missed := required_missed s \<or> req \<rparr>)"

definition aggregate :: "resolution \<Rightarrow> resource_outcome list \<Rightarrow> aggregate_status" where
  "aggregate r outs =
     (let s = fold see (zip (rs_resources r) outs)
                \<lparr> any_opened = False, any_bad = False, any_denied = False, required_missed = False \<rparr> in
      if required_missed s then AggFailed
      else if any_opened s \<and> \<not> any_bad s \<and> \<not> any_denied s then AggSuccess
      else if any_opened s then AggPartial
      else if any_bad s then AggFailed
      else if any_denied s then AggDenied
      else AggSuccess)"

definition execute ::
  "resolution \<Rightarrow> approval list \<Rightarrow> opener_config \<Rightarrow> launcher \<Rightarrow> limits \<Rightarrow> effect list
   \<Rightarrow> (error + execution_report) \<times> effect list"
where
  "execute r approvals oc l lim log =
     (if length approvals \<noteq> length (rs_resources r)
      then (Inl (EDispatch (''approvals ('' @ dec_of_nat (length approvals)
              @ '') do not match planned resources ('' @ dec_of_nat (length (rs_resources r)) @ '')'')), log)
      else
        (case execute_loop oc l lim False (zip (rs_resources r) approvals) log of
           (outs, log') \<Rightarrow> (Inr \<lparr> er_outcomes = outs, er_aggregate = aggregate r outs \<rparr>, log')))"

section \<open>The home directory is not left\<close>

lemma split_on_snoc_segment:
  assumes "CHR ''/'' \<notin> set seg"
  shows "split_on CHR ''/'' (p @ CHR ''/'' # seg) = split_on CHR ''/'' p @ [seg]"
proof -
  have "split_on d (p @ d # seg) = split_on d p @ split_on d seg" for d
    by (induction p rule: split_on.induct [of _ d]) (auto split: list.splits)
  then show ?thesis using assms by (simp add: split_on_absent)
qed

definition plain_segment :: "string \<Rightarrow> bool" where
  "plain_segment seg \<longleftrightarrow> seg \<noteq> [] \<and> seg \<noteq> ''.'' \<and> seg \<noteq> ''..'' \<and> CHR ''/'' \<notin> set seg"

definition lead_of :: "string \<Rightarrow> component list" where
  "lead_of s = (if starts_with ''/'' s then [RootDir] else if hd (split_on CHR ''/'' s) = ''.'' then [CurDir] else [])"

definition comps_of :: "string list \<Rightarrow> component list" where
  "comps_of parts = map (\<lambda>p. if p = ''..'' then ParentDir else NormalComp p) (filter (\<lambda>p. p \<noteq> [] \<and> p \<noteq> ''.'') parts)"

lemma path_components_parts: "path_components s = lead_of s @ comps_of (split_on CHR ''/'' s)"
  by (simp add: path_components_def lead_of_def comps_of_def Let_def)

lemma comps_of_append [simp]: "comps_of (a @ b) = comps_of a @ comps_of b"
  by (simp add: comps_of_def)

lemma comps_of_plain: "plain_segment seg \<Longrightarrow> comps_of [seg] = [NormalComp seg]"
  by (simp add: comps_of_def plain_segment_def)

lemma comps_of_empty [simp]: "comps_of [[]] = []"
  by (simp add: comps_of_def)

lemma starts_with_append: "p \<noteq> [] \<Longrightarrow> starts_with [c] (p @ s) \<longleftrightarrow> starts_with [c] p"
  by (cases p) (auto simp: starts_with_def)

lemma components_below:
  assumes "plain_segment seg" "p \<noteq> []"
  shows "path_components (p @ CHR ''/'' # seg) = path_components p @ [NormalComp seg]"
proof -
  note split = split_on_snoc_segment [of seg p]
  have "lead_of (p @ CHR ''/'' # seg) = lead_of p"
    using assms by (simp add: lead_of_def starts_with_append split plain_segment_def hd_append)
  then show ?thesis
    using assms split by (simp add: path_components_parts comps_of_plain plain_segment_def)
qed

lemma path_components_plain: "plain_segment seg \<Longrightarrow> path_components seg = [NormalComp seg]"
  by (cases seg) (auto simp: path_components_def plain_segment_def split_on_absent starts_with_def)

lemma path_components_push:
  assumes "plain_segment seg"
  shows "path_components (path_push p seg) = path_components p @ [NormalComp seg]"
proof -
  have rel: "\<not> starts_with ''/'' seg" using assms by (auto simp: starts_with_iff plain_segment_def)
  consider "p = []" | q where "p = q @ ''/''" | "p \<noteq> []" "\<not> ends_with ''/'' p" by (auto simp: ends_with_iff)
  then show ?thesis
  proof cases
    case 1
    then show ?thesis using rel path_components_plain [OF assms]
      by (simp add: path_push_def) (simp add: path_components_def starts_with_def)
  next
    case 2
    have split: "split_on CHR ''/'' (q @ CHR ''/'' # seg) = split_on CHR ''/'' q @ [seg]"
      "split_on CHR ''/'' p = split_on CHR ''/'' q @ [[]]"
      using split_on_snoc_segment [of seg q] split_on_snoc_segment [of "[]" q] assms 2 by (simp_all add: plain_segment_def)
    have "lead_of (p @ seg) = lead_of p"
      using 2 split starts_with_append [of p _ seg] by (simp add: lead_of_def hd_append)
    then show ?thesis
      using rel 2 split comps_of_plain [OF assms]
      by (simp add: path_push_def ends_with_iff path_components_parts)
  next
    case 3
    then show ?thesis using rel components_below [OF assms 3(1)] by (simp add: path_push_def)
  qed
qed

lemma push_segments_ok:
  assumes "push_segments target segs p = Inr q" "list_all (\<lambda>s. CHR ''/'' \<notin> set s) segs"
  shows "path_components q = path_components p @ map NormalComp segs \<and> list_all plain_segment segs"
  using assms
proof (induction target segs p rule: push_segments.induct)
  case (2 target seg segs p)
  then have plain: "plain_segment seg" by (auto simp: plain_segment_def split: if_splits)
  moreover have "push_segments target segs (path_push p seg) = Inr q"
    using 2 by (simp split: if_splits)
  ultimately show ?case using 2 path_components_push [OF plain] by (simp split: if_splits)
qed simp

text \<open>C20: a target below \<open>~\<close> never leaves the home directory. Whatever \<open>expand_path\<close>
  accepts is the home directory followed by exactly the names written in the target:
  no root, no \<open>.\<close> or \<open>..\<close>, and no other component, so what opens is what the prompt
  showed.\<close>

theorem expand_path_confined:
  assumes "expand_path oc (CHR ''~'' # rest) = Inr p" "oc_home_dir oc = Some home"
  shows "\<exists>segs. path_components p = path_components home @ map NormalComp segs \<and> list_all plain_segment segs
    \<and> (rest = concat (map (Cons CHR ''/'') segs) \<or> rest = concat (map (Cons CHR ''/'') segs) @ ''/''
       \<or> rest = ''//'' \<and> segs = [])"
proof (cases rest)
  case Nil
  then show ?thesis using assms by (intro exI [of _ "[]"]) (simp add: expand_path_def)
next
  case (Cons c r)
  then have c: "c = CHR ''/''" using assms by (auto simp: expand_path_def split: if_splits option.splits)
  define r' where "r' = (case strip_suffix ''/'' r of Some q \<Rightarrow> q | None \<Rightarrow> r)"
  have r: "r = r' \<or> r = r' @ ''/''"
    by (auto simp: r'_def strip_suffix_iff split: option.split)
  have step: "(if r' = [] then Inr home else push_segments (CHR ''~'' # rest) (split_on CHR ''/'' r') home) = Inr p"
    using assms unfolding Cons c by (simp add: expand_path_def Let_def split del: if_split flip: r'_def)
  show ?thesis
  proof (cases "r' = []")
    case True
    then show ?thesis using step r by (intro exI [of _ "[]"]) (auto simp: Cons c)
  next
    case False
    define segs where "segs = split_on CHR ''/'' r'"
    have "list_all (\<lambda>s. CHR ''/'' \<notin> set s) segs" by (auto simp: segs_def list_all_iff dest: split_on_parts)
    from push_segments_ok [OF _ this, of "CHR ''~'' # rest" home p] step False
    have ok: "path_components p = path_components home @ map NormalComp segs \<and> list_all plain_segment segs"
      by (simp add: segs_def)
    have join_eq: "CHR ''/'' # join ''/'' ws = concat (map (Cons CHR ''/'') ws)" if "ws \<noteq> []" for ws
      using that by (induction "''/''" ws rule: join.induct) simp_all
    have "CHR ''/'' # r' = concat (map (Cons CHR ''/'') segs)"
      using join_eq [of segs] by (simp add: segs_def)
    then show ?thesis using ok r by (intro exI [of _ segs]) (auto simp: Cons c)
  qed
qed

theorem expand_path_confined_witness:
  "expand_path (platform_default ''linux'' (Some ''/home/u/'')) (CHR ''~'' # ''/a/b c/'') = Inr ''/home/u/a/b c''
   \<and> (\<exists>segs. path_components ''/home/u/a/b c'' = path_components ''/home/u/'' @ map NormalComp segs
        \<and> list_all plain_segment segs
        \<and> (''/a/b c/'' = concat (map (Cons CHR ''/'') segs) \<or> ''/a/b c/'' = concat (map (Cons CHR ''/'') segs) @ ''/''
           \<or> ''/a/b c/'' = ''//'' \<and> segs = []))"
proof -
  have e: "expand_path (platform_default ''linux'' (Some ''/home/u/'')) (CHR ''~'' # ''/a/b c/'') = Inr ''/home/u/a/b c''"
    by code_simp
  have h: "oc_home_dir (platform_default ''linux'' (Some ''/home/u/'')) = Some ''/home/u/''" by code_simp
  show ?thesis by (intro conjI e expand_path_confined [OF e h])
qed

section \<open>What is launched\<close>

text \<open>
  The specification of a dispatch, not a part of the code: the only call the local
  configuration gives for a resource. \<open>dispatch_one_log\<close> shows that \<open>dispatch_one\<close>,
  the model of the code, makes this call or none.
\<close>

definition handler_call :: "opener_config \<Rightarrow> planned_resource \<Rightarrow> (string list \<times> string option) option" where
  "handler_call oc pr =
     (let target = rd_target (pr_resource pr);
          path = (case expand_path oc target of Inr p \<Rightarrow> Some p | Inl _ \<Rightarrow> None);
          template = (\<lambda>t. map_option (\<lambda>t. (substitute t target, None)) t) in
      case pr_kind pr of
        Https \<Rightarrow> Some (open_with oc target, None)
      | Geo \<Rightarrow> Some (open_with oc target, None)
      | Mailto \<Rightarrow> Some (open_with oc target, None)
      | File \<Rightarrow> map_option (\<lambda>p. (open_with oc p, None)) path
      | Dir \<Rightarrow> map_option (\<lambda>p. (open_with oc p, None)) path
      | Terminal \<Rightarrow>
          (case (path, oc_terminal_argv oc) of (Some p, Some t) \<Rightarrow> Some (substitute t p, Some p) | _ \<Rightarrow> None)
      | Ssh \<Rightarrow> template (oc_ssh_argv oc)
      | RemoteDesktop \<Rightarrow> template (oc_remote_desktop_argv oc)
      | kind.Murl \<Rightarrow> None
      | Custom name \<Rightarrow> template (map_of (oc_custom oc) name))"

fun calls :: "effect list \<Rightarrow> (string list \<times> string option) list" where
  "calls [] = []"
| "calls (LaunchCall argv cwd # es) = (argv, cwd) # calls es"
| "calls (Slept _ # es) = calls es"

lemma calls_append [simp]: "calls (a @ b) = calls a @ calls b"
  by (induction a rule: calls.induct) simp_all

text \<open>A step either logs nothing, or one call.\<close>

lemma launch_log:
  "\<exists>new. snd (launch l argv cwd log) = log @ new \<and> (new = [] \<or> new = [LaunchCall argv cwd])
     \<and> (fst (fst (launch l argv cwd log)) = OOpened \<longrightarrow> new = [LaunchCall argv cwd] \<and> la_launch l log argv cwd = Inr ())"
  by (auto simp: launch_def split: sum.split)

lemma dispatch_one_log:
  "\<exists>new. snd (dispatch_one pr oc l log) = log @ new
     \<and> (new = [] \<or> (\<exists>c. handler_call oc pr = Some c \<and> new = [LaunchCall (fst c) (snd c)]))
     \<and> (fst (fst (dispatch_one pr oc l log)) = OOpened \<longrightarrow> new \<noteq> [])"
proof -
  have L: "\<exists>new. snd (launch l argv cwd log) = log @ new \<and> (new = [] \<or> new = [LaunchCall argv cwd])
     \<and> (fst (fst (launch l argv cwd log)) = OOpened \<longrightarrow> new \<noteq> [])" for argv cwd
    using launch_log [of l argv cwd log] by blast
  note defs = dispatch_one_def handler_call_def with_path_def with_handler_def Let_def
  have N: "\<exists>new. log = log @ new \<and> (new = [] \<or> P new) \<and> (False \<longrightarrow> new \<noteq> [])" for P by simp
  show ?thesis
    by (cases "pr_kind pr") (simp_all add: defs L N split: sum.split option.split)
qed

lemma execute_loop_log:
  "execute_loop oc l lim launched prs log = (outs, log') \<Longrightarrow>
   \<exists>new. log' = log @ new \<and> length outs = length prs
     \<and> subseq (calls new) (List.map_filter (\<lambda>(pr, a). if a = Approved then handler_call oc pr else None) prs)"
proof (induction prs arbitrary: launched log outs)
  case (Cons p prs)
  obtain pr a where p: "p = (pr, a)" by (cases p)
  show ?case
  proof (cases a)
    case Approved
    define log1 where "log1 = (if launched \<and> 0 < dispatch_stagger_ms lim then log @ [Slept (dispatch_stagger_ms lim)] else log)"
    obtain st log2 where d: "dispatch_one pr oc l log1 = (st, log2)" by fastforce
    obtain outs' where r: "execute_loop oc l lim (launched \<or> fst st = OOpened) prs log2 = (outs', log')"
      and outs: "outs = outcome_of pr st # outs'"
      using Cons.prems d by (auto simp: p Approved Let_def split: prod.splits simp flip: log1_def)
    obtain n1 where n1: "log1 = log @ n1" "calls n1 = []" by (cases "log1 = log") (auto simp: log1_def split: if_splits)
    from dispatch_one_log [of pr oc l log1] d obtain n2 where n2: "log2 = log1 @ n2"
      "n2 = [] \<or> (\<exists>c. handler_call oc pr = Some c \<and> n2 = [LaunchCall (fst c) (snd c)])" by auto
    from Cons.IH [OF r] obtain n3 where n3: "log' = log2 @ n3" "length outs' = length prs"
      "subseq (calls n3) (List.map_filter (\<lambda>(pr, a). if a = Approved then handler_call oc pr else None) prs)"
      by blast
    have "log' = log @ (n1 @ n2 @ n3)" using n1(1) n2(1) n3(1) by simp
    moreover have "subseq (calls (n1 @ n2 @ n3))
        (List.map_filter (\<lambda>(pr, a). if a = Approved then handler_call oc pr else None) ((pr, a) # prs))"
      using n1(2) n2(2) n3(3) by (auto simp: Approved map_filter_simps split: option.split)
    ultimately show ?thesis using n3(2) by (auto simp: outs p)
  qed (use Cons in \<open>auto simp: p map_filter_simps split: prod.splits\<close>)
qed (simp add: map_filter_simps)

fun approved_outcome :: "planned_resource \<times> approval \<Rightarrow> resource_outcome \<Rightarrow> bool" where
  "approved_outcome (pr, Approved) out \<longleftrightarrow> ro_id out = rd_id (pr_resource pr) \<and> ro_status out \<noteq> ODenied"
| "approved_outcome (pr, Denied reason) out \<longleftrightarrow>
     ro_id out = rd_id (pr_resource pr) \<and> ro_status out = ODenied \<and> ro_detail out = Some reason"
| "approved_outcome (pr, Skipped reason) out \<longleftrightarrow>
     ro_id out = rd_id (pr_resource pr) \<and> ro_status out = OSkipped \<and> ro_detail out = Some reason"

lemma dispatch_one_not_denied: "fst (fst (dispatch_one pr oc l log)) \<noteq> ODenied"
proof -
  have "fst (fst (launch l argv cwd log)) \<noteq> ODenied" for argv cwd
    by (cases "la_launch l log argv cwd") (simp_all add: launch_def)
  then show ?thesis
    by (cases "pr_kind pr") (simp_all add: dispatch_one_def with_path_def with_handler_def Let_def split: sum.split option.split)
qed

lemma execute_loop_outcomes:
  "execute_loop oc l lim launched prs log = (outs, log') \<Longrightarrow> list_all2 approved_outcome prs outs"
proof (induction prs arbitrary: launched log outs)
  case (Cons p prs)
  obtain pr a where p: "p = (pr, a)" by (cases p)
  show ?case
    using Cons dispatch_one_not_denied [of pr oc l]
    by (cases a) (auto simp: p outcome_of_def Let_def split: prod.splits, metis fst_conv)
qed simp

text \<open>C4: nothing runs without approval. A successful \<open>execute\<close> reports one outcome per
  planned resource, in plan order, with the denials and skips it was given; and the
  processes it starts are, in plan order, at most one per approved resource, each
  with exactly the argument vector the local configuration gives for that resource.\<close>

theorem launches_only_approved:
  assumes "execute r approvals oc l lim log = (Inr rep, log')"
  shows "list_all2 approved_outcome (zip (rs_resources r) approvals) (er_outcomes rep)
    \<and> length (er_outcomes rep) = length (rs_resources r)
    \<and> (\<exists>new. log' = log @ new \<and> subseq (calls new)
         (List.map_filter (\<lambda>(pr, a). if a = Approved then handler_call oc pr else None) (zip (rs_resources r) approvals)))"
proof -
  have len: "length approvals = length (rs_resources r)" using assms by (auto simp: execute_def split: if_splits)
  have e: "execute_loop oc l lim False (zip (rs_resources r) approvals) log = (er_outcomes rep, log')"
    using assms by (auto simp: execute_def split: if_splits prod.splits)
  show ?thesis using execute_loop_outcomes [OF e] execute_loop_log [OF e] len by auto
qed

definition sample_planned :: "kind \<Rightarrow> string \<Rightarrow> planned_resource" where
  "sample_planned k target = \<lparr>
     pr_resource = \<lparr> rd_id = ''r'', rd_kind = kind_display k, rd_target = target, rd_label = None, rd_role = None,
        rd_required = False, rd_order = 100, rd_depends_on = [], rd_tags = [], rd_integrity = None, rd_meta = None \<rparr>,
     pr_kind = k, pr_tier = classify k target, pr_node = 0, pr_root_anchor = ''r'', pr_decision = None \<rparr>"

definition sample_resolution :: resolution where
  "sample_resolution = \<lparr> rs_nodes = [], rs_resources =
     [sample_planned Https ''https://a.example/'', sample_planned Ssh ''ssh://h'', sample_planned Dir ''~/x''],
     rs_warnings = [], rs_selector = None \<rparr>"

definition sample_launcher :: launcher where
  "sample_launcher = \<lparr> la_launch = (\<lambda>_ _ _. Inr ()), la_path_exists = (\<lambda>_ _. True) \<rparr>"

theorem launches_only_approved_witness:
  "case execute sample_resolution [Approved, Denied ''no'', Approved] (platform_default ''linux'' (Some ''/home/u''))
          sample_launcher default_limits [] of
     (Inr rep, log) \<Rightarrow> length (er_outcomes rep) = 3
       \<and> calls log = [([''xdg-open'', ''https://a.example/''], None), ([''xdg-open'', ''/home/u/x''], None)]
   | _ \<Rightarrow> False"
proof -
  let ?e = "execute sample_resolution [Approved, Denied ''no'', Approved] (platform_default ''linux'' (Some ''/home/u''))
          sample_launcher default_limits []"
  have "is_ok (fst ?e)" by code_simp
  then obtain rep log where e: "?e = (Inr rep, log)" by (cases ?e) (auto simp: is_ok_iff)
  have "calls (snd ?e) = [([''xdg-open'', ''https://a.example/''], None), ([''xdg-open'', ''/home/u/x''], None)]"
    by code_simp
  moreover have "length (rs_resources sample_resolution) = 3" by (simp add: sample_resolution_def)
  ultimately show ?thesis using launches_only_approved [OF e] by (simp add: e)
qed

section \<open>The program is never the target\<close>

definition templates :: "opener_config \<Rightarrow> string list list" where
  "templates oc = oc_open_argv oc # map snd (oc_custom oc)
     @ List.map_filter id [oc_terminal_argv oc, oc_ssh_argv oc, oc_remote_desktop_argv oc]"

text \<open>The handler the configuration names for a kind; a container has none.\<close>

fun handler_for :: "opener_config \<Rightarrow> kind \<Rightarrow> string list option" where
  "handler_for oc Https = Some (oc_open_argv oc)"
| "handler_for oc File = Some (oc_open_argv oc)"
| "handler_for oc Dir = Some (oc_open_argv oc)"
| "handler_for oc Geo = Some (oc_open_argv oc)"
| "handler_for oc Mailto = Some (oc_open_argv oc)"
| "handler_for oc Terminal = oc_terminal_argv oc"
| "handler_for oc Ssh = oc_ssh_argv oc"
| "handler_for oc RemoteDesktop = oc_remote_desktop_argv oc"
| "handler_for oc (Custom name) = map_of (oc_custom oc) name"
| "handler_for oc kind.Murl = None"

lemma handler_for_templates: "handler_for oc k = Some t \<Longrightarrow> t \<in> set (templates oc)"
proof (cases k)
  case (Custom n)
  moreover assume "handler_for oc k = Some t"
  ultimately have "(n, t) \<in> set (oc_custom oc)" by (simp add: map_of_SomeD)
  then show ?thesis by (force simp: templates_def)
qed (simp_all add: templates_def map_filter_simps split: option.split)

text \<open>
  What a handler's words become: each word without the placeholder stays, and at most
  one word is added behind them.
\<close>

definition fills :: "string list \<Rightarrow> string list \<Rightarrow> bool" where
  "fills t argv \<longleftrightarrow> t \<noteq> [] \<and> (length argv = length t \<or> length argv = length t + 1)
     \<and> (\<forall>i<length t. argv ! i = t ! i \<or> contains ''{target}'' (t ! i))"

lemma fills_substitute: "t \<noteq> [] \<Longrightarrow> fills t (substitute t v)"
  by (auto simp: fills_def substitute_def Let_def nth_append)

lemma fills_open_with: "oc_open_argv oc \<noteq> [] \<Longrightarrow> fills (oc_open_argv oc) (open_with oc v)"
  by (auto simp: fills_def open_with_def nth_append)

lemma fills_program: "fills t argv \<Longrightarrow> \<not> contains ''{target}'' (hd t) \<Longrightarrow> argv \<noteq> [] \<and> hd argv = hd t"
  by (cases t; cases argv) (auto simp: fills_def)

lemma launch_calls:
  "snd (launch l argv cwd log) = log \<or> argv \<noteq> [] \<and> snd (launch l argv cwd log) = log @ [LaunchCall argv cwd]"
  by (simp add: launch_def)

lemma launch_substitute:
  "snd (launch l (substitute t v) cwd log) = log
     \<or> (\<exists>argv. fills t argv \<and> (\<exists>cwd'. snd (launch l (substitute t v) cwd log) = log @ [LaunchCall argv cwd']))"
  using launch_calls [of l "substitute t v" cwd log] fills_substitute [of t v] by (cases "t = []") (auto simp: substitute_def)

lemma launch_open_with:
  "snd (launch l (open_with oc v) cwd log) = log
     \<or> (\<exists>argv. fills (oc_open_argv oc) argv
          \<and> (\<exists>cwd'. snd (launch l (open_with oc v) cwd log) = log @ [LaunchCall argv cwd']))"
  using launch_calls [of l "open_with oc v" cwd log] fills_open_with [of oc v]
  by (cases "oc_open_argv oc = []") (auto simp: open_with_def)

lemma dispatch_one_fills:
  "snd (dispatch_one pr oc l log) = log
     \<or> (\<exists>t argv cwd. handler_for oc (pr_kind pr) = Some t \<and> fills t argv
          \<and> snd (dispatch_one pr oc l log) = log @ [LaunchCall argv cwd])"
  by (cases "pr_kind pr")
     (simp_all add: dispatch_one_def with_path_def with_handler_def Let_def launch_substitute launch_open_with
        split: sum.split option.split)

text \<open>C19: a manifest cannot choose what program runs or how many arguments it gets.
  Whatever resource is dispatched, the log of effects is unchanged or grows by one
  launch; that launch runs the program of the handler configured for the resource's
  own kind, provided no configured handler has the placeholder in its program; it has
  as many words as the handler or one more, and every word of the handler without
  the placeholder is passed unchanged. A kind with no handler launches nothing.\<close>

theorem target_never_program:
  assumes "dispatch_one pr oc l log = (st, log')"
    and "\<forall>t\<in>set (templates oc). t \<noteq> [] \<longrightarrow> \<not> contains ''{target}'' (hd t)"
  shows "log' = log
    \<or> (\<exists>t argv cwd. log' = log @ [LaunchCall argv cwd]
         \<and> handler_for oc (pr_kind pr) = Some t \<and> t \<in> set (templates oc) \<and> t \<noteq> []
         \<and> argv \<noteq> [] \<and> hd argv = hd t \<and> (length argv = length t \<or> length argv = length t + 1)
         \<and> (\<forall>i<length t. argv ! i = t ! i \<or> contains ''{target}'' (t ! i)))"
proof -
  have log': "log' = snd (dispatch_one pr oc l log)" using assms(1) by simp
  show ?thesis
  proof (cases "log' = log")
    case False
    then obtain t argv cwd where d: "handler_for oc (pr_kind pr) = Some t" "fills t argv" "log' = log @ [LaunchCall argv cwd]"
      using dispatch_one_fills [of pr oc l log] unfolding log' by blast
    have t: "t \<in> set (templates oc)" "t \<noteq> []" using handler_for_templates [OF d(1)] d(2) by (simp_all add: fills_def)
    then have "argv \<noteq> [] \<and> hd argv = hd t" using fills_program [OF d(2)] assms(2) by blast
    then show ?thesis using d t unfolding fills_def by blast
  qed simp
qed

theorem target_never_program_witness:
  "let oc = (platform_default ''linux'' None)\<lparr> oc_ssh_argv := Some [''ssh-client'', ''--url={target}''] \<rparr>
   in snd (dispatch_one (sample_planned Ssh ''ssh://h'') oc sample_launcher [])
        = [LaunchCall [''ssh-client'', ''--url=ssh://h''] None]
      \<and> (\<exists>t\<in>set (templates oc). handler_for oc Ssh = Some t \<and> ''ssh-client'' = hd t)"
proof -
  let ?oc = "(platform_default ''linux'' None)\<lparr> oc_ssh_argv := Some [''ssh-client'', ''--url={target}''] \<rparr>"
  let ?d = "dispatch_one (sample_planned Ssh ''ssh://h'') ?oc sample_launcher []"
  have call: "snd ?d = [LaunchCall [''ssh-client'', ''--url=ssh://h''] None]" by code_simp
  have kind: "pr_kind (sample_planned Ssh ''ssh://h'') = Ssh" by code_simp
  have free: "\<forall>t\<in>set (templates ?oc). t \<noteq> [] \<longrightarrow> \<not> contains ''{target}'' (hd t)" by code_simp
  have "\<exists>t\<in>set (templates ?oc). handler_for ?oc Ssh = Some t \<and> hd [''ssh-client'', ''--url=ssh://h''] = hd t"
    using target_never_program [OF prod.collapse [symmetric] free, of "sample_planned Ssh ''ssh://h''" sample_launcher "[]"]
    unfolding call kind append_Nil list.inject effect.inject by blast
  then show ?thesis unfolding Let_def list.sel(1) using call by blast
qed

section \<open>The aggregate result\<close>

definition missed :: "planned_resource \<times> resource_outcome \<Rightarrow> bool" where
  "missed p \<longleftrightarrow> rd_required (pr_resource (fst p)) \<and> ro_status (snd p) \<in> {ODenied, OFailed, OUnavailable}"

lemma fold_see:
  "fold see ps s = \<lparr> any_opened = any_opened s \<or> list_ex (\<lambda>p. ro_status (snd p) = OOpened) ps,
     any_bad = any_bad s \<or> list_ex (\<lambda>p. ro_status (snd p) \<in> {OFailed, OUnavailable}) ps,
     any_denied = any_denied s \<or> list_ex (\<lambda>p. ro_status (snd p) = ODenied) ps,
     required_missed = required_missed s \<or> list_ex missed ps \<rparr>"
proof (induction ps arbitrary: s)
  case (Cons p ps)
  then show ?case
    by (cases p; cases "ro_status (snd p)") (simp_all add: missed_def Let_def disj_assoc)
qed simp

text \<open>The aggregate of an activation, spec section 9. It is SUCCESS exactly when
  everything that was not skipped opened; FAILED exactly when a required resource did
  not open, or nothing opened and something failed; DENIED exactly when nothing
  opened or failed but something was denied; PARTIAL_SUCCESS exactly when something
  opened and something else, not required, did not.\<close>

lemma aggregate_iff:
  "let ps = zip (rs_resources r) outs; st = map (\<lambda>p. ro_status (snd p)) ps in
   (aggregate r outs = AggSuccess \<longleftrightarrow> set st \<subseteq> {OOpened, OSkipped})
   \<and> (aggregate r outs = AggFailed \<longleftrightarrow>
        list_ex missed ps \<or> (OOpened \<notin> set st \<and> set st \<inter> {OFailed, OUnavailable} \<noteq> {}))
   \<and> (aggregate r outs = AggDenied \<longleftrightarrow>
        \<not> list_ex missed ps \<and> set st \<inter> {OOpened, OFailed, OUnavailable} = {} \<and> ODenied \<in> set st)
   \<and> (aggregate r outs = AggPartial \<longleftrightarrow>
        \<not> list_ex missed ps \<and> OOpened \<in> set st \<and> \<not> set st \<subseteq> {OOpened, OSkipped})"
proof -
  define ps where "ps = zip (rs_resources r) outs"
  define P where "P s \<longleftrightarrow> s \<in> set (map (\<lambda>p. ro_status (snd p)) ps)" for s
  have ex: "list_ex (\<lambda>p. ro_status (snd p) = s) ps \<longleftrightarrow> P s" for s by (auto simp: list_ex_iff P_def)
  have ex2: "list_ex (\<lambda>p. ro_status (snd p) = OFailed \<or> ro_status (snd p) = OUnavailable) ps \<longleftrightarrow> P OFailed \<or> P OUnavailable"
    unfolding ex [symmetric] by (induction ps) auto
  have m: "list_ex missed ps \<Longrightarrow> P ODenied \<or> P OFailed \<or> P OUnavailable"
    unfolding ex [symmetric] by (induction ps) (auto simp: missed_def)
  have sub: "set (map (\<lambda>p. ro_status (snd p)) ps) \<subseteq> {OOpened, OSkipped} \<longleftrightarrow> \<not> P ODenied \<and> \<not> P OFailed \<and> \<not> P OUnavailable"
  proof -
    have "S \<subseteq> {OOpened, OSkipped} \<longleftrightarrow> ODenied \<notin> S \<and> OFailed \<notin> S \<and> OUnavailable \<notin> S" for S
    proof
      assume *: "ODenied \<notin> S \<and> OFailed \<notin> S \<and> OUnavailable \<notin> S"
      show "S \<subseteq> {OOpened, OSkipped}"
      proof
        fix s assume "s \<in> S" then show "s \<in> {OOpened, OSkipped}" using * by (cases s) simp_all
      qed
    qed auto
    then show ?thesis unfolding P_def .
  qed
  have agg: "aggregate r outs = (if list_ex missed ps then AggFailed
      else if P OOpened \<and> \<not> (P OFailed \<or> P OUnavailable) \<and> \<not> P ODenied then AggSuccess
      else if P OOpened then AggPartial else if P OFailed \<or> P OUnavailable then AggFailed
      else if P ODenied then AggDenied else AggSuccess)"
    by (simp add: aggregate_def fold_see ex ex2 flip: ps_def)
  have i2: "set (map (\<lambda>p. ro_status (snd p)) ps) \<inter> {OFailed, OUnavailable} = {} \<longleftrightarrow> \<not> P OFailed \<and> \<not> P OUnavailable"
    and i3: "set (map (\<lambda>p. ro_status (snd p)) ps) \<inter> {OOpened, OFailed, OUnavailable} = {}
      \<longleftrightarrow> \<not> P OOpened \<and> \<not> P OFailed \<and> \<not> P OUnavailable"
    unfolding P_def by (simp_all only: disjoint_insert Int_empty_right simp_thms conj_assoc)
  show ?thesis
    unfolding Let_def ps_def [symmetric] sub i2 i3 P_def [symmetric] agg using m
    by (cases "P OOpened"; cases "P OFailed"; cases "P OUnavailable"; cases "P ODenied"; cases "list_ex missed ps") simp_all
qed

end
