(* ===== verification/Consent.thy ===== *)
theory Consent
  imports Dispatch
begin

text \<open>
  Consent, the step between the policy and the dispatch: the daemon's rules
  (\<open>murl-daemon/src/consent_ui.rs\<close>), the answers of its terminal surface
  (\<open>terminal_ui.rs\<close>) and the command line's version (\<open>murl-cli/src/consent.rs\<close>). A
  surface that asks is a function of the request; a terminal is the list of lines the
  user types. The contract both share is the locale \<open>consent_rules\<close>.
\<close>

section \<open>Words typed at a terminal\<close>

text \<open>\<open>str::trim\<close>: the UTF-8 encodings of the White\_Space characters.\<close>

definition white_space :: "string list" where
  "white_space =
     map (\<lambda>n. [char_of n]) [9, 10, 11, 12, 13, 32 :: nat]
     @ [[CHR 0xC2, CHR 0x85], [CHR 0xC2, CHR 0xA0], [CHR 0xE1, CHR 0x9A, CHR 0x80]]
     @ map (\<lambda>n. [CHR 0xE2, CHR 0x80, char_of n]) ([0x80..<0x8B] @ [0xA8, 0xA9, 0xAF :: nat])
     @ [[CHR 0xE2, CHR 0x81, CHR 0x9F], [CHR 0xE3, CHR 0x80, CHR 0x80]]"

fun strip_any :: "string list \<Rightarrow> string \<Rightarrow> string option" where
  "strip_any [] s = None"
| "strip_any (w # ws) s = (case strip_prefix w s of Some r \<Rightarrow> Some r | None \<Rightarrow> strip_any ws s)"

text \<open>The fuel is the length: every encoding takes at least a byte.\<close>

fun strip_all :: "nat \<Rightarrow> string list \<Rightarrow> string \<Rightarrow> string" where
  "strip_all 0 ws s = s"
| "strip_all (Suc n) ws s = (case strip_any ws s of Some r \<Rightarrow> strip_all n ws r | None \<Rightarrow> s)"

definition trim :: "string \<Rightarrow> string" where
  "trim s =
     (let t = strip_all (length s) white_space s
      in rev (strip_all (length t) (map rev white_space) (rev t)))"

text \<open>\<open>str::parse::<usize>\<close> on a 64-bit machine: an optional plus sign and digits.\<close>

definition parse_usize :: "string \<Rightarrow> nat option" where
  "parse_usize s =
     (let d = (case s of CHR ''+'' # r \<Rightarrow> r | _ \<Rightarrow> s) in
      if d = [] \<or> \<not> all_digits d \<or> 2 ^ 64 \<le> nat_of_dec d then None else Some (nat_of_dec d))"

section \<open>The daemon's rules\<close>

record consent_item =
  ci_index :: nat
  ci_id :: string
  ci_label :: string
  ci_kind :: string
  ci_target :: string
  ci_tier :: tier
  ci_reasons :: "string list"

record consent_request =
  cr_name :: string
  cr_identity :: "string option"
  cr_origin :: string
  cr_trust :: string
  cr_items :: "consent_item list"
  cr_denied :: "(consent_item \<times> string) list"

definition item_of :: "nat \<Rightarrow> planned_resource \<Rightarrow> consent_item" where
  "item_of i pr = \<lparr> ci_index = i, ci_id = rd_id (pr_resource pr), ci_label = display_label pr,
     ci_kind = kind_display (pr_kind pr), ci_target = rd_target (pr_resource pr), ci_tier = pr_tier pr, ci_reasons = [] \<rparr>"

text \<open>The narrowing list of a client.\<close>

definition narrowed_out :: "string list \<Rightarrow> planned_resource \<Rightarrow> bool" where
  "narrowed_out only pr \<longleftrightarrow>
     only \<noteq> [] \<and> \<not> list_ex (\<lambda>s. s = rd_id (pr_resource pr) \<or> s = pr_root_anchor pr) only"

type_synonym prepared = "consent_item list \<times> (consent_item \<times> string) list \<times> approval option list"

text \<open>The loop of \<open>prepare\<close>: items to ask about, refused items, and a slot per resource.\<close>

fun prepare_loop :: "string list \<Rightarrow> nat \<Rightarrow> planned_resource list \<Rightarrow> prepared" where
  "prepare_loop only i [] = ([], [], [])"
| "prepare_loop only i (pr # prs) =
     (case prepare_loop only (i + 1) prs of
        (items, denied, slots) \<Rightarrow>
          if narrowed_out only pr then (items, denied, Some (Skipped ''not selected'') # slots)
          else
            (case pr_decision pr of
               Some Allow \<Rightarrow> (items, denied, Some Approved # slots)
             | Some (Deny reason) \<Rightarrow> (items, (item_of i pr, reason) # denied, Some (Denied reason) # slots)
             | Some (Prompt reasons) \<Rightarrow> (item_of i pr\<lparr> ci_reasons := reasons \<rparr> # items, denied, None # slots)
             | None \<Rightarrow> (items, denied, Some (Denied ''no policy decision'') # slots)))"

definition prepare :: "resolution \<Rightarrow> string list \<Rightarrow> (consent_request \<times> approval option list) option" where
  "prepare r only =
     (case root_node r of
        None \<Rightarrow> None
      | Some root \<Rightarrow>
          (case prepare_loop only 0 (rs_resources r) of
             (items, denied, slots) \<Rightarrow>
               Some (\<lparr> cr_name = md_name (mf_doc (rn_manifest root)), cr_identity = rn_identity root,
                       cr_origin = origin_describe (rn_origin root), cr_trust = trust_status_display (rn_trust root),
                       cr_items = items, cr_denied = denied \<rparr>, slots)))"

text \<open>\<open>apply\<close>, which leaves no slot undecided.\<close>

definition apply_grants :: "approval option list \<Rightarrow> nat list \<Rightarrow> approval list" where
  "apply_grants slots granted =
     map (\<lambda>(i, slot). case slot of
             Some a \<Rightarrow> a
           | None \<Rightarrow> if i \<in> set granted then Approved else Denied ''not granted'')
       (zip [0..<length slots] slots)"

definition deny_all_ui :: "consent_request \<Rightarrow> nat list" where
  "deny_all_ui req = []"

section \<open>The terminal surface\<close>

definition parse_answer :: "string \<Rightarrow> consent_request \<Rightarrow> nat list" where
  "parse_answer line req =
     (let answer = to_ascii_lowercase (trim line); offered = map ci_index (cr_items req) in
      if answer = ''a'' \<or> answer = ''all'' then offered
      else if answer = [] \<or> answer = ''n'' \<or> answer = ''none'' then []
      else filter (\<lambda>i. i \<in> set offered)
             (List.map_filter (\<lambda>part. parse_usize (trim part)) (split_on CHR '','' answer)))"

text \<open>\<open>line\<close> is what the user types, \<open>None\<close> when no terminal is attached.\<close>

definition terminal_ask :: "string option \<Rightarrow> consent_request \<Rightarrow> nat list" where
  "terminal_ask line req =
     (if cr_items req = [] then []
      else case line of None \<Rightarrow> [] | Some l \<Rightarrow> parse_answer l req)"

section \<open>The command line\<close>

record open_options =
  oo_dry_run :: bool
  oo_yes :: bool
  oo_allow_sensitive :: bool
  oo_allow_dangerous :: bool
  oo_only :: "string list"
  oo_skip :: "string list"

definition flag_approved :: "open_options \<Rightarrow> tier \<Rightarrow> bool" where
  "flag_approved opts t =
     (case t of
        Safe \<Rightarrow> oo_yes opts \<or> oo_allow_sensitive opts \<or> oo_allow_dangerous opts
      | Sensitive \<Rightarrow> oo_allow_sensitive opts
      | Dangerous \<Rightarrow> oo_allow_dangerous opts)"

text \<open>The slot of one resource; the outer \<open>None\<close> is the panic on a missing decision.\<close>

definition decide_slot :: "open_options \<Rightarrow> planned_resource \<Rightarrow> approval option option" where
  "decide_slot opts pr =
     (if narrowed_out (oo_only opts) pr then Some (Some (Skipped ''not selected (--only)''))
      else if list_ex (\<lambda>s. s = rd_id (pr_resource pr)) (oo_skip opts) then Some (Some (Skipped ''skipped (--skip)''))
      else
        (case pr_decision pr of
           None \<Rightarrow> None
         | Some (Deny reason) \<Rightarrow> Some (Some (Denied reason))
         | Some Allow \<Rightarrow> Some (Some Approved)
         | Some (Prompt _) \<Rightarrow> Some (if flag_approved opts (pr_tier pr) then Some Approved else None)))"

text \<open>Words are compared after \<open>to_lowercase\<close>. The only other characters that lower-case
  to ASCII letters are U+212A (k) and U+0130 (i and a dot), letters of none of the words.\<close>

definition answered :: "string list \<Rightarrow> string \<Rightarrow> bool" where
  "answered ws line \<longleftrightarrow> to_ascii_lowercase (trim line) \<in> set ws"

text \<open>One line of standard input; nothing at its end.\<close>

fun read_line :: "string list \<Rightarrow> string \<times> string list" where
  "read_line [] = ([], [])"
| "read_line (l # ls) = (l, ls)"

text \<open>Answers for the pending resources, in order.\<close>

fun select_each :: "nat \<Rightarrow> string list \<Rightarrow> approval list" where
  "select_each 0 input = []"
| "select_each (Suc n) input =
     (case read_line input of
        (l, rest) \<Rightarrow> (if answered [''y'', ''yes''] l then Approved else Denied ''declined'') # select_each n rest)"

definition prompt_for :: "nat \<Rightarrow> string list \<Rightarrow> approval list" where
  "prompt_for n input =
     (case read_line input of
        (l, rest) \<Rightarrow>
          if answered [''a'', ''all''] l then replicate n Approved
          else if answered [''s'', ''select''] l then select_each n rest
          else replicate n (Denied ''declined''))"

fun fill_slots :: "approval option list \<Rightarrow> approval list \<Rightarrow> approval list" where
  "fill_slots [] answers = []"
| "fill_slots (Some a # slots) answers = a # fill_slots slots answers"
| "fill_slots (None # slots) (a # answers) = a # fill_slots slots answers"
| "fill_slots (None # slots) [] = Denied ''declined'' # fill_slots slots []"

text \<open>The answers for the \<open>n\<close> pending resources; \<open>input\<close> is standard input when both it
  and standard error are terminals.\<close>

definition pending_answers :: "nat \<Rightarrow> string list option \<Rightarrow> approval list" where
  "pending_answers n input =
     (if n = 0 then []
      else case input of
        Some lines \<Rightarrow> prompt_for n lines
      | None \<Rightarrow> replicate n (Denied
          ''requires consent; re-run interactively or pass --yes / --allow-sensitive / --allow-dangerous''))"

definition decide :: "resolution \<Rightarrow> open_options \<Rightarrow> string list option \<Rightarrow> approval list option" where
  "decide r opts input =
     (let slots = map (decide_slot opts) (rs_resources r) in
      if None \<in> set slots then None
      else
        let slots = map the slots in
        Some (fill_slots slots (pending_answers (length (filter (\<lambda>s. s = None) slots)) input)))"

section \<open>The contract of a consent step\<close>

text \<open>What the daemon does between the policy and the dispatch (\<open>activate\<close> in
  \<open>server.rs\<close>): the surface \<open>ui\<close> is any function of the request.\<close>

definition daemon_consent :: "string list \<times> (consent_request \<Rightarrow> nat list) \<Rightarrow> resolution \<Rightarrow> approval list option" where
  "daemon_consent u r =
     (case prepare r (fst u) of
        None \<Rightarrow> None
      | Some (req, slots) \<Rightarrow> Some (apply_grants slots (snd u req)))"

definition cli_consent :: "open_options \<times> string list option \<Rightarrow> resolution \<Rightarrow> approval list option" where
  "cli_consent u r = decide r (fst u) (snd u)"

text \<open>When a resource may be approved: it is not excluded, and the policy allows it
  silently or asks and the user agrees.\<close>

fun asks :: "decision option \<Rightarrow> bool" where
  "asks (Some (Prompt _)) = True"
| "asks _ = False"

definition approvable :: "bool \<Rightarrow> bool \<Rightarrow> planned_resource \<Rightarrow> bool" where
  "approvable excluded agreed pr \<longleftrightarrow>
     \<not> excluded \<and> (pr_decision pr = Some Allow \<or> asks (pr_decision pr) \<and> agreed)"

definition consented_calls :: "opener_config \<Rightarrow> resolution \<Rightarrow> (nat \<Rightarrow> bool) \<Rightarrow> (string list \<times> string option) list" where
  "consented_calls oc r ok =
     List.map_filter (\<lambda>i. if ok i then handler_call oc (rs_resources r ! i) else None) [0..<length (rs_resources r)]"

lemma map_filter_zip_nth:
  "length xs = length ys \<Longrightarrow>
   List.map_filter (\<lambda>(x, y). f x y) (zip xs ys) = List.map_filter (\<lambda>i. f (xs ! i) (ys ! i)) [0..<length xs]"
proof (induction xs ys rule: list_induct2)
  case (Cons x xs y ys)
  have "[0..<length (x # xs)] = 0 # map Suc [0..<length xs]" by (simp add: map_Suc_upt upt_conv_Cons del: upt_Suc)
  then show ?case using Cons.IH by (simp add: map_filter_simps List.map_filter_def comp_def filter_map del: upt_Suc)
qed (simp add: map_filter_simps)

lemma map_filter_cong:
  "(\<And>x. x \<in> set xs \<Longrightarrow> f x = g x) \<Longrightarrow> List.map_filter f xs = List.map_filter g xs"
proof (induction xs)
  case (Cons x xs)
  then have "f x = g x" "List.map_filter f xs = List.map_filter g xs" by simp_all
  then show ?case by (simp only: map_filter_simps)
qed (simp add: map_filter_simps)

locale consent_rules =
  fixes consent :: "'u \<Rightarrow> resolution \<Rightarrow> approval list option"
    and excluded :: "'u \<Rightarrow> planned_resource \<Rightarrow> bool"
    and agreed :: "'u \<Rightarrow> resolution \<Rightarrow> nat \<Rightarrow> bool"
  assumes consent_length: "consent u r = Some as \<Longrightarrow> length as = length (rs_resources r)"
    and consent_slot: "consent u r = Some as \<Longrightarrow> i < length (rs_resources r) \<Longrightarrow>
      as ! i = Approved \<longleftrightarrow> approvable (excluded u (rs_resources r ! i)) (agreed u r i) (rs_resources r ! i)"
begin

text \<open>A refusal is final, whatever the user does.\<close>

lemma refusal_final:
  "consent u r = Some as \<Longrightarrow> i < length (rs_resources r) \<Longrightarrow> pr_decision (rs_resources r ! i) = Some (Deny reason) \<Longrightarrow>
   as ! i \<noteq> Approved"
  by (simp add: consent_slot approvable_def)

text \<open>The dispatch that follows never fails, and starts only what was consented to.\<close>

lemma consented_only:
  assumes c: "consent u r = Some as"
  shows "\<exists>rep new. execute r as oc l lim log = (Inr rep, log @ new)
    \<and> length (er_outcomes rep) = length (rs_resources r)
    \<and> subseq (calls new)
        (consented_calls oc r (\<lambda>i. approvable (excluded u (rs_resources r ! i)) (agreed u r i) (rs_resources r ! i)))"
proof -
  let ?ok = "\<lambda>i. approvable (excluded u (rs_resources r ! i)) (agreed u r i) (rs_resources r ! i)"
  have len: "length as = length (rs_resources r)" using c by (rule consent_length)
  obtain outs log' where e: "execute_loop oc l lim False (zip (rs_resources r) as) log = (outs, log')" by fastforce
  from execute_loop_log [OF e] obtain new where new: "log' = log @ new" "length outs = length (zip (rs_resources r) as)"
    "subseq (calls new) (List.map_filter (\<lambda>(pr, a). if a = Approved then handler_call oc pr else None) (zip (rs_resources r) as))"
    by blast
  have "List.map_filter (\<lambda>(pr, a). if a = Approved then handler_call oc pr else None) (zip (rs_resources r) as)
      = consented_calls oc r ?ok"
    unfolding consented_calls_def map_filter_zip_nth [OF len [symmetric]]
    by (rule map_filter_cong) (simp add: consent_slot [OF c])
  then show ?thesis using e new len by (simp add: execute_def)
qed

end

section \<open>The daemon keeps the contract\<close>

definition slot_of :: "string list \<Rightarrow> planned_resource \<Rightarrow> approval option" where
  "slot_of only pr =
     (if narrowed_out only pr then Some (Skipped ''not selected'')
      else case pr_decision pr of
        Some Allow \<Rightarrow> Some Approved
      | Some (Deny reason) \<Rightarrow> Some (Denied reason)
      | Some (Prompt _) \<Rightarrow> None
      | None \<Rightarrow> Some (Denied ''no policy decision''))"

lemma prepare_loop_slots: "snd (snd (prepare_loop only i prs)) = map (slot_of only) prs"
proof (induction prs arbitrary: i)
  case (Cons pr prs)
  obtain items denied slots where r: "prepare_loop only (Suc i) prs = (items, denied, slots)" by (metis prod_cases3)
  then have "slots = map (slot_of only) prs" using Cons.IH [of "Suc i"] by simp
  then show ?case by (simp add: r slot_of_def split: option.split decision.split)
qed simp

lemma prepare_loop_items:
  "map ci_index (fst (prepare_loop only i prs)) = filter (\<lambda>j. slot_of only (prs ! (j - i)) = None) [i..<i + length prs]"
proof (induction prs arbitrary: i)
  case (Cons pr prs)
  obtain items denied slots where r: "prepare_loop only (Suc i) prs = (items, denied, slots)" by (metis prod_cases3)
  have head: "map ci_index (fst (prepare_loop only i (pr # prs))) = (if slot_of only pr = None then [i] else []) @ map ci_index items"
    by (cases "narrowed_out only pr"; cases "pr_decision pr") (simp_all add: r slot_of_def item_of_def split: decision.split)
  have range: "[i..<i + length (pr # prs)] = i # [Suc i..<Suc i + length prs]" by (simp add: upt_conv_Cons del: upt_Suc)
  have tail: "filter (\<lambda>j. slot_of only ((pr # prs) ! (j - i)) = None) [Suc i..<Suc i + length prs]
      = filter (\<lambda>j. slot_of only (prs ! (j - Suc i)) = None) [Suc i..<Suc i + length prs]"
  proof (rule filter_cong)
    fix j
    assume "j \<in> set [Suc i..<Suc i + length prs]"
    then have "j - i = Suc (j - Suc i)" by auto
    then show "(slot_of only ((pr # prs) ! (j - i)) = None) = (slot_of only (prs ! (j - Suc i)) = None)" by simp
  qed simp
  have "map ci_index items = filter (\<lambda>j. slot_of only (prs ! (j - Suc i)) = None) [Suc i..<Suc i + length prs]"
    using Cons.IH [of "Suc i"] by (simp add: r)
  then show ?case unfolding head range filter.simps tail by simp
qed simp

lemma slot_approved: "slot_of only pr = Some Approved \<longleftrightarrow> \<not> narrowed_out only pr \<and> pr_decision pr = Some Allow"
  by (simp add: slot_of_def split: option.split decision.split)

lemma slot_undecided: "slot_of only pr = None \<longleftrightarrow> \<not> narrowed_out only pr \<and> asks (pr_decision pr)"
  by (simp add: slot_of_def split: option.split decision.split)

lemma apply_grants_nth:
  "i < length slots \<Longrightarrow> apply_grants slots g ! i =
     (case slots ! i of Some a \<Rightarrow> a | None \<Rightarrow> if i \<in> set g then Approved else Denied ''not granted'')"
  by (simp add: apply_grants_def)

text \<open>The indices the surface granted, read from the request it was shown.\<close>

definition daemon_agreed :: "string list \<times> (consent_request \<Rightarrow> nat list) \<Rightarrow> resolution \<Rightarrow> nat \<Rightarrow> bool" where
  "daemon_agreed u r i = (case prepare r (fst u) of None \<Rightarrow> False | Some (req, _) \<Rightarrow> i \<in> set (snd u req))"

lemma prepare_slots: "prepare r only = Some (req, slots) \<Longrightarrow> slots = map (slot_of only) (rs_resources r)"
  using prepare_loop_slots [of only 0 "rs_resources r"]
  by (auto simp: prepare_def split: option.splits prod.splits)

interpretation daemon: consent_rules daemon_consent "\<lambda>u. narrowed_out (fst u)" daemon_agreed
proof unfold_locales
  fix u r as
  assume c: "daemon_consent u r = Some as"
  then obtain req slots where p: "prepare r (fst u) = Some (req, slots)" and a: "as = apply_grants slots (snd u req)"
    by (auto simp: daemon_consent_def split: option.splits)
  note slots = prepare_slots [OF p]
  show "length as = length (rs_resources r)" by (simp add: a slots apply_grants_def)
  fix i
  assume i: "i < length (rs_resources r)"
  show "as ! i = Approved \<longleftrightarrow> approvable (narrowed_out (fst u) (rs_resources r ! i)) (daemon_agreed u r i) (rs_resources r ! i)"
  proof (cases "slot_of (fst u) (rs_resources r ! i)")
    case None
    then show ?thesis using i slot_undecided [of "fst u" "rs_resources r ! i"]
      by (auto simp: a apply_grants_nth slots approvable_def daemon_agreed_def p)
  next
    case (Some x)
    moreover have "\<not> (\<not> narrowed_out (fst u) (rs_resources r ! i) \<and> asks (pr_decision (rs_resources r ! i)))"
      using Some slot_undecided [of "fst u" "rs_resources r ! i"] by simp
    ultimately show ?thesis using i slot_approved [of "fst u" "rs_resources r ! i"]
      by (auto simp: a apply_grants_nth slots approvable_def)
  qed
qed

section \<open>The command line keeps the contract\<close>

text \<open>The answer to the pending resource of rank \<open>k\<close>: the first line decides for all,
  or selects, and then line \<open>k + 1\<close> decides.\<close>

definition typed_yes :: "string list \<Rightarrow> nat \<Rightarrow> bool" where
  "typed_yes lines k \<longleftrightarrow>
     (case lines of [] \<Rightarrow> False
      | l # ls \<Rightarrow> answered [''a'', ''all''] l
          \<or> (answered [''s'', ''select''] l \<and> k < length ls \<and> answered [''y'', ''yes''] (ls ! k)))"

definition pending_rank :: "open_options \<Rightarrow> resolution \<Rightarrow> nat \<Rightarrow> nat" where
  "pending_rank opts r i = length (filter (\<lambda>pr. decide_slot opts pr = Some None) (take i (rs_resources r)))"

definition cli_agreed :: "open_options \<times> string list option \<Rightarrow> resolution \<Rightarrow> nat \<Rightarrow> bool" where
  "cli_agreed u r i \<longleftrightarrow>
     flag_approved (fst u) (pr_tier (rs_resources r ! i))
     \<or> (case snd u of None \<Rightarrow> False | Some lines \<Rightarrow> typed_yes lines (pending_rank (fst u) r i))"

definition cli_excluded :: "open_options \<times> string list option \<Rightarrow> planned_resource \<Rightarrow> bool" where
  "cli_excluded u pr \<longleftrightarrow> narrowed_out (oo_only (fst u)) pr \<or> rd_id (pr_resource pr) \<in> set (oo_skip (fst u))"

lemma fill_slots_length: "length (fill_slots slots answers) = length slots"
  by (induction slots answers rule: fill_slots.induct) simp_all

lemma fill_slots_nth:
  "length answers = length (filter (\<lambda>s. s = None) slots) \<Longrightarrow> i < length slots \<Longrightarrow>
   fill_slots slots answers ! i =
     (case slots ! i of Some a \<Rightarrow> a | None \<Rightarrow> answers ! length (filter (\<lambda>s. s = None) (take i slots)))"
proof (induction slots answers arbitrary: i rule: fill_slots.induct)
  case (2 a slots answers)
  then show ?case by (cases i) (simp_all split: option.split)
next
  case (3 slots a answers)
  then show ?case by (cases i) (simp_all split: option.split)
qed simp_all

lemma select_each_length [simp]: "length (select_each n input) = n"
  by (induction n arbitrary: input) (simp_all split: prod.split)

lemma answered_nothing: "answered [''y'', ''yes''] [] = False" "answered [''a'', ''all''] [] = False"
    "answered [''s'', ''select''] [] = False"
  by code_simp+

lemma select_each_nth:
  "i < n \<Longrightarrow> select_each n input ! i = Approved \<longleftrightarrow> i < length input \<and> answered [''y'', ''yes''] (input ! i)"
proof (induction n arbitrary: i input)
  case (Suc n)
  then show ?case
    by (cases input; cases i) (simp_all add: answered_nothing)
qed simp

lemma prompt_for_length [simp]: "length (prompt_for n input) = n"
  by (simp add: prompt_for_def split: prod.split)

lemma prompt_for_nth: "k < n \<Longrightarrow> prompt_for n input ! k = Approved \<longleftrightarrow> typed_yes input k"
  by (cases input) (simp_all add: prompt_for_def typed_yes_def answered_nothing select_each_nth)

lemma decide_slot_cases:
  "decide_slot opts pr = Some s \<Longrightarrow>
     (s = Some Approved \<longleftrightarrow> approvable (cli_excluded (opts, input) pr) (flag_approved opts (pr_tier pr)) pr)
     \<and> (s = None \<longleftrightarrow> \<not> cli_excluded (opts, input) pr \<and> asks (pr_decision pr) \<and> \<not> flag_approved opts (pr_tier pr))"
  by (auto simp: decide_slot_def cli_excluded_def approvable_def list_ex_iff split: if_splits option.splits decision.splits)

lemma decide_filled:
  "decide r opts input = Some as \<Longrightarrow>
     as = fill_slots (map the (map (decide_slot opts) (rs_resources r)))
            (pending_answers (length (filter (\<lambda>s. s = None) (map the (map (decide_slot opts) (rs_resources r))))) input)
     \<and> None \<notin> set (map (decide_slot opts) (rs_resources r))"
  unfolding decide_def Let_def by (metis option.distinct(1) option.inject)

lemma pending_answers_length [simp]: "length (pending_answers n input) = n"
  by (simp add: pending_answers_def split: option.split)

lemma pending_answers_nth:
  "k < n \<Longrightarrow> pending_answers n input ! k = Approved \<longleftrightarrow> (case input of None \<Rightarrow> False | Some lines \<Rightarrow> typed_yes lines k)"
  by (simp add: pending_answers_def prompt_for_nth split: option.split)

lemma count_before:
  "i < length xs \<Longrightarrow> P (xs ! i) \<Longrightarrow> length (filter P (take i xs)) < length (filter P xs)"
proof -
  assume i: "i < length xs" "P (xs ! i)"
  have "filter P xs = filter P (take i xs) @ filter P (xs ! i # drop (Suc i) xs)"
    unfolding filter_append [symmetric] using i by (simp add: id_take_nth_drop [symmetric] Cons_nth_drop_Suc)
  then show ?thesis using i by simp
qed

interpretation command_line: consent_rules cli_consent cli_excluded cli_agreed
proof unfold_locales
  fix u r as
  assume c: "cli_consent u r = Some as"
  obtain opts input where u: "u = (opts, input)" by (cases u)
  define slots where "slots = map the (map (decide_slot opts) (rs_resources r))"
  let ?n = "length (filter (\<lambda>s. s = None) slots)"
  from c have "decide r opts input = Some as" by (simp add: cli_consent_def u)
  from decide_filled [OF this] have a: "as = fill_slots slots (pending_answers ?n input)"
    and ok: "None \<notin> set (map (decide_slot opts) (rs_resources r))" by (simp_all add: slots_def)
  show "length as = length (rs_resources r)" by (simp add: a fill_slots_length slots_def)
  fix i
  assume i: "i < length (rs_resources r)"
  define pr where "pr = rs_resources r ! i"
  have some: "decide_slot opts x = Some (the (decide_slot opts x))" if "x \<in> set (rs_resources r)" for x
    using ok that by (cases "decide_slot opts x") force+
  have slot: "decide_slot opts pr = Some (slots ! i)" using some [of pr] i by (simp add: pr_def slots_def)
  have rank: "length (filter (\<lambda>s. s = None) (take i slots)) = pending_rank opts r i"
  proof -
    have "the (decide_slot opts x) = None \<longleftrightarrow> decide_slot opts x = Some None" if "x \<in> set (take i (rs_resources r))" for x
      using some [of x] set_take_subset that by fastforce
    then show ?thesis
      unfolding pending_rank_def slots_def take_map filter_map length_map
      by (intro arg_cong [where f = length] filter_cong) (auto simp: comp_def)
  qed
  have len: "i < length slots" using i by (simp add: slots_def)
  note nth = fill_slots_nth [OF pending_answers_length len, of input]
  note d = decide_slot_cases [OF slot, of input]
  show "as ! i = Approved \<longleftrightarrow> approvable (cli_excluded u (rs_resources r ! i)) (cli_agreed u r i) (rs_resources r ! i)"
  proof (cases "slots ! i")
    case None
    then have "pending_rank opts r i < ?n" using count_before [of i slots "\<lambda>s. s = None"] len rank by simp
    then have "as ! i = Approved \<longleftrightarrow> (case input of None \<Rightarrow> False | Some lines \<Rightarrow> typed_yes lines (pending_rank opts r i))"
      using None nth by (simp add: a rank pending_answers_nth)
    then show ?thesis using d None by (cases input) (auto simp: u cli_agreed_def approvable_def simp flip: pr_def)
  next
    case (Some x)
    then have "as ! i = x" using nth by (simp add: a)
    then show ?thesis using d Some by (auto simp: u cli_agreed_def approvable_def simp flip: pr_def)
  qed
qed

section \<open>Properties\<close>

text \<open>
  Consent in the daemon. Whatever the surface answers, the approvals fit the plan,
  the dispatch that follows succeeds, and every process it starts belongs, in plan
  order and at most once, to a resource the client did not narrow out and that the
  policy either allows silently or asks about and the surface granted. A refusal is
  final: an index of a refused resource in the answer approves nothing.
\<close>

lemma daemon_consent_sound:
  assumes "daemon_consent (only, ui) r = Some approvals"
  shows "(\<exists>rep new. execute r approvals oc l lim log = (Inr rep, log @ new)
      \<and> length (er_outcomes rep) = length (rs_resources r)
      \<and> subseq (calls new) (consented_calls oc r (\<lambda>i.
          approvable (narrowed_out only (rs_resources r ! i)) (daemon_agreed (only, ui) r i) (rs_resources r ! i))))
    \<and> (\<forall>i<length (rs_resources r). (\<exists>reason. pr_decision (rs_resources r ! i) = Some (Deny reason)) \<longrightarrow> approvals ! i \<noteq> Approved)"
  using daemon.consented_only [OF assms] daemon.refusal_final [OF assms] by auto

text \<open>
  Consent on the command line. The same contract: a process is started only for a
  resource that \<open>--only\<close> and \<open>--skip\<close> leave in the plan and that the policy allows
  silently, or asks about and a flag of its tier or a typed answer approves. Without a
  terminal only the flags count.
\<close>

lemma cli_consent_sound:
  assumes "decide r opts input = Some approvals"
  shows "(\<exists>rep new. execute r approvals oc l lim log = (Inr rep, log @ new)
      \<and> length (er_outcomes rep) = length (rs_resources r)
      \<and> subseq (calls new) (consented_calls oc r (\<lambda>i.
          approvable (cli_excluded (opts, input) (rs_resources r ! i)) (cli_agreed (opts, input) r i) (rs_resources r ! i))))
    \<and> (\<forall>i<length (rs_resources r). (\<exists>reason. pr_decision (rs_resources r ! i) = Some (Deny reason)) \<longrightarrow> approvals ! i \<noteq> Approved)"
proof -
  have c: "cli_consent (opts, input) r = Some approvals" using assms by (simp add: cli_consent_def)
  show ?thesis using command_line.consented_only [OF c] command_line.refusal_final [OF c] by auto
qed

text \<open>
  What a consent dialog shows, and what a terminal may answer. The request offers
  exactly the resources that are not narrowed out and that the policy asks about, by
  their indices in plan order; the terminal surface never returns an index that was
  not offered, and returns none without a terminal or at an empty line.
\<close>

lemma prepare_offers:
  assumes "prepare r only = Some (req, slots)"
  shows "map ci_index (cr_items req) = filter (\<lambda>i. \<not> narrowed_out only (rs_resources r ! i)
            \<and> asks (pr_decision (rs_resources r ! i))) [0..<length (rs_resources r)]
    \<and> set (terminal_ask line req) \<subseteq> set (map ci_index (cr_items req))
    \<and> terminal_ask None req = [] \<and> terminal_ask (Some []) req = []"
proof -
  have "cr_items req = fst (prepare_loop only 0 (rs_resources r))"
    using assms by (auto simp: prepare_def split: option.splits prod.splits)
  then have "map ci_index (cr_items req) = filter (\<lambda>i. slot_of only (rs_resources r ! i) = None) [0..<length (rs_resources r)]"
    using prepare_loop_items [of only 0 "rs_resources r"] by simp
  moreover have "parse_answer [] req = []"
  proof -
    have "to_ascii_lowercase (trim []) = []" by code_simp
    then show ?thesis by (simp add: parse_answer_def)
  qed
  ultimately show ?thesis
    by (auto simp: slot_undecided terminal_ask_def parse_answer_def Let_def split: option.split)
qed

text \<open>A plan with a resource the policy allows, one it refuses and one it asks about.\<close>

definition sample_consent :: resolution where
  "sample_consent =
     sample_resolution\<lparr>
       rs_nodes := [\<lparr> rn_identity = None, rn_origin = LocalStore ''x'',
          rn_manifest = \<lparr> mf_raw = JNull, mf_doc = \<lparr> md_murl_version = ''1'', md_id = None, md_name = ''demo'',
             md_description = None, md_version = None, md_not_before = None, md_expires = None, md_resources = [],
             md_relations = [], md_signature = None \<rparr> \<rparr>,
          rn_raw_bytes = [], rn_trust = TLocal, rn_depth = 0, rn_expired = False, rn_premature = False \<rparr>],
       rs_resources := map (\<lambda>(pr, d). pr\<lparr> pr_decision := Some d \<rparr>)
          (zip (rs_resources sample_resolution) [Allow, Deny ''no'', Prompt [''SENSITIVE resource'']]) \<rparr>"

definition sample_opener :: opener_config where
  "sample_opener = platform_default ''linux'' (Some ''/home/u'')"

text \<open>A surface that grants every index, asked or not.\<close>

definition grant_all :: "consent_request \<Rightarrow> nat list" where
  "grant_all req = [0, 1, 2, 3]"

lemma daemon_consent_sound_witness:
  "\<exists>approvals rep new. daemon_consent ([], grant_all) sample_consent = Some approvals
     \<and> execute sample_consent approvals sample_opener sample_launcher default_limits [] = (Inr rep, new)
     \<and> subseq (calls new) [([''xdg-open'', ''https://a.example/''], None), ([''xdg-open'', ''/home/u/x''], None)]"
proof -
  have c: "daemon_consent ([], grant_all) sample_consent = Some [Approved, Denied ''no'', Approved]" by code_simp
  have calls: "consented_calls sample_opener sample_consent (\<lambda>i.
      approvable (narrowed_out [] (rs_resources sample_consent ! i)) (daemon_agreed ([], grant_all) sample_consent i)
        (rs_resources sample_consent ! i))
    = [([''xdg-open'', ''https://a.example/''], None), ([''xdg-open'', ''/home/u/x''], None)]" by code_simp
  from conjunct1 [OF daemon_consent_sound [OF c, of sample_opener sample_launcher default_limits "[]"]] c
  show ?thesis unfolding calls by auto
qed

lemma cli_consent_sound_witness:
  "\<exists>approvals rep new. decide sample_consent \<lparr> oo_dry_run = False, oo_yes = False, oo_allow_sensitive = False,
        oo_allow_dangerous = True, oo_only = [], oo_skip = [] \<rparr> (Some [''no'']) = Some approvals
     \<and> execute sample_consent approvals sample_opener sample_launcher default_limits [] = (Inr rep, new)
     \<and> subseq (calls new) [([''xdg-open'', ''https://a.example/''], None)]"
proof -
  let ?o = "\<lparr> oo_dry_run = False, oo_yes = False, oo_allow_sensitive = False, oo_allow_dangerous = True, oo_only = [], oo_skip = [] \<rparr> :: open_options"
  have c: "decide sample_consent ?o (Some [''no'']) = Some [Approved, Denied ''no'', Denied ''declined'']" by code_simp
  have calls: "consented_calls sample_opener sample_consent (\<lambda>i.
      approvable (cli_excluded (?o, Some [''no'']) (rs_resources sample_consent ! i)) (cli_agreed (?o, Some [''no'']) sample_consent i)
        (rs_resources sample_consent ! i))
    = [([''xdg-open'', ''https://a.example/''], None)]" by code_simp
  from conjunct1 [OF cli_consent_sound [OF c, of sample_opener sample_launcher default_limits "[]"]] c
  show ?thesis unfolding calls by auto
qed

lemma prepare_offers_witness:
  "\<exists>req slots. prepare sample_consent [] = Some (req, slots) \<and> map ci_index (cr_items req) = [2]"
proof -
  have p: "prepare sample_consent [] = Some (the (prepare sample_consent []))" by code_simp
  then obtain req slots where r: "prepare sample_consent [] = Some (req, slots)" by (cases "the (prepare sample_consent [])") auto
  have "filter (\<lambda>i. \<not> narrowed_out [] (rs_resources sample_consent ! i) \<and> asks (pr_decision (rs_resources sample_consent ! i)))
      [0..<length (rs_resources sample_consent)] = [2]" by code_simp
  then show ?thesis using r prepare_offers [OF r, of None] by auto
qed

end
