(* ===== verification/Server.thy ===== *)
theory Server
  imports Protocol Resolver_Props Consent
begin

text \<open>
  The daemon's request handler and connection loop, \<open>murl-daemon/src/server.rs\<close>. The
  handler is transport-free: a request and the daemon's state give the responses and
  the new state. A panic is the response \<open>None\<close>. The state holds what outlives a
  request: the manifest cache, the counter of activations, the log of what the
  dispatcher did and the requests shown to the user so far.

  The factory that lends a resolver and the consent surface are functions of the
  state: they may answer differently every time.
\<close>

section \<open>Context and state\<close>

record daemon_state =
  ds_cache :: fs
  ds_activations :: "64 word"
  ds_effects :: "effect list"
  ds_asked :: "consent_request list"

record daemon_context =
  dc_ext :: ext
  dc_lend :: "daemon_state \<Rightarrow> error + resolver"
  dc_policy :: policy
  dc_opener :: opener_config
  dc_launcher :: launcher
  dc_consent :: "consent_request list \<Rightarrow> consent_request \<Rightarrow> nat list"
  dc_limits :: limits
  dc_started_at :: "64 word"
  dc_socket :: string
  dc_version :: string

type_synonym handled = "response list option \<times> daemon_state"

section \<open>Requests\<close>

text \<open>Resolution and policy, shared by both handlers: the outer \<open>None\<close> is a panic.\<close>

definition resolve_with_policy ::
  "daemon_context \<Rightarrow> resolver \<Rightarrow> murl \<Rightarrow> daemon_state \<Rightarrow> (error + resolution) option \<times> daemon_state"
where
  "resolve_with_policy ctx v m s =
     (case resolve v (ds_cache s) m of
        (res, rs) \<Rightarrow>
          (let s' = s\<lparr> ds_cache := st_cache rs \<rparr> in
           case res of
             Inl Panic \<Rightarrow> (None, s')
           | Inl (Err e) \<Rightarrow> (Some (Inl e), s')
           | Inr r \<Rightarrow> (map_option Inr (apply_policy (dc_policy ctx) r), s')))"

definition resolve_plan :: "daemon_context \<Rightarrow> string \<Rightarrow> daemon_state \<Rightarrow> handled" where
  "resolve_plan ctx u s =
     (case murl_parse u of
        Inl e \<Rightarrow> (Some [RError ''parse'' (murl_error_display e)], s)
      | Inr m \<Rightarrow>
          (case dc_lend ctx s of
             Inl e \<Rightarrow> (Some [RError ''resolve'' (error_display e)], s)
           | Inr v \<Rightarrow>
               (case resolve_with_policy ctx v m s of
                  (None, s1) \<Rightarrow> (None, s1)
                | (Some (Inl e), s1) \<Rightarrow> (Some [RError ''resolve'' (error_display e)], s1)
                | (Some (Inr r), s1) \<Rightarrow> (Some [RPlan (resolution_json r)], s1))))"

text \<open>The ids of the resources whose approval satisfies a predicate.\<close>

definition ids_where :: "(approval \<Rightarrow> bool) \<Rightarrow> resolution \<Rightarrow> approval list \<Rightarrow> string list" where
  "ids_where P r approvals =
     map (\<lambda>(pr, _). rd_id (pr_resource pr)) (filter (\<lambda>(_, a). P a) (zip (rs_resources r) approvals))"

fun is_denied :: "approval \<Rightarrow> bool" where
  "is_denied (Denied _) = True"
| "is_denied _ = False"

definition consent_and_execute :: "daemon_context \<Rightarrow> string list \<Rightarrow> resolution \<Rightarrow> daemon_state \<Rightarrow> handled" where
  "consent_and_execute ctx only r s =
     (case prepare r only of
        None \<Rightarrow> (None, s)
      | Some (request, slots) \<Rightarrow>
          (let granted = dc_consent ctx (ds_asked s) request;
               approvals = apply_grants slots granted;
               s1 = s\<lparr> ds_asked := ds_asked s @ [request] \<rparr>;
               shown = [RPlan (resolution_json r),
                        RConsent (ids_where (\<lambda>a. a = Approved) r approvals) (ids_where is_denied r approvals)]
           in
           case execute r approvals (dc_opener ctx) (dc_launcher ctx) (dc_limits ctx) (ds_effects s) of
             (Inl e, log) \<Rightarrow> (Some (shown @ [RError ''activate'' (error_display e)]), s1\<lparr> ds_effects := log \<rparr>)
           | (Inr report, log) \<Rightarrow>
               (Some (shown @ [ROutcome (report_json report)]),
                s1\<lparr> ds_effects := log, ds_activations := ds_activations s + 1 \<rparr>)))"

definition activate :: "daemon_context \<Rightarrow> string \<Rightarrow> string list \<Rightarrow> daemon_state \<Rightarrow> handled" where
  "activate ctx u only s =
     (case murl_parse u of
        Inl e \<Rightarrow> (Some [RError ''parse'' (murl_error_display e)], s)
      | Inr m \<Rightarrow>
          (case dc_lend ctx s of
             Inl e \<Rightarrow> (Some [RError ''activate'' (error_display e)], s)
           | Inr v \<Rightarrow>
               (case resolve_with_policy ctx v m s of
                  (None, s1) \<Rightarrow> (None, s1)
                | (Some (Inl e), s1) \<Rightarrow> (Some [RError ''activate'' (error_display e)], s1)
                | (Some (Inr r), s1) \<Rightarrow> consent_and_execute ctx only r s1)))"

definition saturating_minus :: "'a::len word \<Rightarrow> 'a word \<Rightarrow> 'a word" where
  "saturating_minus a b = (if a < b then 0 else a - b)"

fun handle_request :: "daemon_context \<Rightarrow> wire_request \<Rightarrow> 64 word \<Rightarrow> daemon_state \<Rightarrow> handled" where
  "handle_request ctx (Ping _) now s = (Some [RPong PROTOCOL_VERSION (dc_version ctx)], s)"
| "handle_request ctx (StatusReq _) now s =
     (Some [RStatus (dc_version ctx) (saturating_minus now (dc_started_at ctx)) (ds_activations s) (dc_socket ctx)], s)"
| "handle_request ctx (ResolveReq _ u) now s = resolve_plan ctx u s"
| "handle_request ctx (Activate _ u only) now s = activate ctx u only s"

section \<open>A connection\<close>

text \<open>\<open>BufRead::read_line\<close>, repeated: the bytes up to and including each line feed.\<close>

fun read_lines :: "bytes \<Rightarrow> bytes list" where
  "read_lines [] = []"
| "read_lines (c # s) =
     (if c = LF then [c] # read_lines s
      else case read_lines s of [] \<Rightarrow> [[c]] | l # ls \<Rightarrow> (c # l) # ls)"

datatype served = Closed | BadUtf8 | Panicked

definition line_break :: "char \<Rightarrow> bool" where
  "line_break c \<longleftrightarrow> c = CHR 0x0D \<or> c = LF"

definition answer_line :: "daemon_context \<Rightarrow> 64 word \<Rightarrow> string \<Rightarrow> daemon_state \<Rightarrow> handled" where
  "answer_line ctx now line s =
     (case parse_request (dc_ext ctx) line of
        Inr request \<Rightarrow> handle_request ctx request now s
      | Inl e \<Rightarrow> (Some [e], s))"

text \<open>The loop: \<open>n\<close> is how many requests may still be served. What is written to the peer
  is the list of lines.\<close>

fun serve_lines ::
  "daemon_context \<Rightarrow> 64 word \<Rightarrow> nat \<Rightarrow> bytes list \<Rightarrow> daemon_state \<Rightarrow> served \<times> string list \<times> daemon_state"
where
  "serve_lines ctx now 0 lines s = (Closed, [], s)"
| "serve_lines ctx now (Suc n) [] s = (Closed, [], s)"
| "serve_lines ctx now (Suc n) (l # ls) s =
     (if utf8_decode l = None then (BadUtf8, [], s)
      else
        let trimmed = trim_end_matches line_break l in
        if trimmed = [] then serve_lines ctx now (Suc n) ls s
        else
          (case answer_line ctx now trimmed s of
             (None, s1) \<Rightarrow> (Panicked, [], s1)
           | (Some rs, s1) \<Rightarrow>
               (case serve_lines ctx now n ls s1 of
                  (out, sent, s2) \<Rightarrow> (out, map (to_line (dc_ext ctx)) rs @ sent, s2))))"

text \<open>The reader is cut off after the budget of the whole connection.\<close>

definition connection_budget :: "nat \<Rightarrow> nat" where
  "connection_budget max_requests = min ((MAX_LINE_BYTES + 1) * max_requests) (2 ^ 64 - 1)"

definition serve_connection ::
  "daemon_context \<Rightarrow> bytes \<Rightarrow> 64 word \<Rightarrow> nat \<Rightarrow> daemon_state \<Rightarrow> served \<times> string list \<times> daemon_state"
where
  "serve_connection ctx input now max_requests s =
     serve_lines ctx now max_requests (read_lines (take (connection_budget max_requests) input)) s"

section \<open>From the request to the launch\<close>

text \<open>Resource \<open>i\<close> of the decided plan \<open>r\<close> may run: it is approvable with what the surface
  answers, and a dangerous one comes from a trusted manifest when the policy asks
  for that.\<close>

definition may_run :: "daemon_context \<Rightarrow> string list \<Rightarrow> daemon_state \<Rightarrow> resolution \<Rightarrow> nat \<Rightarrow> bool" where
  "may_run ctx only s r i =
     (let pr = rs_resources r ! i in
      approvable (narrowed_out only pr) (daemon_agreed (only, dc_consent ctx (ds_asked s)) r i) pr
      \<and> (if pr_tier pr = Dangerous \<and> po_dangerous_requires_trust (dc_policy ctx)
         then is_trusted_status (rn_trust (rs_nodes r ! pr_node pr)) else True))"

lemma map_filter_restrict:
  "(\<And>x. x \<in> set xs \<Longrightarrow> P x \<Longrightarrow> Q x) \<Longrightarrow>
   subseq (List.map_filter (\<lambda>x. if P x then f x else None) xs) (List.map_filter (\<lambda>x. if Q x then f x else None) xs)"
proof (induction xs)
  case (Cons x xs)
  then have IH: "subseq (List.map_filter (\<lambda>x. if P x then f x else None) xs) (List.map_filter (\<lambda>x. if Q x then f x else None) xs)"
    by simp
  show ?case
  proof (cases "P x")
    case True
    then have "Q x" using Cons.prems by simp
    then show ?thesis using IH True by (cases "f x") (simp_all add: map_filter_simps)
  next
    case False
    then show ?thesis using IH by (cases "Q x"; cases "f x") (simp_all add: map_filter_simps list_emb_Cons)
  qed
qed (simp add: map_filter_simps)

lemma prepare_total: "rs_nodes r \<noteq> [] \<Longrightarrow> \<exists>req slots. prepare r only = Some (req, slots)"
  by (cases "prepare_loop only 0 (rs_resources r)") (auto simp: prepare_def root_node_def nth_opt_def)

lemma consent_and_execute_outcome:
  assumes "rs_nodes r \<noteq> []"
  shows "\<exists>req g d rep new.
    consent_and_execute ctx only r s = (Some [RPlan (resolution_json r), RConsent g d, ROutcome rep],
      s\<lparr> ds_asked := ds_asked s @ [req], ds_effects := ds_effects s @ new, ds_activations := ds_activations s + 1 \<rparr>)
    \<and> subseq (calls new) (consented_calls (dc_opener ctx) r (\<lambda>i. approvable (narrowed_out only (rs_resources r ! i))
         (daemon_agreed (only, dc_consent ctx (ds_asked s)) r i) (rs_resources r ! i)))"
proof -
  obtain req slots where p: "prepare r only = Some (req, slots)" using prepare_total [OF assms] by blast
  let ?a = "apply_grants slots (dc_consent ctx (ds_asked s) req)"
  have "daemon_consent (only, dc_consent ctx (ds_asked s)) r = Some ?a" by (simp add: daemon_consent_def p)
  from daemon.consented_only [OF this, of "dc_opener ctx" "dc_launcher ctx" "dc_limits ctx" "ds_effects s"]
  obtain rep new where "execute r ?a (dc_opener ctx) (dc_launcher ctx) (dc_limits ctx) (ds_effects s) = (Inr rep, ds_effects s @ new)"
    "subseq (calls new) (consented_calls (dc_opener ctx) r (\<lambda>i. approvable (narrowed_out only (rs_resources r ! i))
         (daemon_agreed (only, dc_consent ctx (ds_asked s)) r i) (rs_resources r ! i)))" by auto
  then show ?thesis by (auto simp: consent_and_execute_def p Let_def)
qed

text \<open>A decided plan approves no dangerous resource without the trust the policy wants.\<close>

lemma approvable_may_run:
  assumes "resolution_ok v r0" "apply_policy (dc_policy ctx) r0 = Some r" "i < length (rs_resources r)"
    and "approvable (narrowed_out only (rs_resources r ! i)) (daemon_agreed (only, dc_consent ctx (ds_asked s)) r i) (rs_resources r ! i)"
  shows "may_run ctx only s r i"
proof -
  have r: "r = r0\<lparr> rs_resources := map (\<lambda>pr. pr\<lparr> pr_decision :=
      Some (evaluate (dc_policy ctx) (pr_kind pr) (pr_tier pr) (node_context (rs_nodes r0 ! pr_node pr))) \<rparr>) (rs_resources r0) \<rparr>"
    using policy_total [OF assms(1), of "dc_policy ctx"] assms(2) by simp
  define pr where "pr = rs_resources r ! i"
  have d: "pr_decision pr = Some (evaluate (dc_policy ctx) (pr_kind pr) (pr_tier pr) (node_context (rs_nodes r ! pr_node pr)))"
    using assms(3) unfolding pr_def by (subst (1 2 3 4 5) r) (simp add: r)
  show ?thesis
  proof (cases "pr_tier pr = Dangerous \<and> po_dangerous_requires_trust (dc_policy ctx)")
    case True
    have "is_trusted_status (rn_trust (rs_nodes r ! pr_node pr))"
    proof (rule ccontr)
      assume "\<not> is_trusted_status (rn_trust (rs_nodes r ! pr_node pr))"
      then obtain reason where "pr_decision pr = Some (Deny reason)"
        using evaluate_untrusted [of "dc_policy ctx" "rs_nodes r ! pr_node pr" "pr_kind pr"] d True by auto
      then show False using assms(4) by (simp add: approvable_def pr_def)
    qed
    then show ?thesis using assms(4) by (simp add: may_run_def Let_def pr_def)
  qed (use assms(4) in \<open>auto simp: may_run_def Let_def pr_def\<close>)
qed

lemma resolve_with_policy_total:
  "\<exists>out s1. resolve_with_policy ctx v m s = (Some out, s1) \<and> ds_effects s1 = ds_effects s \<and> ds_asked s1 = ds_asked s
     \<and> ds_activations s1 = ds_activations s
     \<and> (\<forall>r. out = Inr r \<longrightarrow> (\<exists>r0 st. resolve v (ds_cache s) m = (Inr r0, st) \<and> resolution_ok v r0 \<and> rs_nodes r \<noteq> []
          \<and> apply_policy (dc_policy ctx) r0 = Some r))"
proof (cases "resolve v (ds_cache s) m")
  case (Pair res st)
  show ?thesis
  proof (cases res)
    case (Inl e)
    then show ?thesis using resolve_no_panic [of v "ds_cache s" m] Pair by (cases e) (simp_all add: resolve_with_policy_def)
  next
    case (Inr r0)
    then have "resolution_ok v r0" "rs_nodes r0 \<noteq> []" using resolve_success [of v "ds_cache s" m r0 st] Pair by simp_all
    then show ?thesis using Pair Inr by (simp add: resolve_with_policy_def policy_total [of v r0])
  qed
qed

lemma activate_outcome:
  "\<exists>rs new. fst (activate ctx u only s) = Some rs \<and> ds_effects (snd (activate ctx u only s)) = ds_effects s @ new
   \<and> ((\<exists>st msg. rs = [RError st msg]) \<and> new = [] \<and> ds_asked (snd (activate ctx u only s)) = ds_asked s
         \<and> ds_activations (snd (activate ctx u only s)) = ds_activations s
      \<or> (\<exists>m v r0 st r g d rep req. murl_parse u = Inr m \<and> dc_lend ctx s = Inr v
           \<and> resolve v (ds_cache s) m = (Inr r0, st) \<and> resolution_ok v r0 \<and> apply_policy (dc_policy ctx) r0 = Some r
           \<and> rs = [RPlan (resolution_json r), RConsent g d, ROutcome rep]
           \<and> ds_asked (snd (activate ctx u only s)) = ds_asked s @ [req]
           \<and> ds_activations (snd (activate ctx u only s)) = ds_activations s + 1
           \<and> subseq (calls new) (consented_calls (dc_opener ctx) r (may_run ctx only s r))))"
proof (cases "murl_parse u")
  case (Inl e)
  then show ?thesis by (simp add: activate_def)
next
  case (Inr m)
  show ?thesis
  proof (cases "dc_lend ctx s")
    case (Inl e)
    then show ?thesis using \<open>murl_parse u = Inr m\<close> by (simp add: activate_def)
  next
    case (Inr v)
    obtain out s1 where R: "resolve_with_policy ctx v m s = (Some out, s1)"
      "ds_effects s1 = ds_effects s" "ds_asked s1 = ds_asked s" "ds_activations s1 = ds_activations s"
      "\<And>r. out = Inr r \<Longrightarrow> \<exists>r0 st. resolve v (ds_cache s) m = (Inr r0, st) \<and> resolution_ok v r0 \<and> rs_nodes r \<noteq> []
          \<and> apply_policy (dc_policy ctx) r0 = Some r"
      using resolve_with_policy_total [of ctx v m s] by blast
    note a = activate_def \<open>murl_parse u = Inr m\<close> Inr R(1)
    show ?thesis
    proof (cases out)
      case (Inl e)
      then show ?thesis using R(2-4) by (simp add: a)
    next
      case (Inr r)
      then obtain r0 st where r: "resolve v (ds_cache s) m = (Inr r0, st)" "resolution_ok v r0" "rs_nodes r \<noteq> []"
        "apply_policy (dc_policy ctx) r0 = Some r" using R(5) by blast
      from consent_and_execute_outcome [OF r(3), of ctx only s1] obtain req g d rep new where
        c: "consent_and_execute ctx only r s1 = (Some [RPlan (resolution_json r), RConsent g d, ROutcome rep],
          s1\<lparr> ds_asked := ds_asked s1 @ [req], ds_effects := ds_effects s1 @ new, ds_activations := ds_activations s1 + 1 \<rparr>)"
        "subseq (calls new) (consented_calls (dc_opener ctx) r (\<lambda>i. approvable (narrowed_out only (rs_resources r ! i))
           (daemon_agreed (only, dc_consent ctx (ds_asked s1)) r i) (rs_resources r ! i)))" by blast
      have "subseq (calls new) (consented_calls (dc_opener ctx) r (may_run ctx only s r))"
        using c(2) unfolding R(3) consented_calls_def
        by (rule subseq_order.trans) (auto intro!: map_filter_restrict approvable_may_run [OF r(2,4)])
      then show ?thesis using c(1) r R(2-4) Inr by (simp add: a)
    qed
  qed
qed

lemma resolve_plan_outcome:
  "\<exists>r. fst (resolve_plan ctx u s) = Some [r] \<and> ds_effects (snd (resolve_plan ctx u s)) = ds_effects s
    \<and> ds_asked (snd (resolve_plan ctx u s)) = ds_asked s \<and> ds_activations (snd (resolve_plan ctx u s)) = ds_activations s"
proof (cases "murl_parse u")
  case (Inr m)
  show ?thesis
  proof (cases "dc_lend ctx s")
    case (Inr v)
    obtain out s1 where "resolve_with_policy ctx v m s = (Some out, s1)"
      "ds_effects s1 = ds_effects s" "ds_asked s1 = ds_asked s" "ds_activations s1 = ds_activations s"
      using resolve_with_policy_total [of ctx v m s] by blast
    then show ?thesis using \<open>murl_parse u = Inr m\<close> Inr by (simp add: resolve_plan_def split: sum.split)
  qed (simp add: resolve_plan_def Inr)
qed (simp add: resolve_plan_def)

text \<open>
  C6: the life of an activation. The handler never panics and nobody can skip a step:
  either it answers with a single error and no process was started, no dialog shown and
  nothing counted; or the name parsed, resolved within the limits and was decided by
  the daemon's policy, the answer is the plan, the consent and the outcome in this
  order, exactly one dialog was shown, and every process started belongs, in plan order
  and at most once, to a resource the client did not narrow out, that the policy allows
  silently or asks about and this dialog granted, and that is not a dangerous one of
  an untrusted manifest when the policy requires trust.
\<close>

theorem activate_end_to_end:
  "\<exists>rs new. fst (activate ctx u only s) = Some rs \<and> ds_effects (snd (activate ctx u only s)) = ds_effects s @ new
   \<and> ((\<exists>st msg. rs = [RError st msg]) \<and> new = [] \<and> ds_asked (snd (activate ctx u only s)) = ds_asked s
         \<and> ds_activations (snd (activate ctx u only s)) = ds_activations s
      \<or> (\<exists>m v r0 st r g d rep req. murl_parse u = Inr m \<and> dc_lend ctx s = Inr v
           \<and> resolve v (ds_cache s) m = (Inr r0, st) \<and> resolution_ok v r0 \<and> apply_policy (dc_policy ctx) r0 = Some r
           \<and> rs = [RPlan (resolution_json r), RConsent g d, ROutcome rep]
           \<and> ds_asked (snd (activate ctx u only s)) = ds_asked s @ [req]
           \<and> ds_activations (snd (activate ctx u only s)) = ds_activations s + 1
           \<and> subseq (calls new) (consented_calls (dc_opener ctx) r (may_run ctx only s r))))"
  by (rule activate_outcome)

text \<open>
  C22: only an activation acts. Ping, status and resolve never panic, give exactly one
  response, start nothing, show nothing and count nothing.
\<close>

theorem only_activate_acts:
  assumes "request_name req \<noteq> ''activate''"
  shows "\<exists>r. fst (handle_request ctx req now s) = Some [r]
    \<and> ds_effects (snd (handle_request ctx req now s)) = ds_effects s
    \<and> ds_asked (snd (handle_request ctx req now s)) = ds_asked s
    \<and> ds_activations (snd (handle_request ctx req now s)) = ds_activations s"
  using assms resolve_plan_outcome [of ctx _ s] by (cases req) simp_all

definition sample_context :: daemon_context where
  "sample_context = \<lparr> dc_ext = toy_ext, dc_lend = (\<lambda>_. Inr sample_resolver), dc_policy = default_policy,
     dc_opener = sample_opener, dc_launcher = sample_launcher, dc_consent = (\<lambda>_. grant_all), dc_limits = default_limits,
     dc_started_at = 5, dc_socket = ''s'', dc_version = ''0.3.0'' \<rparr>"

definition sample_daemon :: daemon_state where
  "sample_daemon = \<lparr> ds_cache = [], ds_activations = 0, ds_effects = [], ds_asked = [] \<rparr>"

theorem only_activate_acts_witness:
  "\<exists>r. fst (handle_request sample_context (ResolveReq 1 ''murl://local/root'') 7 sample_daemon) = Some [r]
    \<and> ds_effects (snd (handle_request sample_context (ResolveReq 1 ''murl://local/root'') 7 sample_daemon)) = []"
  using only_activate_acts [of "ResolveReq 1 ''murl://local/root''" sample_context 7 sample_daemon]
  by (auto simp: sample_daemon_def)

text \<open>What \<open>k\<close> activations leave behind: the counter wraps at 64 bits, the log only grows.\<close>

definition advanced :: "nat \<Rightarrow> daemon_state \<Rightarrow> daemon_state \<Rightarrow> bool" where
  "advanced k s t \<longleftrightarrow> ds_activations t = ds_activations s + of_nat k \<and> length (ds_asked t) = length (ds_asked s) + k
     \<and> (\<exists>new. ds_effects t = ds_effects s @ new)"

lemma advanced_refl [simp]: "advanced 0 s s"
  by (simp add: advanced_def)

lemma advanced_trans: "advanced j s t \<Longrightarrow> advanced k t u \<Longrightarrow> advanced (j + k) s u"
  by (auto simp: advanced_def)

lemma activate_advanced: "\<exists>rs k. fst (activate ctx u only s) = Some rs \<and> rs \<noteq> [] \<and> k \<le> 1 \<and> advanced k s (snd (activate ctx u only s))"
proof -
  consider "\<exists>st msg. fst (activate ctx u only s) = Some [RError st msg]" "advanced 0 s (snd (activate ctx u only s))"
    | "\<exists>a b c. fst (activate ctx u only s) = Some [a, b, c]" "advanced 1 s (snd (activate ctx u only s))"
    using activate_outcome [of ctx u only s] by (fastforce simp: advanced_def)
  then show ?thesis by cases auto
qed

lemma handle_advanced:
  "\<exists>rs k. fst (handle_request ctx req now s) = Some rs \<and> rs \<noteq> [] \<and> k \<le> 1 \<and> advanced k s (snd (handle_request ctx req now s))"
proof (cases req)
  case (ResolveReq p u)
  have "advanced 0 s (snd (resolve_plan ctx u s))" using resolve_plan_outcome [of ctx u s] by (simp add: advanced_def)
  then show ?thesis using resolve_plan_outcome [of ctx u s] by (auto simp: ResolveReq)
next
  case (Activate p u only)
  then show ?thesis using activate_advanced [of ctx u only s] by simp
qed auto

lemma answer_line_step:
  "\<exists>rs s1 k. answer_line ctx now line s = (Some rs, s1) \<and> rs \<noteq> [] \<and> k \<le> 1 \<and> advanced k s s1"
proof (cases "parse_request (dc_ext ctx) line")
  case (Inl e)
  then show ?thesis by (auto simp: answer_line_def intro: exI [of _ 0])
next
  case (Inr req)
  then show ?thesis using handle_advanced [of ctx req now s]
    by (cases "handle_request ctx req now s") (auto simp: answer_line_def)
qed

lemma serve_lines_bounded:
  "\<exists>out sent t k. serve_lines ctx now n lines s = (out, sent, t) \<and> out \<noteq> Panicked \<and> k \<le> n \<and> advanced k s t
     \<and> set sent \<subseteq> range (to_line (dc_ext ctx))"
proof (induction ctx now n lines s rule: serve_lines.induct)
  case (3 ctx now n l ls s)
  let ?t = "trim_end_matches line_break l"
  consider "utf8_decode l = None" | cs where "utf8_decode l = Some cs" "?t = []" | cs where "utf8_decode l = Some cs" "?t \<noteq> []"
    by (cases "utf8_decode l") auto
  then show ?case
  proof cases
    case 1
    then show ?thesis by (auto intro: exI [of _ 0])
  next
    case 2
    then show ?thesis using 3(1) [OF _ refl] by simp
  next
    case c: 3
    from answer_line_step [of ctx now ?t s] obtain rs s1 j where a: "answer_line ctx now ?t s = (Some rs, s1)" "j \<le> 1" "advanced j s s1"
      by blast
    have "utf8_decode l \<noteq> None" using c by simp
    from 3(2) [OF this refl c(2) a(1) [symmetric] refl] obtain out sent t k where
      r: "serve_lines ctx now n ls s1 = (out, sent, t)" "out \<noteq> Panicked" "k \<le> n" "advanced k s1 t"
      "set sent \<subseteq> range (to_line (dc_ext ctx))" by blast
    have "j + k \<le> Suc n" "advanced (j + k) s t" using a r advanced_trans by auto
    then show ?thesis using c a(1) r by (auto simp: Let_def)
  qed
qed auto

text \<open>
  C23: a connection is bounded, whatever the peer sends. Serving it terminates, never
  panics, runs at most \<open>max_requests\<close> activations, each with one dialog of its own,
  counted modulo 2 to the 64, reads no more than the budget, and writes nothing but
  response lines.
\<close>

theorem connection_bounded:
  "\<exists>out sent t k. serve_connection ctx input now max_requests s = (out, sent, t) \<and> out \<noteq> Panicked
     \<and> k \<le> max_requests \<and> advanced k s t \<and> set sent \<subseteq> range (to_line (dc_ext ctx))
     \<and> serve_connection ctx (take (connection_budget max_requests) input) now max_requests s = (out, sent, t)"
  unfolding serve_connection_def take_take min.idem
  using serve_lines_bounded [of ctx now max_requests _ s] by blast

section \<open>The line cap\<close>

lemma read_lines_line: "LF \<notin> set l \<Longrightarrow> read_lines (l @ LF # rest) = (l @ [LF]) # read_lines rest"
  by (induction l) auto

lemma utf8_plain: "list_all (\<lambda>c. byte c < 0x80) l \<Longrightarrow> utf8_decode l \<noteq> None"
  by (induction l) (simp_all add: utf8_decode.simps(2))

text \<open>The protocol says the cap on a line is enforced while reading. The reader is bounded by
  the budget of the whole connection only: a line of any length within it is read to its
  end, refused, and the next request is served.\<close>

lemma overlong_line_is_read:
  assumes "MAX_LINE_BYTES < n" "n + 1 + length rest \<le> connection_budget (Suc k)"
  shows "\<exists>msg. serve_connection ctx (replicate n CHR ''x'' @ LF # rest) now (Suc k) s
    = (let (out, sent, t) = serve_lines ctx now k (read_lines rest) s
       in (out, to_line (dc_ext ctx) (protocol_error msg) # sent, t))"
proof -
  let ?l = "replicate n CHR ''x''"
  have t: "take (connection_budget (Suc k)) (?l @ LF # rest) = ?l @ LF # rest" using assms(2) by simp
  have n: "n \<noteq> 0" "LF \<noteq> CHR ''x''" using assms(1) by (auto simp: LF_def)
  have trim: "trim_end_matches line_break (?l @ [LF]) = ?l"
  proof -
    have "dropWhile line_break (replicate n CHR ''x'') = replicate n CHR ''x''"
      using n by (cases n) (simp_all add: line_break_def)
    then show ?thesis by (simp add: trim_end_matches_def line_break_def)
  qed
  have "byte LF < 0x80" "byte CHR ''x'' < 0x80" by (simp_all add: LF_def)
  then have u: "utf8_decode (?l @ [LF]) \<noteq> None" by (intro utf8_plain) (simp add: list_all_iff)
  have a: "\<exists>msg. answer_line ctx now ?l s = (Some [protocol_error msg], s)"
    using assms(1) by (auto simp: answer_line_def parse_request_def)
  have r: "read_lines (?l @ LF # rest) = (?l @ [LF]) # read_lines rest" using n by (intro read_lines_line) simp
  show ?thesis
    unfolding serve_connection_def t r using a u n by (auto simp: trim Let_def split: prod.split)
qed

end
