(* ===== verification/Dialog.thy ===== *)
theory Dialog
  imports Consent
begin

text \<open>
  The desktop consent dialog, \<open>murl-daemon/src/dialog_ui.rs\<close>: the argument vectors of
  the three helpers, the wait for the one that was started, and the reading of what it
  printed. Spawning a process is a parameter; the process is what polling it returns,
  what the clock says after each poll, and what its output reader delivers.
\<close>

section \<open>Choosing a helper\<close>

datatype backend = Zenity | Kdialog | Osascript

fun backend_program :: "backend \<Rightarrow> string" where
  "backend_program Zenity = ''zenity''"
| "backend_program Kdialog = ''kdialog''"
| "backend_program Osascript = ''osascript''"

text \<open>\<open>which\<close>: the first directory of PATH that holds an executable file of that name;
  \<open>runnable\<close> says whether a path is one.\<close>

definition which :: "(string \<Rightarrow> bool) \<Rightarrow> string list option \<Rightarrow> string \<Rightarrow> string option" where
  "which runnable dirs program =
     (case dirs of None \<Rightarrow> None | Some ds \<Rightarrow> find runnable (map (\<lambda>d. path_push d program) ds))"

fun first_backend :: "(string \<Rightarrow> string option) \<Rightarrow> backend list \<Rightarrow> (backend \<times> string) option" where
  "first_backend w [] = None"
| "first_backend w (b # bs) =
     (case w (backend_program b) of Some p \<Rightarrow> Some (b, p) | None \<Rightarrow> first_backend w bs)"

definition set_var :: "string option \<Rightarrow> bool" where
  "set_var v = (case v of None \<Rightarrow> False | Some s \<Rightarrow> s \<noteq> [])"

definition detect :: "bool \<Rightarrow> string option \<Rightarrow> string option \<Rightarrow> (string \<Rightarrow> string option) \<Rightarrow> (backend \<times> string) option" where
  "detect macos display wayland w =
     (if \<not> (macos \<or> set_var display \<or> set_var wayland) then None
      else first_backend w (if macos then [Osascript, Zenity, Kdialog] else [Zenity, Kdialog]))"

section \<open>What is shown\<close>

definition MAX_DISPLAY :: nat where
  "MAX_DISPLAY = 96"

text \<open>The characters of a string, each as its bytes.\<close>

function char_encodings :: "string \<Rightarrow> string list" where
  "char_encodings [] = []"
| "char_encodings (c # s) = (c # takeWhile is_cont s) # char_encodings (dropWhile is_cont s)"
  by pat_completeness auto
termination by (relation "measure length") (auto simp: le_imp_less_Suc length_dropWhile_le)

definition clip :: "string \<Rightarrow> string" where
  "clip s =
     (let cs = filter (\<lambda>e. \<not> has_control e) (char_encodings s) in
      if length cs \<le> MAX_DISPLAY then concat cs else concat (take (MAX_DISPLAY - 1) cs) @ ellipsis)"

definition middle_dot :: string where
  "middle_dot = [CHR 0xC2, CHR 0xB7]"

definition em_dash :: string where
  "em_dash = [CHR 0xE2, CHR 0x80, CHR 0x94]"

definition header :: "consent_request \<Rightarrow> string" where
  "header req =
     clip (cr_name req) @ '' wants to open:''
     @ (case cr_identity req of None \<Rightarrow> [] | Some i \<Rightarrow> CHR 0x0A # clip i)
     @ CHR 0x0A # ''from '' @ clip (cr_origin req) @ '' '' @ middle_dot @ '' trust: '' @ cr_trust req
     @ (if cr_denied req = [] then []
        else [CHR 0x0A, CHR 0x0A] @ dec_of_nat (length (cr_denied req))
          @ '' resource(s) were refused by policy and cannot be approved here.'')"

definition zenity_row :: "consent_item \<Rightarrow> string list" where
  "zenity_row i = [''FALSE'', ci_id i, tier_display (ci_tier i), clip (ci_target i)]"

definition zenity_argv :: "consent_request \<Rightarrow> string list" where
  "zenity_argv req =
     [''--list'', ''--checklist'', ''--title=mURL'', ''--text='' @ header req, ''--column=Open'', ''--column=Resource'',
      ''--column=Risk'', ''--column=Target'', ''--print-column=2'', ''--separator='' @ [CHR 0x0A], ''--width=760'', ''--height=460'']
     @ concat (map zenity_row (cr_items req))"

definition kdialog_row :: "consent_item \<Rightarrow> string list" where
  "kdialog_row i =
     [ci_id i, ci_id i @ '' '' @ em_dash @ '' '' @ tier_display (ci_tier i) @ '' '' @ em_dash @ '' '' @ clip (ci_target i), ''off'']"

definition kdialog_argv :: "consent_request \<Rightarrow> string list" where
  "kdialog_argv req =
     [''--title'', ''mURL'', ''--separate-output'', ''--checklist'', header req] @ concat (map kdialog_row (cr_items req))"

definition osascript_row :: "consent_item \<Rightarrow> string" where
  "osascript_row i =
     ci_id i @ ''  '' @ middle_dot @ ''  '' @ tier_display (ci_tier i) @ ''  '' @ middle_dot @ ''  '' @ clip (ci_target i)"

definition OSASCRIPT_SOURCE :: string where
  "OSASCRIPT_SOURCE = join [CHR 0x0A]
     [''on run argv'',
      ''    set prompt to item 1 of argv'',
      ''    set choices to {}'',
      ''    repeat with i from 2 to count of argv'',
      ''        set end of choices to item i of argv'',
      ''    end repeat'',
      ''    if (count of choices) is 0 then return '' @ [CHR 0x22, CHR 0x22],
      ''    set picked to choose from list choices with prompt prompt with title '' @ [CHR 0x22] @ ''mURL'' @ [CHR 0x22]
        @ '' with multiple selections allowed'',
      ''    if picked is false then return '' @ [CHR 0x22, CHR 0x22],
      ''    set out to '' @ [CHR 0x22, CHR 0x22],
      ''    repeat with p in picked'',
      ''        set out to out & (p as text) & linefeed'',
      ''    end repeat'',
      ''    return out'',
      ''end run'']"

definition osascript_argv :: "consent_request \<Rightarrow> string list" where
  "osascript_argv req = [''-e'', OSASCRIPT_SOURCE, header req] @ map osascript_row (cr_items req)"

fun dialog_argv :: "backend \<Rightarrow> consent_request \<Rightarrow> string list" where
  "dialog_argv Zenity req = zenity_argv req"
| "dialog_argv Kdialog req = kdialog_argv req"
| "dialog_argv Osascript req = osascript_argv req"

section \<open>Running a helper\<close>

definition DIALOG_TIMEOUT :: nat where
  "DIALOG_TIMEOUT = 180"

datatype poll = Exited bool | Running | PollFailed string

text \<open>A started process: the \<open>k\<close>-th \<open>try_wait\<close>, the milliseconds since the start when the
  clock is read after it, and what the reader sends within five seconds of the exit, if
  anything.\<close>

record child =
  ch_poll :: "nat \<Rightarrow> poll"
  ch_clock :: "nat \<Rightarrow> nat"
  ch_output :: "(string + string) option"

definition child_text :: "child \<Rightarrow> bool \<Rightarrow> string + string" where
  "child_text c ok =
     (case ch_output c of
        None \<Rightarrow> Inl ''dialog output was never readable''
      | Some (Inl e) \<Rightarrow> Inl (''reading dialog output: '' @ e)
      | Some (Inr text) \<Rightarrow> if ok then Inr text else Inl ''dialog was cancelled'')"

text \<open>The polling loop. The boolean says whether the process was killed; \<open>None\<close> is a loop
  that never ends.\<close>

partial_function (option) wait_child :: "child \<Rightarrow> nat \<Rightarrow> nat \<Rightarrow> ((string + string) \<times> bool) option" where
  "wait_child c secs k =
     (case ch_poll c k of
        Exited ok \<Rightarrow> Some (child_text c ok, False)
      | PollFailed e \<Rightarrow> Some (Inl (''waiting for dialog: '' @ e), False)
      | Running \<Rightarrow>
          if 1000 * secs \<le> ch_clock c k then Some (Inl (''no answer within '' @ dec_of_nat secs @ ''s''), True)
          else wait_child c secs (k + 1))"

definition run_capturing :: "(string list \<Rightarrow> string + child) \<Rightarrow> string \<Rightarrow> string list \<Rightarrow> nat \<Rightarrow> ((string + string) \<times> bool) option" where
  "run_capturing spawn program argv secs =
     (case spawn argv of
        Inl e \<Rightarrow> Some (Inl (''cannot run '' @ program @ '': '' @ e), False)
      | Inr c \<Rightarrow> wait_child c secs 0)"

section \<open>What comes back\<close>

text \<open>\<open>str::lines\<close>: split at line feeds, drop a carriage return before one and an empty
  rest after the last.\<close>

definition str_lines :: "string \<Rightarrow> string list" where
  "str_lines s =
     (let parts = split_on CHR 0x0A s; ended = butlast parts; rest = last parts;
          chop = (\<lambda>l. if ends_with [CHR 0x0D] l then butlast l else l)
      in map chop ended @ (if rest = [] then [] else [rest]))"

definition trim_quotes :: "string \<Rightarrow> string" where
  "trim_quotes s = rev (dropWhile (\<lambda>c. c = CHR 0x22) (rev (dropWhile (\<lambda>c. c = CHR 0x22) s)))"

fun until_white :: "string \<Rightarrow> string" where
  "until_white [] = []"
| "until_white (c # s) = (case strip_any white_space (c # s) of Some _ \<Rightarrow> [] | None \<Rightarrow> c # until_white s)"

text \<open>\<open>split_whitespace().next().unwrap_or("")\<close>.\<close>

definition first_word :: "string \<Rightarrow> string" where
  "first_word s = until_white (strip_all (length s) white_space s)"

definition line_id :: "string \<Rightarrow> string" where
  "line_id l = first_word (trim_quotes (trim l))"

definition grant_line :: "consent_request \<Rightarrow> string \<Rightarrow> nat list \<Rightarrow> nat list" where
  "grant_line req l granted =
     (let i = line_id l in
      if i = [] then granted
      else case find (\<lambda>item. ci_id item = i) (cr_items req) of
        None \<Rightarrow> granted
      | Some item \<Rightarrow> if ci_index item \<in> set granted then granted else granted @ [ci_index item])"

definition granted_indices :: "string \<Rightarrow> consent_request \<Rightarrow> nat list" where
  "granted_indices out req = fold (grant_line req) (str_lines out) []"

definition dialog_ask :: "backend \<Rightarrow> (string list \<Rightarrow> string + string) \<Rightarrow> consent_request \<Rightarrow> nat list" where
  "dialog_ask b run req =
     (if cr_items req = [] then []
      else case run (dialog_argv b req) of Inl reason \<Rightarrow> [] | Inr out \<Rightarrow> granted_indices out req)"

text \<open>A consent request from the dialog's start to its answer.\<close>

definition dialog_session ::
  "backend \<Rightarrow> (string list \<Rightarrow> string + child) \<Rightarrow> string \<Rightarrow> nat \<Rightarrow> consent_request \<Rightarrow> nat list option" where
  "dialog_session b spawn program secs req =
     (if cr_items req = [] then Some []
      else map_option (\<lambda>(out, _). dialog_ask b (\<lambda>_. out) req) (run_capturing spawn program (dialog_argv b req) secs))"

section \<open>Properties\<close>

text \<open>The item a line grants: the first with that id.\<close>

definition picked :: "consent_request \<Rightarrow> string \<Rightarrow> nat option" where
  "picked req l =
     (if line_id l = [] then None else map_option ci_index (find (\<lambda>item. ci_id item = line_id l) (cr_items req)))"

lemma granted_fold:
  "distinct g \<Longrightarrow> distinct (fold (grant_line req) ls g)
     \<and> set (fold (grant_line req) ls g) = set g \<union> {i. \<exists>l\<in>set ls. picked req l = Some i}"
proof (induction ls arbitrary: g)
  case (Cons l ls)
  let ?g = "grant_line req l g"
  have d: "distinct ?g" using Cons.prems by (simp add: grant_line_def Let_def split: option.split)
  have s: "set ?g = set g \<union> {i. picked req l = Some i}"
    by (auto simp: grant_line_def picked_def Let_def split: option.split if_splits)
  show ?case using Cons.IH [OF d] by (auto simp: s)
qed simp

lemma granted_set:
  "distinct (granted_indices out req)"
  "set (granted_indices out req) = {i. \<exists>l\<in>set (str_lines out). picked req l = Some i}"
  using granted_fold [of "[]" req "str_lines out"] by (simp_all add: granted_indices_def)

lemma find_some_iff:
  "distinct (map f xs) \<Longrightarrow> find (\<lambda>x. f x = k) xs = Some x \<longleftrightarrow> x \<in> set xs \<and> f x = k"
  by (induction xs) (auto simp: image_iff)

text \<open>Identifier characters are no white space, at either end of an encoding.\<close>

definition id_char :: "char \<Rightarrow> bool" where
  "id_char c \<longleftrightarrow> is_lower c \<or> is_digit c \<or> c = CHR ''_'' \<or> c = CHR ''-''"

lemma white_ends:
  "list_all (\<lambda>w. w \<noteq> [] \<and> \<not> id_char (hd w)) white_space"
  "list_all (\<lambda>w. w \<noteq> [] \<and> \<not> id_char (hd w)) (map rev white_space)"
  by code_simp+

lemma strip_any_id:
  "list_all (\<lambda>w. w \<noteq> [] \<and> \<not> id_char (hd w)) ws \<Longrightarrow> id_char c \<Longrightarrow> strip_any ws (c # s) = None"
proof (induction ws)
  case (Cons w ws)
  then obtain d w' where "w = d # w'" "d \<noteq> c" by (cases w) auto
  then show ?case using Cons by simp
qed simp

lemma strip_all_id:
  "list_all (\<lambda>w. w \<noteq> [] \<and> \<not> id_char (hd w)) ws \<Longrightarrow> list_all id_char s \<Longrightarrow> strip_all n ws s = s"
proof (cases s)
  case Nil
  assume "list_all (\<lambda>w. w \<noteq> [] \<and> \<not> id_char (hd w)) ws"
  then have "strip_any ws [] = None"
  proof (induction ws)
    case (Cons w ws)
    then show ?case by (cases w) simp_all
  qed simp
  then show ?thesis by (cases n) (simp_all add: Nil)
next
  case (Cons c t)
  assume "list_all (\<lambda>w. w \<noteq> [] \<and> \<not> id_char (hd w)) ws" "list_all id_char s"
  then show ?thesis using strip_any_id [of ws c t] by (cases n) (simp_all add: Cons)
qed

lemma valid_id_chars: "is_valid_resource_id s \<Longrightarrow> s \<noteq> [] \<and> list_all id_char s"
  using resource_id_chars [of s] by (cases s) (auto simp: list_all_iff id_char_def lower_or_digit_def)

lemma line_id_id:
  assumes "list_all id_char s"
  shows "line_id s = s"
proof -
  have r: "list_all id_char (rev s)" using assms by (simp add: list_all_iff)
  have t: "trim s = s" using assms r white_ends by (simp add: trim_def Let_def strip_all_id)
  have q: "dropWhile (\<lambda>c. c = CHR 0x22) u = u" if "list_all id_char u" for u
  proof (cases u)
    case (Cons c t)
    have "\<not> id_char CHR 0x22" by code_simp
    then show ?thesis using that Cons by auto
  qed simp
  have "until_white u = u" if "list_all id_char u" for u
    using that by (induction u) (simp_all add: strip_any_id [OF white_ends(1)])
  then show ?thesis
    using assms r by (simp add: line_id_def t trim_quotes_def q first_word_def strip_all_id [OF white_ends(1)])
qed

lemma split_on_line: "c \<notin> set l \<Longrightarrow> split_on c (l @ c # s) = l # split_on c s"
  by (induction l) auto

lemma str_lines_join:
  assumes "\<And>l. l \<in> set ls \<Longrightarrow> list_all id_char l"
  shows "str_lines (concat (map (\<lambda>l. l @ [CHR 0x0A]) ls)) = ls"
proof -
  have n: "\<not> id_char CHR 0x0A" "\<not> id_char CHR 0x0D" by code_simp+
  have "split_on CHR 0x0A (concat (map (\<lambda>l. l @ [CHR 0x0A]) ls)) = ls @ [[]]"
    using assms
  proof (induction ls)
    case (Cons l ls)
    then have "CHR 0x0A \<notin> set l" using n(1) by (auto simp: list_all_iff)
    then show ?case using Cons by (simp add: split_on_line)
  qed simp
  moreover have "\<not> ends_with [CHR 0x0D] l" if "l \<in> set ls" for l
    using assms [OF that] n(2) by (auto simp: ends_with_iff list_all_iff)
  ultimately show ?thesis by (auto simp: str_lines_def Let_def intro: map_idI)
qed

lemma picked_offered: "picked req l = Some i \<Longrightarrow> i \<in> set (map ci_index (cr_items req))"
  by (auto simp: picked_def find_Some_iff split: if_splits)

text \<open>
  A dialog never widens. Whatever the helper prints, each granted index was
  offered and appears once, and a helper that fails grants nothing.
\<close>

lemma dialog_never_widens:
  "distinct (dialog_ask b run req) \<and> set (dialog_ask b run req) \<subseteq> set (map ci_index (cr_items req))
   \<and> dialog_ask b (\<lambda>_. Inl reason) req = []"
  using granted_set [of _ req] picked_offered [of req] by (auto simp: dialog_ask_def split: sum.split)

text \<open>
  What the user ticks is what is granted, when the ids of the offered resources
  differ. A helper that prints the ids of the ticked rows, one per line, grants
  exactly the resources of those rows.
\<close>

lemma dialog_ticks:
  assumes "distinct (map ci_id (cr_items req))" "set ticked \<subseteq> set (cr_items req)" "ticked \<noteq> []"
    and "list_all (\<lambda>i. is_valid_resource_id (ci_id i)) (cr_items req)"
    and "run (dialog_argv b req) = Inr (concat (map (\<lambda>i. ci_id i @ [CHR 0x0A]) ticked))"
  shows "set (dialog_ask b run req) = ci_index ` set ticked"
proof -
  have ids: "list_all id_char (ci_id i)" "ci_id i \<noteq> []" if "i \<in> set ticked" for i
    using that assms(2,4) valid_id_chars by (auto simp: list_all_iff)
  have lines: "str_lines (concat (map (\<lambda>i. ci_id i @ [CHR 0x0A]) ticked)) = map ci_id ticked"
    using str_lines_join [of "map ci_id ticked"] ids by (auto simp: comp_def)
  have "picked req (ci_id i) = Some (ci_index i)" if "i \<in> set ticked" for i
    using that ids [OF that] assms(2) find_some_iff [OF assms(1), of "ci_id i" i] by (auto simp: picked_def line_id_id)
  then have "{j. \<exists>l\<in>set (map ci_id ticked). picked req l = Some j} = ci_index ` set ticked" by force
  moreover have "cr_items req \<noteq> []" using assms(2,3) by (cases ticked) auto
  ultimately show ?thesis by (simp add: dialog_ask_def assms(5) granted_set lines)
qed

lemma find_before: "find P (a @ i # r) = Some x \<Longrightarrow> P i \<Longrightarrow> x \<in> set (a @ [i])"
  by (induction a) (auto split: if_splits)

text \<open>
  When two offered resources have the same id, as resources of different manifests may,
  the second can never be granted: ticking its row prints the id of the first, which
  is granted instead.
\<close>

lemma dialog_same_id:
  assumes "cr_items req = a @ i # b @ j # c" "ci_id i = ci_id j" "ci_index j \<notin> set (map ci_index (a @ i # b @ c))"
  shows "ci_index j \<notin> set (dialog_ask bk run req)"
proof -
  have "picked req l \<noteq> Some (ci_index j)" for l
  proof
    assume "picked req l = Some (ci_index j)"
    then obtain x where x: "find (\<lambda>item. ci_id item = line_id l) (cr_items req) = Some x" "ci_index x = ci_index j"
      by (auto simp: picked_def split: if_splits)
    have m: "x \<in> set (cr_items req)" "ci_id x = line_id l" using x(1) by (auto simp: find_Some_iff)
    have "x \<in> set (a @ i # b @ c)"
    proof (cases "ci_id i = line_id l")
      case True
      then have "x \<in> set (a @ [i])" using find_before [of _ a i] x(1) by (simp add: assms(1))
      then show ?thesis by auto
    next
      case False
      then have "x \<noteq> j" using m assms(2) by auto
      then show ?thesis using m(1) by (auto simp: assms(1))
    qed
    then have "ci_index x \<in> set (map ci_index (a @ i # b @ c))" by (metis imageI list.set_map)
    then show False using x(2) assms(3) by (simp only:)
  qed
  then show ?thesis by (simp add: dialog_ask_def granted_set split: sum.split)
qed

definition sample_item :: "nat \<Rightarrow> string \<Rightarrow> string \<Rightarrow> consent_item" where
  "sample_item n i t = \<lparr> ci_index = n, ci_id = i, ci_label = i, ci_kind = ''https'', ci_target = t, ci_tier = Safe, ci_reasons = [] \<rparr>"

definition sample_request :: "consent_item list \<Rightarrow> consent_request" where
  "sample_request items = \<lparr> cr_name = ''demo'', cr_identity = None, cr_origin = ''file'', cr_trust = ''local'', cr_items = items, cr_denied = [] \<rparr>"

lemma dialog_ticks_witness:
  "set (dialog_ask Zenity (\<lambda>_. Inr (''docs'' @ [CHR 0x0A]))
     (sample_request [sample_item 0 ''page'' ''https://a.example/'', sample_item 3 ''docs'' ''https://b.example/''])) = {3}"
proof -
  let ?r = "sample_request [sample_item 0 ''page'' ''https://a.example/'', sample_item 3 ''docs'' ''https://b.example/'']"
  have "is_valid_resource_id ''page''" "is_valid_resource_id ''docs''" by code_simp+
  then have "set (dialog_ask Zenity (\<lambda>_. Inr (''docs'' @ [CHR 0x0A])) ?r) = ci_index ` set [sample_item 3 ''docs'' ''https://b.example/'']"
    by (intro dialog_ticks) (simp_all add: sample_request_def sample_item_def)
  then show ?thesis by (simp add: sample_item_def)
qed

text \<open>Both rows read \<open>page\<close>; ticking the second opens the first.\<close>

lemma dialog_wrong_row:
  "dialog_ask Zenity (\<lambda>_. Inr (''page'' @ [CHR 0x0A]))
     (sample_request [sample_item 0 ''page'' ''https://a.example/'', sample_item 1 ''page'' ''https://b.example/'']) = [0]"
proof -
  let ?r = "sample_request [sample_item 0 ''page'' ''https://a.example/'', sample_item 1 ''page'' ''https://b.example/'']"
  have "granted_indices (''page'' @ [CHR 0x0A]) ?r = [0]" by code_simp
  then show ?thesis by (simp add: dialog_ask_def sample_request_def)
qed

text \<open>The loop ends at the first poll that does not say running or is past the deadline.\<close>

definition settled :: "child \<Rightarrow> nat \<Rightarrow> nat \<Rightarrow> bool" where
  "settled c secs k \<longleftrightarrow> ch_poll c k \<noteq> Running \<or> 1000 * secs \<le> ch_clock c k"

definition settled_with :: "child \<Rightarrow> nat \<Rightarrow> nat \<Rightarrow> (string + string) \<times> bool" where
  "settled_with c secs k =
     (case ch_poll c k of
        Exited ok \<Rightarrow> (child_text c ok, False)
      | PollFailed e \<Rightarrow> (Inl (''waiting for dialog: '' @ e), False)
      | Running \<Rightarrow> (Inl (''no answer within '' @ dec_of_nat secs @ ''s''), True))"

lemma wait_child_settled: "settled c secs k \<Longrightarrow> wait_child c secs k = Some (settled_with c secs k)"
  by (subst wait_child.simps) (auto simp: settled_def settled_with_def split: poll.split)

lemma wait_child_unsettled: "\<not> settled c secs k \<Longrightarrow> wait_child c secs k = wait_child c secs (k + 1)"
  by (subst wait_child.simps) (simp add: settled_def)

lemma wait_child_first:
  assumes "settled c secs (k + n)" "\<And>i. i < n \<Longrightarrow> \<not> settled c secs (k + i)"
  shows "wait_child c secs k = Some (settled_with c secs (k + n))"
  using assms
proof (induction n arbitrary: k)
  case (Suc n)
  have "\<not> settled c secs k" using Suc.prems(2) [of 0] by simp
  moreover have "wait_child c secs (k + 1) = Some (settled_with c secs (k + 1 + n))"
    using Suc.prems(2) [of "Suc i" for i] Suc.prems(1) by (intro Suc.IH) simp_all
  ultimately show ?case by (simp add: wait_child_unsettled)
qed (simp add: wait_child_settled)

lemma run_capturing_settles:
  assumes "\<And>k. 50 * k \<le> ch_clock c k" "spawn argv = Inr c"
  shows "\<exists>n\<le>20 * secs. settled c secs n \<and> (\<forall>i<n. \<not> settled c secs i)
      \<and> run_capturing spawn program argv secs = Some (settled_with c secs n)"
proof -
  have late: "settled c secs (20 * secs)" using assms(1) [of "20 * secs"] by (simp add: settled_def)
  then obtain n where n: "settled c secs n" "\<forall>i<n. \<not> settled c secs i"
    using exists_least_iff [of "settled c secs"] by blast
  have "n \<le> 20 * secs" using n(2) late not_le_imp_less by blast
  moreover have "wait_child c secs 0 = Some (settled_with c secs n)"
    using wait_child_first [of c secs 0 n] n by simp
  ultimately show ?thesis using n assms(2) by (auto simp: run_capturing_def)
qed

text \<open>
  C25: a dialog never wedges the daemon. Since a poll is followed by a sleep of at least
  50 milliseconds, the wait ends, after at most twenty polls per second of the timeout
  and one more, with the result of the first poll that finds the helper ended or the
  time up. The session so returns: indices that were offered, each once, and
  none at all when the helper was killed, failed or could not be started.
\<close>

theorem dialog_answers:
  assumes "\<And>c k. spawn (dialog_argv b req) = Inr c \<Longrightarrow> 50 * k \<le> ch_clock c k"
  shows "\<exists>r killed granted.
      run_capturing spawn program (dialog_argv b req) secs = Some (r, killed)
      \<and> (\<forall>c. spawn (dialog_argv b req) = Inr c \<longrightarrow>
           (\<exists>n\<le>20 * secs. settled c secs n \<and> (\<forall>i<n. \<not> settled c secs i) \<and> (r, killed) = settled_with c secs n))
      \<and> dialog_session b spawn program secs req = Some granted
      \<and> distinct granted \<and> set granted \<subseteq> set (map ci_index (cr_items req))
      \<and> (killed \<or> isl r \<longrightarrow> granted = [])"
proof -
  have "\<exists>r killed. run_capturing spawn program (dialog_argv b req) secs = Some (r, killed) \<and> (killed \<longrightarrow> isl r)
      \<and> (\<forall>c. spawn (dialog_argv b req) = Inr c \<longrightarrow>
           (\<exists>n\<le>20 * secs. settled c secs n \<and> (\<forall>i<n. \<not> settled c secs i) \<and> (r, killed) = settled_with c secs n))"
  proof (cases "spawn (dialog_argv b req)")
    case (Inr c)
    then obtain n where n: "n \<le> 20 * secs" "settled c secs n" "\<forall>i<n. \<not> settled c secs i"
      "run_capturing spawn program (dialog_argv b req) secs = Some (settled_with c secs n)"
      using run_capturing_settles [where spawn = spawn and argv = "dialog_argv b req" and c = c and secs = secs] assms [OF Inr] Inr
      by blast
    obtain r killed where r: "settled_with c secs n = (r, killed)" by fastforce
    then have "killed \<longrightarrow> isl r" by (auto simp: settled_with_def split: poll.splits)
    then show ?thesis using n r Inr by auto
  qed (auto simp: run_capturing_def)
  then obtain r killed where r: "run_capturing spawn program (dialog_argv b req) secs = Some (r, killed)" "killed \<longrightarrow> isl r"
    "\<forall>c. spawn (dialog_argv b req) = Inr c \<longrightarrow>
       (\<exists>n\<le>20 * secs. settled c secs n \<and> (\<forall>i<n. \<not> settled c secs i) \<and> (r, killed) = settled_with c secs n)"
    by blast
  define granted where "granted = dialog_ask b (\<lambda>_. r) req"
  have "dialog_session b spawn program secs req = Some granted"
    by (simp add: dialog_session_def r(1) granted_def dialog_ask_def)
  moreover have "distinct granted" "set granted \<subseteq> set (map ci_index (cr_items req))"
    using dialog_never_widens [of b "\<lambda>_. r" req] by (simp_all add: granted_def)
  moreover have "killed \<or> isl r \<longrightarrow> granted = []"
    using r(2) by (cases r) (auto simp: granted_def dialog_ask_def)
  ultimately show ?thesis using r by blast
qed

text \<open>A helper that never ends, under a timeout of two seconds.\<close>

definition stuck_child :: child where
  "stuck_child = \<lparr> ch_poll = (\<lambda>_. Running), ch_clock = (\<lambda>k. 60 * k), ch_output = None \<rparr>"

theorem dialog_answers_witness:
  "dialog_session Zenity (\<lambda>_. Inr stuck_child) ''zenity'' 2 (sample_request [sample_item 0 ''a'' ''https://a.example'']) = Some []"
proof -
  let ?req = "sample_request [sample_item 0 ''a'' ''https://a.example'']"
  have d: "50 * k \<le> ch_clock c k" if "Inr stuck_child = (Inr c :: string + child)" for c k
    using that by (auto simp: stuck_child_def)
  obtain r killed granted where o: "\<exists>n. (r, killed) = settled_with stuck_child 2 n"
    "dialog_session Zenity (\<lambda>_. Inr stuck_child) ''zenity'' 2 ?req = Some granted" "killed \<or> isl r \<longrightarrow> granted = []"
    using dialog_answers [of "\<lambda>_. Inr stuck_child" Zenity ?req "''zenity''" 2, OF d] by blast
  have "killed" using o(1) by (auto simp: settled_with_def stuck_child_def)
  then show ?thesis using o by simp
qed

end
