(* ===== verification/Socket.thy ===== *)
theory Socket
  imports Server Dialog
begin

text \<open>
  Where the daemon listens, \<open>murl-daemon/src/socket.rs\<close>, and how it starts to,
  \<open>unix_server::run\<close> of \<open>server.rs\<close>, on Unix. The part of the file system they look at is a
  map from the text of a path to what is there: its kind, owner and permission bits.
  A socket path is live when somebody accepts connections on it.
\<close>

section \<open>The path\<close>

definition SOCKET_DIR_NAME :: string where
  "SOCKET_DIR_NAME = ''murl''"

definition SOCKET_FILE_NAME :: string where
  "SOCKET_FILE_NAME = ''murl.sock''"

definition set_env :: "(string \<Rightarrow> string option) \<Rightarrow> string \<Rightarrow> string option" where
  "set_env env k = (if set_var (env k) then env k else None)"

text \<open>\<open>temp\<close> is the temporary directory.\<close>

definition socket_path :: "(string \<Rightarrow> string option) \<Rightarrow> string \<Rightarrow> string \<Rightarrow> string" where
  "socket_path env temp uid =
     (case set_env env ''MURL_SOCKET'' of
        Some explicit \<Rightarrow> explicit
      | None \<Rightarrow>
          (case set_env env ''XDG_RUNTIME_DIR'' of
             Some runtime \<Rightarrow> path_push (path_push runtime SOCKET_DIR_NAME) SOCKET_FILE_NAME
           | None \<Rightarrow> path_push (path_push temp (''murl-'' @ uid)) SOCKET_FILE_NAME))"

fun first_uid :: "string list \<Rightarrow> string option" where
  "first_uid [] = None"
| "first_uid (l # ls) =
     (case strip_prefix ''Uid:'' l of
        Some rest \<Rightarrow> if first_word rest = [] then first_uid ls else Some (first_word rest)
      | None \<Rightarrow> first_uid ls)"

text \<open>\<open>status\<close> is the text of \<open>/proc/self/status\<close> where it can be read, \<open>user\<close> the variable
  \<open>USER\<close>.\<close>

definition unsafe_free_uid :: "string option \<Rightarrow> string option \<Rightarrow> string" where
  "unsafe_free_uid status user =
     (case (case status of None \<Rightarrow> None | Some s \<Rightarrow> first_uid (str_lines s)) of
        Some u \<Rightarrow> u
      | None \<Rightarrow> (case user of Some u \<Rightarrow> u | None \<Rightarrow> ''user''))"

definition parse_u32 :: "string \<Rightarrow> 32 word option" where
  "parse_u32 s =
     (let d = (case s of [] \<Rightarrow> [] | c # r \<Rightarrow> if c = CHR ''+'' then r else s) in
      if d = [] \<or> \<not> all_digits d \<or> 2 ^ 32 \<le> nat_of_dec d then None else Some (of_nat (nat_of_dec d)))"

section \<open>The host\<close>

text \<open>Permission bits are written in hexadecimal: 0x1FF is 0777, 0x1C0 is 0700, 0x180 is 0600 and
  0x3F is 0077.\<close>

text \<open>A link leads to the kind at its end, if any.\<close>

datatype node_kind = NkDir | NkSocket | NkOther | NkLink "node_kind option"

fun end_kind :: "node_kind \<Rightarrow> node_kind option" where
  "end_kind (NkLink k) = k"
| "end_kind k = Some k"

record sock_node =
  sn_kind :: node_kind
  sn_mode :: "32 word"
  sn_uid :: "32 word"

text \<open>\<open>refuses op p\<close> is the message of a failure for a reason outside the model, such as a
  missing permission.\<close>

record host =
  ho_nodes :: "string \<Rightarrow> sock_node option"
  ho_live :: "string \<Rightarrow> bool"
  ho_uid :: "32 word"
  ho_umask :: "32 word"
  ho_refuses :: "string \<Rightarrow> string \<Rightarrow> string option"

text \<open>\<open>Path::exists\<close> and \<open>Path::is_dir\<close> follow links.\<close>

definition node_exists :: "host \<Rightarrow> string \<Rightarrow> bool" where
  "node_exists h p = (case ho_nodes h p of None \<Rightarrow> False | Some n \<Rightarrow> end_kind (sn_kind n) \<noteq> None)"

definition node_is_dir :: "host \<Rightarrow> string \<Rightarrow> bool" where
  "node_is_dir h p = (case ho_nodes h p of None \<Rightarrow> False | Some n \<Rightarrow> end_kind (sn_kind n) = Some NkDir)"

text \<open>A path from its end, without the separators and dots that \<open>Path::components\<close> skips.\<close>

fun trim_tail :: "string \<Rightarrow> string" where
  "trim_tail [] = []"
| "trim_tail (c # r) =
     (if c = CHR ''/'' then trim_tail r
      else if c = CHR ''.'' \<and> r \<noteq> [] \<and> hd r = CHR ''/'' then trim_tail r
      else c # r)"

definition path_parent :: "string \<Rightarrow> string option" where
  "path_parent s =
     (let r = trim_tail (rev s) in
      if r = [] then None
      else let up = rev (trim_tail (dropWhile (\<lambda>c. c \<noteq> CHR ''/'') r)) in
           Some (if up = [] \<and> starts_with ''/'' s then ''/'' else up))"

definition add_node :: "string \<Rightarrow> sock_node \<Rightarrow> host \<Rightarrow> host" where
  "add_node p n h = h\<lparr> ho_nodes := (ho_nodes h)(p \<mapsto> n) \<rparr>"

definition new_node :: "host \<Rightarrow> node_kind \<Rightarrow> sock_node" where
  "new_node h k = \<lparr> sn_kind = k, sn_mode = 0x1FF AND NOT (ho_umask h), sn_uid = ho_uid h \<rparr>"

text \<open>The current directory is the parent of a relative path of one component.\<close>

definition parent_missing :: "host \<Rightarrow> string \<Rightarrow> bool" where
  "parent_missing h p =
     (case path_parent p of None \<Rightarrow> False | Some up \<Rightarrow> up \<noteq> [] \<and> \<not> node_exists h up)"

definition mkdir :: "host \<Rightarrow> string \<Rightarrow> io_error + host" where
  "mkdir h p =
     (if ho_nodes h p \<noteq> None then Inl (IoOther ''File exists'')
      else if parent_missing h p then Inl IoNotFound
      else case ho_refuses h ''mkdir'' p of
        Some e \<Rightarrow> Inl (IoOther e)
      | None \<Rightarrow> Inr (add_node p (new_node h NkDir) h))"

definition mkdir_or_dir :: "host \<Rightarrow> string \<Rightarrow> (io_error + unit) \<times> host" where
  "mkdir_or_dir h p =
     (case mkdir h p of
        Inr h' \<Rightarrow> (Inr (), h')
      | Inl e \<Rightarrow> (if node_is_dir h p then Inr () else Inl e, h))"

text \<open>\<open>std::fs::create_dir_all\<close>. The fuel is the length of the path: a parent is shorter.\<close>

fun create_dir_all :: "nat \<Rightarrow> string \<Rightarrow> host \<Rightarrow> (io_error + unit) \<times> host" where
  "create_dir_all n p h =
     (if p = [] then (Inr (), h)
      else case mkdir h p of
        Inr h' \<Rightarrow> (Inr (), h')
      | Inl IoNotFound \<Rightarrow>
          (case (n, path_parent p) of
             (Suc n', Some up) \<Rightarrow>
               (case create_dir_all n' up h of
                  (Inl e, h1) \<Rightarrow> (Inl e, h1)
                | (Inr _, h1) \<Rightarrow> mkdir_or_dir h1 p)
           | _ \<Rightarrow> (Inl (IoOther ''failed to create whole tree''), h))
      | Inl (IoOther e) \<Rightarrow> (if node_is_dir h p then Inr () else Inl (IoOther e), h))"

text \<open>\<open>chmod\<close> of a path that is not a link: only its owner or root may.\<close>

definition set_permissions :: "string \<Rightarrow> 32 word \<Rightarrow> host \<Rightarrow> (io_error + unit) \<times> host" where
  "set_permissions p mode h =
     (case ho_nodes h p of
        None \<Rightarrow> (Inl IoNotFound, h)
      | Some n \<Rightarrow>
          if sn_uid n = ho_uid h \<or> ho_uid h = 0 then (Inr (), add_node p (n\<lparr> sn_mode := mode \<rparr>) h)
          else (Inl (IoOther ''Operation not permitted''), h))"

section \<open>socket.rs\<close>

fun is_link :: "node_kind \<Rightarrow> bool" where
  "is_link (NkLink _) = True"
| "is_link _ = False"

definition io_step :: "(io_error + unit) \<times> host \<Rightarrow> (host \<Rightarrow> (error + unit) \<times> host) \<Rightarrow> (error + unit) \<times> host" where
  "io_step r k = (case r of (Inl e, h) \<Rightarrow> (Inl (EIo (io_message e)), h) | (Inr _, h) \<Rightarrow> k h)"

definition prepare_socket_dir :: "string \<Rightarrow> host \<Rightarrow> (error + unit) \<times> host" where
  "prepare_socket_dir p h =
     (case path_parent p of
        None \<Rightarrow> (Inl (EDispatch ''socket path has no parent''), h)
      | Some dir \<Rightarrow>
          io_step (if node_exists h dir then (Inr (), h) else create_dir_all (length dir) dir h) (\<lambda>h1.
            case ho_nodes h1 dir of
              None \<Rightarrow> (Inl (EIo (io_message IoNotFound)), h1)
            | Some n \<Rightarrow>
                if is_link (sn_kind n)
                then (Inl (EDenied (''socket directory '' @ dir @ '' is a symlink; refusing to bind'')), h1)
                else io_step (set_permissions dir 0x1C0 h1) (\<lambda>h2. (Inr (), h2))))"

text \<open>The mode bits are compared after the mask, and a uid that cannot be read disables the
  comparison of owners.\<close>

definition client_may_trust :: "(string \<Rightarrow> sock_node option) \<Rightarrow> string \<Rightarrow> string \<Rightarrow> bool" where
  "client_may_trust nodes uid p =
     (case nodes p of
        None \<Rightarrow> False
      | Some n \<Rightarrow>
          if sn_kind n \<noteq> NkSocket then False
          else if (sn_mode n AND 0x1FF) AND 0x3F \<noteq> 0 then False
          else case parse_u32 uid of Some u \<Rightarrow> sn_uid n = u | None \<Rightarrow> True)"

section \<open>Starting to listen\<close>

definition remove_socket_file :: "string \<Rightarrow> host \<Rightarrow> (io_error + unit) \<times> host" where
  "remove_socket_file p h =
     (case ho_nodes h p of
        None \<Rightarrow> (Inl IoNotFound, h)
      | Some n \<Rightarrow>
          if sn_kind n = NkDir then (Inl (IoOther ''Is a directory''), h)
          else case ho_refuses h ''unlink'' p of
            Some e \<Rightarrow> (Inl (IoOther e), h)
          | None \<Rightarrow> (Inr (), h\<lparr> ho_nodes := (ho_nodes h)(p := None) \<rparr>))"

definition bind_socket :: "string \<Rightarrow> host \<Rightarrow> io_error + host" where
  "bind_socket p h =
     (if ho_nodes h p \<noteq> None then Inl (IoOther ''Address already in use'')
      else if parent_missing h p then Inl IoNotFound
      else case ho_refuses h ''bind'' p of
        Some e \<Rightarrow> Inl (IoOther e)
      | None \<Rightarrow> Inr ((add_node p (new_node h NkSocket) h)\<lparr> ho_live := (ho_live h)(p := True) \<rparr>))"

definition listen_on :: "string \<Rightarrow> host \<Rightarrow> (error + unit) \<times> host" where
  "listen_on p h =
     (case bind_socket p h of
        Inl e \<Rightarrow> (Inl (EDispatch (''cannot bind '' @ p @ '': '' @ io_message e)), h)
      | Inr h1 \<Rightarrow> io_step (set_permissions p 0x180 h1) (\<lambda>h2. (Inr (), h2)))"

definition startup :: "string \<Rightarrow> host \<Rightarrow> (error + unit) \<times> host" where
  "startup p h =
     (case prepare_socket_dir p h of
        (Inl e, h1) \<Rightarrow> (Inl e, h1)
      | (Inr _, h1) \<Rightarrow>
          if node_exists h1 p
          then if ho_live h1 p then (Inl (EDenied (''another daemon is already listening on '' @ p)), h1)
               else io_step (remove_socket_file p h1) (listen_on p)
          else listen_on p h1)"

text \<open>What the listener hands over, one connection after the other.\<close>

datatype incoming = AcceptFailed | NoReadTimeout | NoClone | Accepted bytes "64 word"

fun serve_incoming :: "daemon_context \<Rightarrow> incoming list \<Rightarrow> daemon_state \<Rightarrow> bool \<times> string list list \<times> daemon_state" where
  "serve_incoming ctx [] s = (False, [], s)"
| "serve_incoming ctx (Accepted input now # cs) s =
     (case serve_connection ctx input now 32 s of
        (out, sent, s1) \<Rightarrow>
          if out = Panicked then (True, [sent], s1)
          else (case serve_incoming ctx cs s1 of (p, rest, s2) \<Rightarrow> (p, sent # rest, s2)))"
| "serve_incoming ctx (_ # cs) s = serve_incoming ctx cs s"

section \<open>Properties\<close>

lemma length_trim_tail: "length (trim_tail s) \<le> length s"
  by (induction s rule: trim_tail.induct) auto

lemma trim_tail_head: "trim_tail s \<noteq> [] \<Longrightarrow> hd (trim_tail s) \<noteq> CHR ''/''"
  by (induction s rule: trim_tail.induct) auto

lemma length_parent:
  assumes "path_parent s = Some up"
  shows "length up < length s"
proof -
  let ?r = "trim_tail (rev s)"
  have r: "?r \<noteq> []" using assms by (auto simp: path_parent_def Let_def)
  then obtain c t where ct: "?r = c # t" "c \<noteq> CHR ''/''" using trim_tail_head [OF r] by (cases ?r) auto
  have "length (trim_tail (dropWhile (\<lambda>c. c \<noteq> CHR ''/'') ?r)) \<le> length t"
    using length_trim_tail [of "dropWhile (\<lambda>c. c \<noteq> CHR ''/'') t"] length_dropWhile_le [of "\<lambda>c. c \<noteq> CHR ''/''" t] ct
    by simp
  moreover have "length ?r \<le> length s" using length_trim_tail [of "rev s"] by simp
  moreover have "1 < length s" if "starts_with ''/'' s"
  proof (rule ccontr)
    assume "\<not> 1 < length s"
    then have "s = ''/''" using that by (cases s) (auto simp: starts_with_def split: if_splits)
    then show False using r by simp
  qed
  ultimately show ?thesis using assms ct(1) by (auto simp: path_parent_def Let_def split: if_splits)
qed

text \<open>Steps that keep what is at \<open>p\<close>, and everything but the nodes.\<close>

definition keeps :: "string \<Rightarrow> host \<Rightarrow> host \<Rightarrow> bool" where
  "keeps p h h' \<longleftrightarrow> ho_nodes h' p = ho_nodes h p \<and> ho_live h' = ho_live h \<and> ho_uid h' = ho_uid h"

lemma keeps_refl [simp]: "keeps p h h"
  by (simp add: keeps_def)

lemma keeps_trans: "keeps p h h1 \<Longrightarrow> keeps p h1 h2 \<Longrightarrow> keeps p h h2"
  by (simp add: keeps_def)

lemma keeps_add [simp]: "q \<noteq> p \<Longrightarrow> keeps p h (add_node q n h)"
  by (simp add: keeps_def add_node_def)

lemma mkdir_keeps: "mkdir h q = Inr h' \<Longrightarrow> q \<noteq> p \<Longrightarrow> keeps p h h'"
  by (auto simp: mkdir_def split: if_splits option.splits)

lemma create_dir_all_keeps: "length q < length p \<Longrightarrow> keeps p h (snd (create_dir_all n q h))"
proof (induction n q h rule: create_dir_all.induct)
  case (1 n q h)
  have q: "q \<noteq> p" using 1(2) by auto
  have sub: "keeps p h (snd (create_dir_all n' up h))"
    if "q \<noteq> []" "mkdir h q = Inl IoNotFound" "n = Suc n'" "path_parent q = Some up" for n' up
    using that length_parent [of q up] 1(2) by (intro 1(1)) auto
  have last: "keeps p h (snd (mkdir_or_dir h1 q))" if "keeps p h h1" for h1
    using that mkdir_keeps [OF _ q, of h1] keeps_trans [of p h h1]
    by (cases "mkdir h1 q") (simp_all add: mkdir_or_dir_def)
  show ?case
  proof (cases "q = []")
    case ne: False
    show ?thesis
    proof (cases "mkdir h q")
      case (Inr h1)
      then show ?thesis using ne mkdir_keeps [OF Inr q] by simp
    next
      case (Inl e)
      show ?thesis
      proof (cases e)
        case IoNotFound
        then have m: "mkdir h q = Inl IoNotFound" using Inl by simp
        show ?thesis
        proof (cases "\<exists>n' up. n = Suc n' \<and> path_parent q = Some up")
          case True
          then obtain n' up where nu: "n = Suc n'" "path_parent q = Some up" by blast
          obtain r h1 where c: "create_dir_all n' up h = (r, h1)" by fastforce
          then have "keeps p h h1" using sub [OF ne m nu] by simp
          then show ?thesis using ne m nu c last [of h1] by (cases r) simp_all
        next
          case False
          then show ?thesis using ne m
            by (subst create_dir_all.simps) (auto split: nat.split option.split simp del: create_dir_all.simps)
        qed
      qed (use ne Inl in simp)
    qed
  qed simp
qed

text \<open>The directory is a real one, owner-only, of this user or touched by root.\<close>

definition private_dir :: "host \<Rightarrow> string \<Rightarrow> bool" where
  "private_dir h dir =
     (case ho_nodes h dir of
        None \<Rightarrow> False
      | Some n \<Rightarrow> \<not> is_link (sn_kind n) \<and> sn_mode n = 0x1C0 \<and> (sn_uid n = ho_uid h \<or> ho_uid h = 0))"

lemma set_permissions_ok:
  assumes "set_permissions p mode h = (Inr u, h')"
  shows "\<exists>n. ho_nodes h p = Some n \<and> (sn_uid n = ho_uid h \<or> ho_uid h = 0) \<and> h' = add_node p (n\<lparr> sn_mode := mode \<rparr>) h"
  using assms by (auto simp: set_permissions_def split: option.splits if_splits)

lemma prepare_keeps: "prepare_socket_dir p h = (r, h') \<Longrightarrow> keeps p h h'"
proof -
  assume a: "prepare_socket_dir p h = (r, h')"
  show ?thesis
  proof (cases "path_parent p")
    case (Some dir)
    have d: "length dir < length p" "dir \<noteq> p" using length_parent [OF Some] by auto
    define c where "c = (if node_exists h dir then (Inr (), h) else create_dir_all (length dir) dir h)"
    have c: "keeps p h (snd c)" using create_dir_all_keeps [OF d(1)] by (simp add: c_def)
    have "keeps p h1 (snd (set_permissions dir m h1))" for m h1
      using d(2) by (simp add: set_permissions_def split: option.split)
    then show ?thesis using a c keeps_trans [of p h]
      by (auto simp: prepare_socket_dir_def Some c_def [symmetric] io_step_def split: prod.splits sum.splits option.splits if_splits)
        (metis snd_conv)+
  qed (use a in \<open>simp add: prepare_socket_dir_def\<close>)
qed

lemma prepare_private:
  assumes "prepare_socket_dir p h = (Inr u, h')"
  shows "\<exists>dir. path_parent p = Some dir \<and> private_dir h' dir"
proof -
  obtain dir where dir: "path_parent p = Some dir" using assms by (auto simp: prepare_socket_dir_def split: option.splits)
  then obtain h1 n where n: "ho_nodes h1 dir = Some n" "\<not> is_link (sn_kind n)" "set_permissions dir 0x1C0 h1 = (Inr (), h')"
    using assms by (auto simp: prepare_socket_dir_def io_step_def split: prod.splits sum.splits option.splits if_splits)
  from set_permissions_ok [OF n(3)] n(1,2) have "private_dir h' dir" by (auto simp: private_dir_def add_node_def)
  then show ?thesis using dir by blast
qed

lemma private_dir_add: "dir \<noteq> p \<Longrightarrow> private_dir (add_node p n h) dir = private_dir h dir"
  by (cases "ho_nodes h dir") (simp_all add: private_dir_def add_node_def)

lemma listen_on_ok:
  assumes "listen_on p h = (Inr u, h')" "private_dir h dir" "dir \<noteq> p"
  shows "private_dir h' dir \<and> ho_nodes h' p = Some \<lparr> sn_kind = NkSocket, sn_mode = 0x180, sn_uid = ho_uid h \<rparr> \<and> ho_live h' p"
proof -
  obtain h1 where b: "bind_socket p h = Inr h1" "set_permissions p 0x180 h1 = (Inr (), h')"
    using assms(1) by (auto simp: listen_on_def io_step_def split: sum.splits prod.splits)
  have h1: "h1 = (add_node p (new_node h NkSocket) h)\<lparr> ho_live := (ho_live h)(p := True) \<rparr>"
    using b(1) by (auto simp: bind_socket_def split: if_splits option.splits)
  from set_permissions_ok [OF b(2)] obtain n where n: "ho_nodes h1 p = Some n" "h' = add_node p (n\<lparr> sn_mode := 0x180 \<rparr>) h1" by blast
  have "n = new_node h NkSocket" using n(1) by (simp add: h1 add_node_def)
  then show ?thesis using assms(2,3)
    by (cases "ho_nodes h dir") (simp_all add: n(2) h1 private_dir_def add_node_def new_node_def)
qed

lemma trusted_private:
  assumes "nodes p = Some \<lparr> sn_kind = NkSocket, sn_mode = 0x180, sn_uid = u \<rparr>" "parse_u32 uid \<in> {None, Some u}"
  shows "client_may_trust nodes uid p"
proof -
  have "((0x180 :: 32 word) AND 0x1FF) AND 0x3F = 0" by code_simp
  then show ?thesis using assms by (auto simp: client_may_trust_def)
qed

text \<open>What a start that succeeds leaves behind.\<close>

definition listening :: "host \<Rightarrow> host \<Rightarrow> string \<Rightarrow> bool" where
  "listening h h' p \<longleftrightarrow>
     (\<exists>dir. path_parent p = Some dir \<and> private_dir h' dir)
     \<and> ho_nodes h' p = Some \<lparr> sn_kind = NkSocket, sn_mode = 0x180, sn_uid = ho_uid h \<rparr> \<and> ho_live h' p"

lemma remove_socket_file_ok:
  assumes "remove_socket_file p h = (Inr u, h')"
  shows "h' = h\<lparr> ho_nodes := (ho_nodes h)(p := None) \<rparr>"
  using assms by (auto simp: remove_socket_file_def split: option.splits if_splits)

lemma startup_ok:
  assumes "startup p h = (Inr u, h')"
  shows "\<not> (node_exists h p \<and> ho_live h p) \<and> listening h h' p"
proof -
  obtain h1 where h1: "prepare_socket_dir p h = (Inr (), h1)" using assms by (auto simp: startup_def split: prod.splits sum.splits)
  obtain dir where dir: "path_parent p = Some dir" "private_dir h1 dir" using prepare_private [OF h1] by blast
  have ne: "dir \<noteq> p" using length_parent [OF dir(1)] by auto
  have k: "keeps p h h1" using prepare_keeps [OF h1] .
  then have ex: "node_exists h1 p = node_exists h p" "ho_live h1 p = ho_live h p" "ho_uid h1 = ho_uid h"
    by (simp_all add: keeps_def node_exists_def)
  show ?thesis
  proof (cases "node_exists h p")
    case False
    then have "listen_on p h1 = (Inr u, h')" using assms by (simp add: startup_def h1 ex)
    from listen_on_ok [OF this dir(2) ne] False dir(1) show ?thesis by (auto simp: listening_def ex)
  next
    case True
    then obtain h2 where r: "remove_socket_file p h1 = (Inr (), h2)" "listen_on p h2 = (Inr u, h')" "\<not> ho_live h p"
      using assms by (auto simp: startup_def h1 ex io_step_def split: if_splits prod.splits sum.splits)
    have h2: "private_dir h2 dir" "ho_uid h2 = ho_uid h"
      using dir(2) ne ex(3) by (cases "ho_nodes h1 dir"; simp add: remove_socket_file_ok [OF r(1)] private_dir_def)+
    from listen_on_ok [OF r(2) h2(1) ne] r(3) dir(1) show ?thesis by (auto simp: listening_def h2(2))
  qed
qed

lemma startup_live:
  assumes "startup p h = (r, h')" "node_exists h p" "ho_live h p"
  shows "(\<exists>e. r = Inl e) \<and> ho_nodes h' p = ho_nodes h p \<and> ho_live h' = ho_live h"
proof -
  obtain q h1 where h1: "prepare_socket_dir p h = (q, h1)" by fastforce
  have k: "keeps p h h1" using prepare_keeps [OF h1] .
  then have "node_exists h1 p" "ho_live h1 p" using assms(2,3) by (simp_all add: keeps_def node_exists_def)
  then show ?thesis using assms(1) k by (cases q) (auto simp: startup_def h1 keeps_def)
qed

text \<open>
  C36: the daemon's endpoint is private and is not taken from another. A start that
  succeeds has found nobody listening, and leaves a socket of mode 0600 and of this
  user in a directory of mode 0700 that is not a link and belongs to this user, or was
  opened to root: a socket every client of the same user trusts. Where somebody
  listens, the start fails and leaves the socket alone.
\<close>

theorem startup_private:
  assumes "startup p h = (r, h')"
  shows "(is_ok r \<longrightarrow> \<not> (node_exists h p \<and> ho_live h p) \<and> listening h h' p
            \<and> (\<forall>uid. parse_u32 uid \<in> {None, Some (ho_uid h)} \<longrightarrow> client_may_trust (ho_nodes h') uid p))
    \<and> (node_exists h p \<and> ho_live h p \<longrightarrow> \<not> is_ok r \<and> ho_nodes h' p = ho_nodes h p \<and> ho_live h' = ho_live h)"
proof (intro conjI impI)
  assume "is_ok r"
  then have s: "startup p h = (Inr (), h')" using assms by (auto simp: is_ok_iff)
  note ok = startup_ok [OF s]
  then show "\<not> (node_exists h p \<and> ho_live h p)" "listening h h' p" by auto
  show "\<forall>uid. parse_u32 uid \<in> {None, Some (ho_uid h)} \<longrightarrow> client_may_trust (ho_nodes h') uid p"
    using ok trusted_private [of "ho_nodes h'" p "ho_uid h"] by (auto simp: listening_def)
qed (use startup_live [OF assms] in \<open>auto simp: is_ok_iff\<close>)

definition sample_host :: host where
  "sample_host = \<lparr> ho_nodes = [''/run/u'' \<mapsto> \<lparr> sn_kind = NkDir, sn_mode = 0x1ED, sn_uid = 1000 \<rparr>,
       ''/run/u/notes'' \<mapsto> \<lparr> sn_kind = NkOther, sn_mode = 0x1A4, sn_uid = 1000 \<rparr>],
     ho_live = (\<lambda>_. False), ho_uid = 1000, ho_umask = 0x12, ho_refuses = (\<lambda>_ _. None) \<rparr>"

lemma sample_start: "is_ok (fst (startup ''/run/u/murl/s'' sample_host))"
  by code_simp

theorem startup_private_witness:
  "client_may_trust (ho_nodes (snd (startup ''/run/u/murl/s'' sample_host))) ''1000'' ''/run/u/murl/s''"
proof -
  have u: "ho_uid sample_host = 1000" by (simp add: sample_host_def)
  have "parse_u32 ''1000'' = Some 1000" by code_simp
  then show ?thesis
    using startup_private [of "''/run/u/murl/s''" sample_host, OF prod.collapse [symmetric]] sample_start by (simp add: u)
qed

text \<open>Only a socket nobody listens on is meant to be removed. Whatever is not live is: a file
  named by mistake is deleted. The directory above it becomes 0700, also when it was not made
  for the daemon.\<close>

lemma startup_deletes_file:
  "\<exists>h'. startup ''/run/u/notes'' sample_host = (Inr (), h')
     \<and> map_option sn_kind (ho_nodes sample_host ''/run/u/notes'') = Some NkOther
     \<and> map_option sn_kind (ho_nodes h' ''/run/u/notes'') = Some NkSocket
     \<and> map_option sn_mode (ho_nodes sample_host ''/run/u'') = Some 0x1ED
     \<and> map_option sn_mode (ho_nodes h' ''/run/u'') = Some 0x1C0"
proof -
  let ?s = "startup ''/run/u/notes'' sample_host"
  have "is_ok (fst ?s)" by code_simp
  then obtain h' where s: "?s = (Inr (), h')" by (cases ?s) (auto simp: is_ok_iff)
  have "map_option sn_kind (ho_nodes (snd ?s) ''/run/u/notes'') = Some NkSocket" by code_simp
  moreover have "map_option sn_mode (ho_nodes (snd ?s) ''/run/u'') = Some 0x1C0" by code_simp
  moreover have "map_option sn_kind (ho_nodes sample_host ''/run/u/notes'') = Some NkOther" by code_simp
  moreover have "map_option sn_mode (ho_nodes sample_host ''/run/u'') = Some 0x1ED" by code_simp
  ultimately show ?thesis unfolding s by simp
qed

text \<open>A relative socket path without a directory cannot be used: its parent is the empty path.\<close>

lemma relative_socket_refused:
  assumes "ho_nodes h [] = None"
  shows "startup ''murl.sock'' h = (Inl (EIo (io_message IoNotFound)), h)"
proof -
  have "path_parent ''murl.sock'' = Some []" by code_simp
  then show ?thesis using assms by (simp add: startup_def prepare_socket_dir_def node_exists_def io_step_def)
qed

section \<open>The accept loop\<close>

lemma serve_incoming_bounded:
  "\<exists>sent t k. serve_incoming ctx cs s = (False, sent, t) \<and> k \<le> 32 * length cs \<and> advanced k s t \<and> length sent \<le> length cs"
proof (induction ctx cs s rule: serve_incoming.induct)
  case (2 ctx input now cs s)
  let ?ls = "read_lines (take (connection_budget 32) input)"
  obtain out sent t k where c: "serve_connection ctx input now 32 s = (out, sent, t)" "out \<noteq> Panicked" "k \<le> 32" "advanced k s t"
    using serve_lines_bounded [of ctx now 32 ?ls s] unfolding serve_connection_def by blast
  from 2 [OF c(1) [symmetric] refl c(2)] obtain rest u j where
    r: "serve_incoming ctx cs t = (False, rest, u)" "j \<le> 32 * length cs" "advanced j t u" "length rest \<le> length cs"
    by blast
  show ?case using c r advanced_trans [OF c(4) r(3)] by (intro exI [of _ "sent # rest"] exI [of _ u] exI [of _ "k + j"]) simp
qed (simp_all, (metis le_SucI trans_le_add2)+)

end
