(* ===== verification/Bundle.thy ===== *)
theory Bundle
  imports Protocol
begin

text \<open>
  Bundles, \<open>murl-core/src/bundle.rs\<close>: one file with a destination and every manifest it
  composes, each as its exact bytes. Building one from a resolution, writing it, and the
  checks a received one has to pass.
\<close>

section \<open>The documents\<close>

definition BUNDLE_VERSION :: string where
  "BUNDLE_VERSION = ''0.2''"

definition MAX_BUNDLE_ENTRIES :: nat where
  "MAX_BUNDLE_ENTRIES = 64"

record bundle_entry =
  be_identity :: "string option"
  be_name :: string
  be_integrity :: string
  be_bytes :: string

record bundle_doc =
  bu_version :: string
  bu_root :: "string option"
  bu_entries :: "bundle_entry list"

definition de_entry :: "json \<Rightarrow> string + bundle_entry" where
  "de_entry v =
     and_then (fields_of [''identity'', ''name'', ''integrity'', ''bytes''] v) (\<lambda>f.
     and_then (optional de_string f ''identity'') (\<lambda>identity.
     and_then (required de_string f ''name'') (\<lambda>name.
     and_then (required de_string f ''integrity'') (\<lambda>integrity.
     and_then (required de_string f ''bytes'') (\<lambda>bytes.
       Inr \<lparr> be_identity = identity, be_name = name, be_integrity = integrity, be_bytes = bytes \<rparr>)))))"

definition de_bundle :: "json \<Rightarrow> string + bundle_doc" where
  "de_bundle v =
     and_then (fields_of [''bundleVersion'', ''root'', ''entries''] v) (\<lambda>f.
     and_then (required de_string f ''bundleVersion'') (\<lambda>version.
     and_then (optional de_string f ''root'') (\<lambda>root.
     and_then (required (de_vec de_entry) f ''entries'') (\<lambda>entries.
       Inr \<lparr> bu_version = version, bu_root = root, bu_entries = entries \<rparr>))))"

text \<open>The derived \<open>Serialize\<close>, members in declaration order; an absent option is left out.\<close>

definition opt_member :: "string \<Rightarrow> string option \<Rightarrow> (string \<times> json) list" where
  "opt_member k v = (case v of None \<Rightarrow> [] | Some s \<Rightarrow> [(k, JStr s)])"

definition entry_members :: "bundle_entry \<Rightarrow> (string \<times> json) list" where
  "entry_members e =
     opt_member ''identity'' (be_identity e)
     @ [(''name'', JStr (be_name e)), (''integrity'', JStr (be_integrity e)), (''bytes'', JStr (be_bytes e))]"

definition bundle_members :: "bundle_doc \<Rightarrow> (string \<times> json) list" where
  "bundle_members b =
     [(''bundleVersion'', JStr (bu_version b))] @ opt_member ''root'' (bu_root b)
     @ [(''entries'', JArr (map (\<lambda>e. JObj (entry_members e)) (bu_entries b)))]"

text \<open>\<open>serde_json::to_vec_pretty\<close>: two blanks per level, empty containers closed at once.\<close>

definition newline :: "nat \<Rightarrow> string" where
  "newline depth = LF # replicate (2 * depth) CHR '' ''"

fun pretty :: "ext \<Rightarrow> nat \<Rightarrow> json \<Rightarrow> string"
  and pretty_items :: "ext \<Rightarrow> nat \<Rightarrow> bool \<Rightarrow> json list \<Rightarrow> string"
  and pretty_members :: "ext \<Rightarrow> nat \<Rightarrow> bool \<Rightarrow> (string \<times> json) list \<Rightarrow> string"
where
  "pretty x d (JArr (v # vs)) = ''['' @ pretty_items x (d + 1) True (v # vs) @ newline d @ '']''"
| "pretty x d (JObj (kv # m)) = ''{'' @ pretty_members x (d + 1) True (kv # m) @ newline d @ ''}''"
| "pretty x d v = json_text x v"
| "pretty_items x d first [] = []"
| "pretty_items x d first (v # vs) = (if first then [] else '','') @ newline d @ pretty x d v @ pretty_items x d False vs"
| "pretty_members x d first [] = []"
| "pretty_members x d first ((k, v) # m) =
     (if first then [] else '','') @ newline d @ write_string k @ '': '' @ pretty x d v @ pretty_members x d False m"

text \<open>The visitor events of the text that is written for a value.\<close>

fun as_raw :: "json \<Rightarrow> raw" where
  "as_raw JNull = RUnit"
| "as_raw (JBool b) = RBool b"
| "as_raw (JNum (NInt i)) = (if 0 \<le> i then RU64 i else RI64 i)"
| "as_raw (JNum (NFloat f)) = RF64 f"
| "as_raw (JStr s) = RStr s"
| "as_raw (JArr vs) = RSeq (map as_raw vs)"
| "as_raw (JObj m) = RMap (map (\<lambda>(k, v). (k, as_raw v)) m)"

definition to_json_bytes :: "ext \<Rightarrow> bundle_doc \<Rightarrow> bytes" where
  "to_json_bytes x b = pretty x 0 (JObj (bundle_members b)) @ [LF]"

section \<open>Building and checking\<close>

definition entry_of :: "ext \<Rightarrow> resolved_node \<Rightarrow> bundle_entry" where
  "entry_of x n = \<lparr> be_identity = rn_identity n, be_name = md_name (mf_doc (rn_manifest n)),
     be_integrity = make_integrity x (rn_raw_bytes n), be_bytes = x_b64_encode x (rn_raw_bytes n) \<rparr>"

text \<open>The outer \<open>None\<close> is the panic on a resolution without nodes.\<close>

definition from_resolution :: "ext \<Rightarrow> resolution \<Rightarrow> (error + bundle_doc) option" where
  "from_resolution x r =
     (if MAX_BUNDLE_ENTRIES < length (rs_nodes r)
      then Some (Inl (ELimitExceeded (''resolution has '' @ dec_of_nat (length (rs_nodes r)) @ '' manifests, bundle limit is ''
             @ dec_of_nat MAX_BUNDLE_ENTRIES)))
      else
        map_option (\<lambda>root. Inr \<lparr> bu_version = BUNDLE_VERSION, bu_root = rn_identity root,
            bu_entries = map (entry_of x) (rs_nodes r) \<rparr>) (root_node r))"

definition entry_decode :: "ext \<Rightarrow> limits \<Rightarrow> bundle_entry \<Rightarrow> error + bytes" where
  "entry_decode x lim e =
     and_then (map_err (\<lambda>m. EManifest (''bundle entry '' @ quoted (be_name e) @ '': bad base64: '' @ m)) (x_b64_decode x (be_bytes e)))
       (\<lambda>b. if max_manifest_bytes lim < length b
            then Inl (ELimitExceeded (''bundle entry '' @ quoted (be_name e) @ '' is '' @ dec_of_nat (length b) @ '' bytes, limit is ''
                   @ dec_of_nat (max_manifest_bytes lim)))
            else Inr b)"

text \<open>The identity of an entry: canonical, and not seen before.\<close>

definition check_entry_identity :: "nat \<Rightarrow> string list \<Rightarrow> string option \<Rightarrow> error + string list" where
  "check_entry_identity i seen ident =
     (case ident of
        None \<Rightarrow> Inr seen
      | Some s \<Rightarrow>
          and_then (map_err EParse (murl_parse s)) (\<lambda>m.
            if identity m \<noteq> s
            then Inl (EValidation (''bundle entry '' @ dec_of_nat i @ '' identity '' @ quoted s @ '' is not canonical''))
            else if s \<in> set seen then Inl (EValidation (''bundle contains duplicate identity '' @ quoted s))
            else Inr (s # seen)))"

definition check_entry :: "ext \<Rightarrow> limits \<Rightarrow> nat \<Rightarrow> string list \<Rightarrow> bundle_entry \<Rightarrow> error + string list" where
  "check_entry x lim i seen e =
     and_then (entry_decode x lim e) (\<lambda>b.
     and_then (map_err (\<lambda>err. ETrust (''bundle entry '' @ dec_of_nat i @ '' ('' @ quoted (be_name e) @ ''): '' @ error_display err))
                (check_integrity x b (be_integrity e))) (\<lambda>_.
     and_then (manifest_from_slice (x_events x) lim b) (\<lambda>mf.
     and_then (into_result (validate x mf)) (\<lambda>_.
       check_entry_identity i seen (be_identity e)))))"

fun check_entries :: "ext \<Rightarrow> limits \<Rightarrow> nat \<Rightarrow> string list \<Rightarrow> bundle_entry list \<Rightarrow> error + unit" where
  "check_entries x lim i seen [] = Inr ()"
| "check_entries x lim i seen (e # es) =
     and_then (check_entry x lim i seen e) (\<lambda>seen'. check_entries x lim (i + 1) seen' es)"

text \<open>The cap is eight manifests; the product saturates at 64 bits.\<close>

definition bundle_cap :: "limits \<Rightarrow> nat" where
  "bundle_cap lim = min (max_manifest_bytes lim * min MAX_BUNDLE_ENTRIES 8) (2 ^ 64 - 1)"

definition bundle_from_slice :: "ext \<Rightarrow> limits \<Rightarrow> bytes \<Rightarrow> error + bundle_doc" where
  "bundle_from_slice x lim bytes =
     (if bundle_cap lim < length bytes
      then Inl (ELimitExceeded (''bundle is '' @ dec_of_nat (length bytes) @ '' bytes, limit is '' @ dec_of_nat (bundle_cap lim)))
      else
        and_then (map_err (\<lambda>e. EManifest (''invalid bundle JSON: '' @ e)) (from_slice_strict (x_events x) bytes)) (\<lambda>v.
        and_then (map_err (\<lambda>e. EManifest (''bundle schema mismatch: '' @ e)) (de_bundle v)) (\<lambda>b.
          if bu_version b \<noteq> BUNDLE_VERSION
          then Inl (EValidation (''unsupported bundle version '' @ quoted (bu_version b) @ '' (expected '' @ quoted BUNDLE_VERSION @ '')''))
          else if bu_entries b = [] then Inl (EValidation ''bundle carries no manifests'')
          else if MAX_BUNDLE_ENTRIES < length (bu_entries b)
          then Inl (ELimitExceeded (''bundle carries '' @ dec_of_nat (length (bu_entries b)) @ '' manifests, limit is ''
                 @ dec_of_nat MAX_BUNDLE_ENTRIES))
          else
            and_then (check_entries x lim 0 [] (bu_entries b)) (\<lambda>_.
              case bu_root b of
                None \<Rightarrow> Inr b
              | Some root \<Rightarrow>
                  if list_ex (\<lambda>e. be_identity e = Some root) (bu_entries b) then Inr b
                  else Inl (EValidation (''bundle root '' @ quoted root @ '' is not among its entries''))))))"

text \<open>Slicing a digest shorter than sixteen characters would panic; a SHA-256 digest has 64.\<close>

definition fingerprint :: "ext \<Rightarrow> bytes \<Rightarrow> string" where
  "fingerprint x b = take 16 (sha256_hex x b)"

section \<open>Reading back what was written\<close>

text \<open>Reading sorts the members; what a struct is read from does not depend on their order.\<close>

lemma visit_members:
  assumes "distinct (map fst m)" "list_all2 (\<lambda>p q. fst q = fst p \<and> visit (as_raw (snd p)) = Inr (snd q)) m m'"
  shows "\<exists>l. visit (as_raw (JObj m)) = Inr (JObj l) \<and> map_of l = map_of m'"
proof -
  let ?rs = "map (\<lambda>(k, v). (k, as_raw v)) m"
  have fst: "map fst ?rs = map fst m" "map fst m' = map fst m"
    using assms(2) by (auto simp: comp_def split_def list_all2_conv_all_nth intro: nth_equalityI)
  have ok: "\<forall>kx\<in>set ?rs. is_ok (visit (snd kx))"
    using assms(2) by (fastforce simp: list_all2_conv_all_nth in_set_conv_nth split_def is_ok_iff)
  obtain l where l: "visit_map [] ?rs = Inr l"
    using visit_map_total [of ?rs "[]"] assms(1) ok unfolding fst(1) [symmetric] by (auto simp: is_ok_iff)
  note spec = visit_map_spec [OF l wf_map_Nil]
  have "map_of l k = map_of m' k" for k
  proof (cases "k \<in> set (map fst m)")
    case True
    then obtain i where i: "i < length m" "k = fst (m ! i)" by (auto simp: in_set_conv_nth)
    have q: "fst (m' ! i) = k" "visit (as_raw (snd (m ! i))) = Inr (snd (m' ! i))" "i < length m'"
      using assms(2) i by (auto simp: list_all2_conv_all_nth)
    have "(k, as_raw (snd (m ! i))) \<in> set ?rs" using i by (auto simp: split_def intro!: image_eqI [of _ _ "m ! i"])
    then have "map_of l k = Some (snd (m' ! i))" using spec q(2) by fastforce
    moreover have "map_of m' k = Some (snd (m' ! i))"
      using assms(1) q fst(2) by (metis map_of_eq_Some_iff nth_mem prod.collapse)
    ultimately show ?thesis by simp
  next
    case False
    then have "k \<notin> fst ` set ?rs" using fst(1) by (metis set_map)
    moreover have "map_of m' k = None" using False fst(2) by (metis map_of_eq_None_iff set_map)
    ultimately show ?thesis using spec by simp
  qed
  then show ?thesis using l by auto
qed

section \<open>What an accepted bundle is\<close>

definition canonical_identity :: "string \<Rightarrow> bool" where
  "canonical_identity s \<longleftrightarrow> (case murl_parse s of Inr m \<Rightarrow> identity m = s | Inl _ \<Rightarrow> False)"

text \<open>An entry in order: its bytes decode within the cap, match the digest, and are a manifest
  that satisfies the specification; its identity, if any, is canonical.\<close>

definition entry_ok :: "ext \<Rightarrow> limits \<Rightarrow> bundle_entry \<Rightarrow> bool" where
  "entry_ok x lim e \<longleftrightarrow>
     (\<exists>b mf. x_b64_decode x (be_bytes e) = Inr b \<and> length b \<le> max_manifest_bytes lim
        \<and> check_integrity x b (be_integrity e) = Inr ()
        \<and> manifest_from_slice (x_events x) lim b = Inr mf \<and> wf_manifest x mf)
     \<and> opt_all canonical_identity (be_identity e)"

definition entry_ids :: "bundle_entry list \<Rightarrow> string list" where
  "entry_ids es = List.map_filter be_identity es"

lemma into_result_iff: "into_result (validate x mf) = Inr rep \<longleftrightarrow> rep = validate x mf \<and> wf_manifest x mf"
  using validate_errors [of x mf] by (auto simp: into_result_def is_valid_def Let_def split: if_splits)

lemma check_entry_iff:
  "check_entry x lim i seen e = Inr seen' \<longleftrightarrow>
     entry_ok x lim e \<and> (case be_identity e of None \<Rightarrow> seen' = seen | Some s \<Rightarrow> s \<notin> set seen \<and> seen' = s # seen)"
proof -
  have d: "entry_decode x lim e = Inr b \<longleftrightarrow> x_b64_decode x (be_bytes e) = Inr b \<and> length b \<le> max_manifest_bytes lim" for b
    by (cases "x_b64_decode x (be_bytes e)") (auto simp: entry_decode_def)
  have ident: "check_entry_identity i seen (be_identity e) = Inr seen' \<longleftrightarrow>
      opt_all canonical_identity (be_identity e)
      \<and> (case be_identity e of None \<Rightarrow> seen' = seen | Some s \<Rightarrow> s \<notin> set seen \<and> seen' = s # seen)"
    by (auto simp: check_entry_identity_def canonical_identity_def split: option.split sum.split)
  show ?thesis
    unfolding check_entry_def entry_ok_def
    by (simp add: d into_result_iff ident) blast
qed

lemma check_entries_iff:
  "check_entries x lim i seen es = Inr () \<longleftrightarrow>
     list_all (entry_ok x lim) es \<and> distinct (entry_ids es) \<and> set (entry_ids es) \<inter> set seen = {}"
proof (induction es arbitrary: i seen)
  case (Cons e es)
  show ?case
    by (cases "be_identity e") (auto simp: check_entry_iff Cons.IH entry_ids_def map_filter_simps)
qed (simp add: entry_ids_def map_filter_simps)

lemma bundle_from_slice_iff:
  "bundle_from_slice x lim bytes = Inr b \<longleftrightarrow>
     length bytes \<le> bundle_cap lim
     \<and> (\<exists>v. from_slice_strict (x_events x) bytes = Inr v \<and> de_bundle v = Inr b)
     \<and> bu_version b = BUNDLE_VERSION \<and> 1 \<le> length (bu_entries b) \<and> length (bu_entries b) \<le> 64
     \<and> list_all (entry_ok x lim) (bu_entries b) \<and> distinct (entry_ids (bu_entries b))
     \<and> opt_all (\<lambda>root. root \<in> set (entry_ids (bu_entries b))) (bu_root b)"
proof -
  have ne: "bu_entries b \<noteq> [] \<longleftrightarrow> 1 \<le> length (bu_entries b)" for b :: bundle_doc
    by (cases "bu_entries b") simp_all
  have root: "list_ex (\<lambda>e. be_identity e = Some root) es \<longleftrightarrow> root \<in> set (entry_ids es)" for root es
    by (induction es) (auto simp: entry_ids_def map_filter_simps split: option.splits)
  have fin: "(case bu_root c of None \<Rightarrow> Inr c
       | Some root \<Rightarrow> if list_ex (\<lambda>e. be_identity e = Some root) (bu_entries c) then Inr c else Inl (err root)) = Inr b
     \<longleftrightarrow> b = c \<and> opt_all (\<lambda>root. root \<in> set (entry_ids (bu_entries b))) (bu_root b)" for c and err :: "string \<Rightarrow> error"
    by (cases "bu_root c") (auto simp: root)
  show ?thesis
    unfolding bundle_from_slice_def
    by (auto simp: fin check_entries_iff ne MAX_BUNDLE_ENTRIES_def split: if_splits) (intro exI [of _ b], simp)
qed

text \<open>
  A bundle is no way around validation. It is accepted exactly when it is within the
  cap, parses strictly, has the version, between one and 64 entries, each of which decodes
  within the manifest cap, matches its digest, is a manifest that satisfies the
  specification, and has no identity or a canonical one; no identity occurs twice, and
  the root, if named, is among the entries.
\<close>

lemma bundle_accepted_iff:
  "bundle_from_slice x lim bytes = Inr b \<longleftrightarrow>
     length bytes \<le> bundle_cap lim
     \<and> (\<exists>v. from_slice_strict (x_events x) bytes = Inr v \<and> de_bundle v = Inr b)
     \<and> bu_version b = BUNDLE_VERSION \<and> 1 \<le> length (bu_entries b) \<and> length (bu_entries b) \<le> 64
     \<and> list_all (entry_ok x lim) (bu_entries b) \<and> distinct (entry_ids (bu_entries b))
     \<and> opt_all (\<lambda>root. root \<in> set (entry_ids (bu_entries b))) (bu_root b)"
  by (rule bundle_from_slice_iff)

end
