(* ===== verification/Config.thy ===== *)
theory Config
  imports Bundle Consent
begin

text \<open>
  User configuration, \<open>murl-core/src/config.rs\<close>, and the commands that write it,
  \<open>murl-cli/src/commands/handler_cmd.rs\<close>. These files are read by serde straight from the
  tokenizer, not through the strict parser: unknown members are skipped and a known
  member may not occur twice. The messages are summaries of serde's.
\<close>

section \<open>Reading a struct from the tokenizer\<close>

definition raw_fields :: "string list \<Rightarrow> raw \<Rightarrow> string + (string \<Rightarrow> raw option)" where
  "raw_fields names r =
     (case r of
        RMap ms \<Rightarrow>
          if list_ex (\<lambda>k. 1 < length (filter (\<lambda>p. fst p = k) ms)) names then Inl ''duplicate field'' else Inr (map_of ms)
      | RSeq xs \<Rightarrow> if length xs \<le> length names then Inr (map_of (zip names xs)) else Inl ''invalid length''
      | _ \<Rightarrow> Inl ''invalid type: expected struct'')"

definition raw_default :: "'a \<Rightarrow> (raw \<Rightarrow> string + 'a) \<Rightarrow> (string \<Rightarrow> raw option) \<Rightarrow> string \<Rightarrow> string + 'a" where
  "raw_default d rd f k = (case f k of None \<Rightarrow> Inr d | Some r \<Rightarrow> rd r)"

definition raw_option :: "(raw \<Rightarrow> string + 'a) \<Rightarrow> raw \<Rightarrow> string + 'a option" where
  "raw_option rd r = (case r of RUnit \<Rightarrow> Inr None | _ \<Rightarrow> and_then (rd r) (\<lambda>a. Inr (Some a)))"

definition raw_uint :: "nat \<Rightarrow> raw \<Rightarrow> string + nat" where
  "raw_uint bits r =
     (case (case r of RU64 i \<Rightarrow> Some i | RI64 i \<Rightarrow> Some i | _ \<Rightarrow> None) of
        Some i \<Rightarrow> if 0 \<le> i \<and> i < 2 ^ bits then Inr (nat i) else Inl ''invalid value: integer out of range''
      | None \<Rightarrow> Inl ''invalid type: expected an integer'')"

definition raw_bool :: "raw \<Rightarrow> string + bool" where
  "raw_bool r = (case r of RBool b \<Rightarrow> Inr b | _ \<Rightarrow> Inl ''invalid type: expected a boolean'')"

definition raw_string :: "raw \<Rightarrow> string + string" where
  "raw_string r = (case r of RStr s \<Rightarrow> Inr s | _ \<Rightarrow> Inl ''invalid type: expected a string'')"

definition raw_argv :: "raw \<Rightarrow> string + string list" where
  "raw_argv r = (case r of RSeq xs \<Rightarrow> traverse raw_string xs | _ \<Rightarrow> Inl ''invalid type: expected a sequence'')"

text \<open>A unit variant is its name, or an object with that one member and a null.\<close>

definition raw_mode :: "raw \<Rightarrow> string + consent_mode" where
  "raw_mode r =
     (let named = (\<lambda>s. if s = ''allow'' then Inr CAllow else if s = ''prompt'' then Inr CPrompt
                       else if s = ''deny'' then Inr CDeny else Inl ''unknown variant'') in
      case r of RStr s \<Rightarrow> named s | RMap [(s, RUnit)] \<Rightarrow> named s | _ \<Rightarrow> Inl ''expected a consent mode'')"

section \<open>config.json\<close>

definition LIMITS_FIELDS :: "string list" where
  "LIMITS_FIELDS = [''maxDepth'', ''maxTotalResources'', ''maxNestedManifests'', ''maxManifestBytes'', ''fetchTimeoutSecs'',
     ''cacheTtlSecs'', ''dispatchStaggerMs'', ''maxRedirects'']"

definition de_limits :: "raw \<Rightarrow> string + limits" where
  "de_limits r =
     and_then (raw_fields LIMITS_FIELDS r) (\<lambda>f.
     and_then (raw_default (max_depth default_limits) (raw_uint 32) f ''maxDepth'') (\<lambda>a.
     and_then (raw_default (max_total_resources default_limits) (raw_uint 64) f ''maxTotalResources'') (\<lambda>b.
     and_then (raw_default (max_nested_manifests default_limits) (raw_uint 64) f ''maxNestedManifests'') (\<lambda>c.
     and_then (raw_default (max_manifest_bytes default_limits) (raw_uint 64) f ''maxManifestBytes'') (\<lambda>d.
     and_then (raw_default (fetch_timeout_secs default_limits) (raw_uint 64) f ''fetchTimeoutSecs'') (\<lambda>e.
     and_then (raw_default (cache_ttl_secs default_limits) (raw_uint 64) f ''cacheTtlSecs'') (\<lambda>g.
     and_then (raw_default (dispatch_stagger_ms default_limits) (raw_uint 64) f ''dispatchStaggerMs'') (\<lambda>h.
     and_then (raw_default (max_redirects default_limits) (raw_uint 32) f ''maxRedirects'') (\<lambda>i.
       Inr \<lparr> max_depth = a, max_total_resources = b, max_nested_manifests = c, max_manifest_bytes = d,
         fetch_timeout_secs = e, cache_ttl_secs = g, dispatch_stagger_ms = h, max_redirects = i \<rparr>)))))))))"

definition POLICY_FIELDS :: "string list" where
  "POLICY_FIELDS = [''safe'', ''sensitive'', ''dangerous'', ''dangerousRequiresTrust'', ''remoteFilesystemRefs'']"

definition de_policy :: "raw \<Rightarrow> string + policy" where
  "de_policy r =
     and_then (raw_fields POLICY_FIELDS r) (\<lambda>f.
     and_then (raw_default (po_safe default_policy) raw_mode f ''safe'') (\<lambda>a.
     and_then (raw_default (po_sensitive default_policy) raw_mode f ''sensitive'') (\<lambda>b.
     and_then (raw_default (po_dangerous default_policy) raw_mode f ''dangerous'') (\<lambda>c.
     and_then (raw_default (po_dangerous_requires_trust default_policy) raw_bool f ''dangerousRequiresTrust'') (\<lambda>d.
     and_then (raw_default (po_remote_filesystem_refs default_policy) raw_mode f ''remoteFilesystemRefs'') (\<lambda>e.
       Inr \<lparr> po_safe = a, po_sensitive = b, po_dangerous = c, po_dangerous_requires_trust = d, po_remote_filesystem_refs = e \<rparr>))))))"

record user_config =
  uc_limits :: "limits option"
  uc_policy :: "policy option"

definition de_user_config :: "raw \<Rightarrow> string + user_config" where
  "de_user_config r =
     and_then (raw_fields [''limits'', ''policy''] r) (\<lambda>f.
     and_then (raw_default None (raw_option de_limits) f ''limits'') (\<lambda>l.
     and_then (raw_default None (raw_option de_policy) f ''policy'') (\<lambda>p.
       Inr \<lparr> uc_limits = l, uc_policy = p \<rparr>)))"

text \<open>A missing file is the default, everything else that fails is an error.\<close>

definition load_file :: "(raw \<Rightarrow> string + 'a) \<Rightarrow> 'a \<Rightarrow> string \<Rightarrow> (bytes \<Rightarrow> string + raw) \<Rightarrow> io_error + bytes \<Rightarrow> error + 'a" where
  "load_file rd dflt path events contents =
     (case contents of
        Inr b \<Rightarrow> map_err (\<lambda>e. EManifest (''malformed '' @ path @ '': '' @ e)) (and_then (events b) rd)
      | Inl IoNotFound \<Rightarrow> Inr dflt
      | Inl e \<Rightarrow> Inl (EIo (io_message e)))"

definition user_config_load :: "string \<Rightarrow> (bytes \<Rightarrow> string + raw) \<Rightarrow> io_error + bytes \<Rightarrow> error + user_config" where
  "user_config_load = load_file de_user_config \<lparr> uc_limits = None, uc_policy = None \<rparr>"

definition config_limits :: "user_config \<Rightarrow> limits" where
  "config_limits c = (case uc_limits c of Some l \<Rightarrow> l | None \<Rightarrow> default_limits)"

definition config_policy :: "user_config \<Rightarrow> policy" where
  "config_policy c = (case uc_policy c of Some p \<Rightarrow> p | None \<Rightarrow> default_policy)"

section \<open>handlers.json\<close>

record handlers_file =
  hf_open :: "string list option"
  hf_terminal :: "string list option"
  hf_ssh :: "string list option"
  hf_remote_desktop :: "string list option"
  hf_custom :: "(string \<times> string list) list"

definition no_handlers :: handlers_file where
  "no_handlers = \<lparr> hf_open = None, hf_terminal = None, hf_ssh = None, hf_remote_desktop = None, hf_custom = [] \<rparr>"

text \<open>A \<open>BTreeMap\<close> keeps the last of several equal keys.\<close>

definition btree_of :: "('k::linorder \<times> 'v) list \<Rightarrow> ('k \<times> 'v) list" where
  "btree_of kvs = fold (\<lambda>(k, v) m. fst (map_insert k v m)) kvs []"

definition raw_custom :: "raw \<Rightarrow> string + (string \<times> string list) list" where
  "raw_custom r =
     (case r of
        RMap ms \<Rightarrow> and_then (traverse (\<lambda>(k, v). and_then (raw_argv v) (\<lambda>a. Inr (k, a))) ms) (\<lambda>kvs. Inr (btree_of kvs))
      | _ \<Rightarrow> Inl ''invalid type: expected a map'')"

definition HANDLERS_FIELDS :: "string list" where
  "HANDLERS_FIELDS = [''open'', ''terminal'', ''ssh'', ''remoteDesktop'', ''custom'']"

definition de_handlers :: "raw \<Rightarrow> string + handlers_file" where
  "de_handlers r =
     and_then (raw_fields HANDLERS_FIELDS r) (\<lambda>f.
     and_then (raw_default None (raw_option raw_argv) f ''open'') (\<lambda>a.
     and_then (raw_default None (raw_option raw_argv) f ''terminal'') (\<lambda>b.
     and_then (raw_default None (raw_option raw_argv) f ''ssh'') (\<lambda>c.
     and_then (raw_default None (raw_option raw_argv) f ''remoteDesktop'') (\<lambda>d.
     and_then (raw_default [] raw_custom f ''custom'') (\<lambda>e.
       Inr \<lparr> hf_open = a, hf_terminal = b, hf_ssh = c, hf_remote_desktop = d, hf_custom = e \<rparr>))))))"

definition handlers_load :: "string \<Rightarrow> (bytes \<Rightarrow> string + raw) \<Rightarrow> io_error + bytes \<Rightarrow> error + handlers_file" where
  "handlers_load = load_file de_handlers no_handlers"

definition argv_json :: "string list option \<Rightarrow> json" where
  "argv_json a = (case a of None \<Rightarrow> JNull | Some xs \<Rightarrow> jstr_list xs)"

definition handlers_json :: "handlers_file \<Rightarrow> json" where
  "handlers_json h = JObj [(''open'', argv_json (hf_open h)), (''terminal'', argv_json (hf_terminal h)), (''ssh'', argv_json (hf_ssh h)),
     (''remoteDesktop'', argv_json (hf_remote_desktop h)), (''custom'', JObj (map (\<lambda>(k, v). (k, jstr_list v)) (hf_custom h)))]"

definition handlers_save :: "ext \<Rightarrow> path \<Rightarrow> handlers_file \<Rightarrow> fs \<Rightarrow> (error + unit) \<times> fs" where
  "handlers_save x p h f =
     (case fs_create_dir_all (butlast p) f of
        Inl e \<Rightarrow> (Inl (EIo (io_message e)), f)
      | Inr g \<Rightarrow>
          (case fs_write p (pretty x 0 (handlers_json h)) g of
             Inl e \<Rightarrow> (Inl (EIo (io_message e)), g)
           | Inr k \<Rightarrow> (Inr (), k)))"

definition to_opener :: "handlers_file \<Rightarrow> string \<Rightarrow> string option \<Rightarrow> opener_config" where
  "to_opener h os home =
     (let o0 = platform_default os home;
          o1 = (case hf_open h of Some a \<Rightarrow> o0\<lparr> oc_open_argv := a \<rparr> | None \<Rightarrow> o0)
      in o1\<lparr> oc_terminal_argv := hf_terminal h, oc_ssh_argv := hf_ssh h, oc_remote_desktop_argv := hf_remote_desktop h,
             oc_custom := hf_custom h \<rparr>)"

section \<open>murl handler\<close>

definition validate_argv :: "string list \<Rightarrow> error + unit" where
  "validate_argv argv =
     (if argv = [] \<or> trim (hd argv) = [] then Inl (EValidation ''handler argv must start with a program'') else Inr ())"

text \<open>Load, change, save; \<open>p\<close> is the path of the handlers file.\<close>

definition update_handlers :: "ext \<Rightarrow> path \<Rightarrow> (handlers_file \<Rightarrow> error + handlers_file) \<Rightarrow> fs \<Rightarrow> (error + unit) \<times> fs" where
  "update_handlers x p change f =
     (case and_then (handlers_load (join ''/'' p) (x_events x) (fs_read f p)) change of
        Inl e \<Rightarrow> (Inl e, f)
      | Inr h \<Rightarrow> handlers_save x p h f)"

definition set_handler ::
  "ext \<Rightarrow> path \<Rightarrow> (string list option \<Rightarrow> handlers_file \<Rightarrow> handlers_file) \<Rightarrow> string list \<Rightarrow> fs \<Rightarrow> (error + unit) \<times> fs" where
  "set_handler x p slot argv f =
     (case validate_argv argv of
        Inl e \<Rightarrow> (Inl e, f)
      | Inr _ \<Rightarrow> update_handlers x p (\<lambda>h. Inr (slot (Some argv) h)) f)"

definition set_terminal :: "ext \<Rightarrow> path \<Rightarrow> string list \<Rightarrow> fs \<Rightarrow> (error + unit) \<times> fs" where
  "set_terminal x p = set_handler x p (\<lambda>a h. h\<lparr> hf_terminal := a \<rparr>)"

definition set_ssh :: "ext \<Rightarrow> path \<Rightarrow> string list \<Rightarrow> fs \<Rightarrow> (error + unit) \<times> fs" where
  "set_ssh x p = set_handler x p (\<lambda>a h. h\<lparr> hf_ssh := a \<rparr>)"

definition set_remote_desktop :: "ext \<Rightarrow> path \<Rightarrow> string list \<Rightarrow> fs \<Rightarrow> (error + unit) \<times> fs" where
  "set_remote_desktop x p = set_handler x p (\<lambda>a h. h\<lparr> hf_remote_desktop := a \<rparr>)"

definition custom_name :: "string \<Rightarrow> string" where
  "custom_name k = (case strip_prefix ''custom:'' k of Some n \<Rightarrow> n | None \<Rightarrow> k)"

definition register :: "ext \<Rightarrow> path \<Rightarrow> string \<Rightarrow> string list \<Rightarrow> fs \<Rightarrow> (error + unit) \<times> fs" where
  "register x p k argv f =
     (case and_then (validate_argv argv) (\<lambda>_. map_err EValidation (kind_parse (''custom:'' @ custom_name k))) of
        Inl e \<Rightarrow> (Inl e, f)
      | Inr _ \<Rightarrow> update_handlers x p (\<lambda>h. Inr (h\<lparr> hf_custom := fst (map_insert (custom_name k) argv (hf_custom h)) \<rparr>)) f)"

definition handler_remove :: "ext \<Rightarrow> path \<Rightarrow> string \<Rightarrow> fs \<Rightarrow> (error + unit) \<times> fs" where
  "handler_remove x p k f =
     update_handlers x p (\<lambda>h.
       if map_of (hf_custom h) (custom_name k) = None
       then Inl (ENotFound (''no handler registered for custom:'' @ custom_name k))
       else Inr (h\<lparr> hf_custom := filter (\<lambda>e. fst e \<noteq> custom_name k) (hf_custom h) \<rparr>)) f"

text \<open>The subcommands of \<open>murl handler\<close> that change the file.\<close>

datatype handler_cmd =
    SetTerminal "string list"
  | SetSsh "string list"
  | SetRemoteDesktop "string list"
  | Register string "string list"
  | RemoveHandler string

fun handler_run :: "ext \<Rightarrow> path \<Rightarrow> handler_cmd \<Rightarrow> fs \<Rightarrow> (error + unit) \<times> fs" where
  "handler_run x p (SetTerminal argv) f = set_terminal x p argv f"
| "handler_run x p (SetSsh argv) f = set_ssh x p argv f"
| "handler_run x p (SetRemoteDesktop argv) f = set_remote_desktop x p argv f"
| "handler_run x p (Register k argv) f = register x p k argv f"
| "handler_run x p (RemoveHandler k) f = handler_remove x p k f"

section \<open>What a configuration says\<close>

text \<open>The member \<open>k\<close> of the policy in a configuration file.\<close>

definition policy_member :: "(bytes \<Rightarrow> string + raw) \<Rightarrow> io_error + bytes \<Rightarrow> string \<Rightarrow> raw option" where
  "policy_member events contents k =
     (case contents of
        Inl _ \<Rightarrow> None
      | Inr b \<Rightarrow>
          (case events b of
             Inl _ \<Rightarrow> None
           | Inr r \<Rightarrow>
               (case raw_fields [''limits'', ''policy''] r of
                  Inl _ \<Rightarrow> None
                | Inr f \<Rightarrow>
                    (case f ''policy'' of
                       None \<Rightarrow> None
                     | Some pr \<Rightarrow> (case raw_fields POLICY_FIELDS pr of Inl _ \<Rightarrow> None | Inr g \<Rightarrow> g k)))))"

definition tier_member :: "tier \<Rightarrow> string" where
  "tier_member t = (case t of Safe \<Rightarrow> ''safe'' | Sensitive \<Rightarrow> ''sensitive'' | Dangerous \<Rightarrow> ''dangerous'')"

lemma raw_default_iff:
  "raw_default d rd f k = Inr a \<longleftrightarrow> (case f k of None \<Rightarrow> a = d | Some r \<Rightarrow> rd r = Inr a)"
  by (auto simp: raw_default_def split: option.split)

lemma load_policy:
  assumes "user_config_load path events contents = Inr c"
  shows "config_policy c = default_policy \<or>
    (\<exists>b r f pr g. contents = Inr b \<and> events b = Inr r \<and> raw_fields [''limits'', ''policy''] r = Inr f \<and> f ''policy'' = Some pr
       \<and> raw_fields POLICY_FIELDS pr = Inr g \<and> de_policy pr = Inr (config_policy c))"
proof (cases "uc_policy c")
  case None
  then show ?thesis by (simp add: config_policy_def)
next
  case (Some p)
  obtain b r f where "contents = Inr b" "events b = Inr r" and f: "raw_fields [''limits'', ''policy''] r = Inr f"
    and d: "raw_default None (raw_option de_policy) f ''policy'' = Inr (Some p)"
    using assms Some by (auto simp: user_config_load_def load_file_def de_user_config_def split: sum.splits io_error.splits)
  moreover obtain pr where pr: "f ''policy'' = Some pr" "de_policy pr = Inr p"
    using d by (auto simp: raw_default_iff raw_option_def split: option.splits raw.splits)
  moreover obtain g where "raw_fields POLICY_FIELDS pr = Inr g" using pr(2) by (auto simp: de_policy_def)
  ultimately show ?thesis using Some by (auto simp: config_policy_def)
qed

text \<open>
  C30: the policy in force is never laxer by accident. A configuration that loads, allows
  a tier without asking, or the references of remote manifests to the file system, or drops the
  trust requirement, only where a member of exactly that name says so; otherwise the
  user is asked and trust is required. A file that exists and cannot be read or does not
  parse is an error, never the default.
\<close>

theorem config_explicit:
  assumes "user_config_load path events contents = Inr c"
  shows "(mode_for (config_policy c) t = CPrompt
        \<or> (\<exists>r. policy_member events contents (tier_member t) = Some r \<and> raw_mode r = Inr (mode_for (config_policy c) t)))
    \<and> (po_remote_filesystem_refs (config_policy c) = CPrompt
        \<or> (\<exists>r. policy_member events contents ''remoteFilesystemRefs'' = Some r \<and> raw_mode r = Inr (po_remote_filesystem_refs (config_policy c))))
    \<and> (po_dangerous_requires_trust (config_policy c) \<or> policy_member events contents ''dangerousRequiresTrust'' = Some (RBool False))
    \<and> (contents = Inl IoNotFound \<or> (\<exists>b r. contents = Inr b \<and> events b = Inr r \<and> de_user_config r = Inr c))"
proof -
  have loaded: "contents = Inl IoNotFound \<or> (\<exists>b r. contents = Inr b \<and> events b = Inr r \<and> de_user_config r = Inr c)"
    using assms by (auto simp: user_config_load_def load_file_def split: sum.splits io_error.splits)
  from load_policy [OF assms] show ?thesis
  proof
    assume "config_policy c = default_policy"
    then show ?thesis using loaded by (cases t) (simp_all add: default_policy_def mode_for_def)
  next
    assume "\<exists>b r f pr g. contents = Inr b \<and> events b = Inr r \<and> raw_fields [''limits'', ''policy''] r = Inr f \<and> f ''policy'' = Some pr
       \<and> raw_fields POLICY_FIELDS pr = Inr g \<and> de_policy pr = Inr (config_policy c)"
    then obtain b r f pr g where l: "contents = Inr b" "events b = Inr r" "raw_fields [''limits'', ''policy''] r = Inr f" "f ''policy'' = Some pr"
      and g: "raw_fields POLICY_FIELDS pr = Inr g" and p: "de_policy pr = Inr (config_policy c)" by blast
    have mem: "policy_member events contents k = g k" for k by (simp add: policy_member_def l g)
    obtain a1 a2 a3 a4 a5 where c: "config_policy c = \<lparr> po_safe = a1, po_sensitive = a2, po_dangerous = a3, po_dangerous_requires_trust = a4, po_remote_filesystem_refs = a5 \<rparr>"
      by (cases "config_policy c")
    have d: "raw_default CPrompt raw_mode g ''safe'' = Inr a1" "raw_default CPrompt raw_mode g ''sensitive'' = Inr a2"
        "raw_default CPrompt raw_mode g ''dangerous'' = Inr a3" "raw_default True raw_bool g ''dangerousRequiresTrust'' = Inr a4"
        "raw_default CPrompt raw_mode g ''remoteFilesystemRefs'' = Inr a5"
      using p unfolding c by (auto simp: de_policy_def g default_policy_def)
    have mode: "a = CPrompt \<or> (\<exists>r. policy_member events contents k = Some r \<and> raw_mode r = Inr a)" if "raw_default CPrompt raw_mode g k = Inr a" for a k
      using that by (auto simp: raw_default_iff mem split: option.splits)
    have "a4 \<or> policy_member events contents ''dangerousRequiresTrust'' = Some (RBool False)"
      using d(4) by (auto simp: raw_default_iff mem raw_bool_def split: option.splits raw.splits)
    then show ?thesis
      using mode [OF d(1)] mode [OF d(2)] mode [OF d(3)] mode [OF d(5)] loaded
      by (cases t) (simp_all add: c mode_for_def tier_member_def)
  qed
qed

text \<open>A misspelt member is skipped: the mode it meant to set stays at its default.\<close>

lemma config_typo_ignored:
  "case user_config_load ''config.json'' (\<lambda>_. Inr (RMap [(''policy'', RMap [(''dangrous'', RStr ''deny'')])])) (Inr ''{}'') of
     Inr c \<Rightarrow> po_dangerous (config_policy c) = CPrompt
   | Inl _ \<Rightarrow> False"
  "case user_config_load ''config.json'' (\<lambda>_. Inr (RMap [(''polcy'', RMap [(''dangerous'', RStr ''deny'')])])) (Inr ''{}'') of
     Inr c \<Rightarrow> po_dangerous (config_policy c) = CPrompt
   | Inl _ \<Rightarrow> False"
  by code_simp+

theorem config_explicit_witness:
  "\<exists>c. user_config_load ''config.json'' (\<lambda>_. Inr (RMap [(''policy'', RMap [(''safe'', RStr ''allow'')])])) (Inr ''{}'') = Inr c
     \<and> mode_for (config_policy c) Safe = CAllow \<and> mode_for (config_policy c) Dangerous = CPrompt \<and> po_dangerous_requires_trust (config_policy c)"
proof -
  let ?ev = "\<lambda>_ :: bytes. Inr (RMap [(''policy'', RMap [(''safe'', RStr ''allow'')])]) :: string + raw"
  have "is_ok (user_config_load ''config.json'' ?ev (Inr ''{}''))" by code_simp
  then obtain c where c: "user_config_load ''config.json'' ?ev (Inr ''{}'') = Inr c" by (auto simp: is_ok_iff)
  have "case user_config_load ''config.json'' ?ev (Inr ''{}'') of Inr c \<Rightarrow> mode_for (config_policy c) Safe = CAllow | Inl _ \<Rightarrow> False" by code_simp
  moreover have "policy_member ?ev (Inr ''{}'') ''dangerous'' = None" "policy_member ?ev (Inr ''{}'') ''dangerousRequiresTrust'' = None" by code_simp+
  ultimately show ?thesis using config_explicit [OF c, of Dangerous] c by (simp add: tier_member_def)
qed

section \<open>What the handler commands do\<close>

lemma map_insert_last:
  "(\<And>k'. k' \<in> fst ` set m \<Longrightarrow> k' < k) \<Longrightarrow> fst (map_insert k v m) = m @ [(k, v)]"
proof (induction m)
  case (Cons e m)
  obtain k' v' where e: "e = (k', v')" by fastforce
  have "k' < k" using Cons.prems [of k'] by (simp add: e)
  then have "\<not> k < k'" "k \<noteq> k'" by auto
  moreover obtain m' b where "map_insert k v m = (m', b)" by fastforce
  ultimately show ?case using Cons by (simp add: e)
qed simp

lemma btree_of_sorted: "wf_map kvs \<Longrightarrow> btree_of kvs = kvs"
proof (induction kvs rule: rev_induct)
  case (snoc e kvs)
  obtain k v where e: "e = (k, v)" by fastforce
  have "wf_map kvs" "\<And>k'. k' \<in> fst ` set kvs \<Longrightarrow> k' < k"
    using snoc.prems by (auto simp: wf_map_def sorted_wrt_append e)
  then show ?case using snoc.IH map_insert_last [of kvs k v] by (simp add: btree_of_def e)
qed (simp add: btree_of_def)

lemma btree_of_wf: "wf_map (btree_of kvs)"
proof (induction kvs rule: rev_induct)
  case (snoc e kvs)
  obtain k v where e: "e = (k, v)" by fastforce
  have "btree_of (kvs @ [e]) = fst (map_insert k v (btree_of kvs))" by (simp add: btree_of_def e)
  then show ?case using map_insert_spec [of k v "btree_of kvs"] snoc by (metis prod.collapse)
qed (simp add: btree_of_def)

lemma read_argv: "raw_option raw_argv (as_raw (argv_json a)) = Inr a"
proof -
  have "traverse raw_string (map RStr xs) = Inr xs" for xs
    by (simp add: traverse_Inr_iff list_all2_map1 list_all2_same raw_string_def)
  then show ?thesis by (cases a) (simp_all add: argv_json_def raw_option_def jstr_list_def raw_argv_def comp_def)
qed

lemma read_custom:
  assumes "wf_map m"
  shows "raw_custom (as_raw (JObj (map (\<lambda>(k, v). (k, jstr_list v)) m))) = Inr m"
proof -
  have argv: "raw_argv (as_raw (jstr_list v)) = Inr v" for v
    using read_argv [of "Some v"] by (simp add: argv_json_def jstr_list_def raw_option_def)
  then have "traverse (\<lambda>(k, v). and_then (raw_argv v) (\<lambda>a. Inr (k, a))) (map (\<lambda>(k, v). (k, as_raw v)) (map (\<lambda>(k, v). (k, jstr_list v)) m)) = Inr m"
    by (induction m) (auto simp del: as_raw.simps)
  then show ?thesis using btree_of_sorted [OF assms] by (simp add: raw_custom_def del: map_map)
qed

lemma read_handlers:
  assumes "wf_map (hf_custom h)"
  shows "de_handlers (as_raw (handlers_json h)) = Inr h"
proof -
  let ?c = "as_raw (JObj (map (\<lambda>(k, v). (k, jstr_list v)) (hf_custom h)))"
  have f: "raw_fields HANDLERS_FIELDS (as_raw (handlers_json h))
      = Inr (map_of [(''open'', as_raw (argv_json (hf_open h))), (''terminal'', as_raw (argv_json (hf_terminal h))),
          (''ssh'', as_raw (argv_json (hf_ssh h))), (''remoteDesktop'', as_raw (argv_json (hf_remote_desktop h))), (''custom'', ?c)])"
    by (simp add: raw_fields_def handlers_json_def HANDLERS_FIELDS_def)
  show ?thesis
    unfolding de_handlers_def f using read_custom [OF assms] read_argv
    by (simp add: raw_default_def del: as_raw.simps)
qed

lemma raw_custom_wf: "raw_custom r = Inr m \<Longrightarrow> wf_map m"
  using btree_of_wf by (auto simp: raw_custom_def split: raw.splits)

lemma de_handlers_custom: "de_handlers r = Inr h \<Longrightarrow> \<exists>f. raw_default [] raw_custom f ''custom'' = Inr (hf_custom h)"
  unfolding de_handlers_def and_then_Inr_iff by fastforce

lemma handlers_load_wf:
  assumes "handlers_load path events contents = Inr h"
  shows "wf_map (hf_custom h)"
proof -
  from assms consider "h = no_handlers" | r where "de_handlers r = Inr h"
    unfolding handlers_load_def load_file_def by (auto split: sum.splits io_error.splits)
  then show ?thesis
  proof cases
    case 1
    then show ?thesis by (simp add: no_handlers_def)
  next
    case 2
    from de_handlers_custom [OF this] obtain f where f: "raw_default [] raw_custom f ''custom'' = Inr (hf_custom h)" by blast
    then show ?thesis
      using raw_custom_wf by (cases "f ''custom''") (simp_all add: raw_default_def)
  qed
qed

lemma handlers_save_files:
  assumes "fs_wf f" "p \<noteq> []"
  shows "case handlers_save x p h f of
      (Inr _, g) \<Rightarrow> fs_wf g \<and> fs_file g = (fs_file f)(p \<mapsto> pretty x 0 (handlers_json h))
    | (Inl _, g) \<Rightarrow> fs_wf g \<and> fs_file g = fs_file f"
proof (cases "fs_create_dir_all (butlast p) f")
  case (Inr g)
  note g = fs_create_keeps [OF Inr assms(1)]
  show ?thesis
    using g fs_write_effect [of p _ g] assms(2)
    by (cases "fs_write p (pretty x 0 (handlers_json h)) g") (simp_all add: handlers_save_def Inr)
qed (use assms in \<open>simp add: handlers_save_def\<close>)

text \<open>What a command means for the registrations; \<open>None\<close> when it is refused.\<close>

definition argv_ok :: "string list \<Rightarrow> bool" where
  "argv_ok argv \<longleftrightarrow> argv \<noteq> [] \<and> trim (hd argv) \<noteq> []"

fun handler_effect :: "handler_cmd \<Rightarrow> handlers_file \<Rightarrow> handlers_file option" where
  "handler_effect (SetTerminal argv) h = (if argv_ok argv then Some (h\<lparr> hf_terminal := Some argv \<rparr>) else None)"
| "handler_effect (SetSsh argv) h = (if argv_ok argv then Some (h\<lparr> hf_ssh := Some argv \<rparr>) else None)"
| "handler_effect (SetRemoteDesktop argv) h = (if argv_ok argv then Some (h\<lparr> hf_remote_desktop := Some argv \<rparr>) else None)"
| "handler_effect (Register k argv) h =
     (if argv_ok argv \<and> is_ok (kind_parse (''custom:'' @ custom_name k))
      then Some (h\<lparr> hf_custom := fst (map_insert (custom_name k) argv (hf_custom h)) \<rparr>) else None)"
| "handler_effect (RemoveHandler k) h =
     (if custom_name k \<in> fst ` set (hf_custom h)
      then Some (h\<lparr> hf_custom := filter (\<lambda>e. fst e \<noteq> custom_name k) (hf_custom h) \<rparr>) else None)"

lemma handler_effect_wf: "wf_map (hf_custom h) \<Longrightarrow> handler_effect c h = Some h' \<Longrightarrow> wf_map (hf_custom h')"
  using map_insert_spec [of _ _ "hf_custom h"] wf_map_remove [of "hf_custom h"]
  by (cases c) (auto split: if_splits, metis prod.collapse)

lemma handler_run_effect:
  assumes "handlers_load (join ''/'' p) (x_events x) (fs_read f p) = Inr h"
  shows "(case handler_effect c h of Some h' \<Rightarrow> handler_run x p c f = handlers_save x p h' f | None \<Rightarrow> \<exists>e. handler_run x p c f = (Inl e, f))"
proof -
  have v: "validate_argv argv = (if argv_ok argv then Inr () else Inl (EValidation ''handler argv must start with a program''))" for argv
    by (simp add: validate_argv_def argv_ok_def)
  have u: "update_handlers x p change f = (case change h of Inl e \<Rightarrow> (Inl e, f) | Inr h' \<Rightarrow> handlers_save x p h' f)" for change
    by (simp add: update_handlers_def assms)
  show ?thesis
  proof (cases c)
    case (Register k argv)
    then show ?thesis
      by (cases "kind_parse (''custom:'' @ custom_name k)") (auto simp: register_def v u simp del: kind_parse_def)
  next
    case (RemoveHandler k)
    then show ?thesis by (auto simp: handler_remove_def u map_of_eq_None_iff)
  qed (auto simp: set_terminal_def set_ssh_def set_remote_desktop_def set_handler_def v u)
qed

text \<open>
  C31: the handler commands do exactly what they say. On a handlers file that loads, each
  of them either refuses, and nothing changes, or it writes the registrations changed
  in the one place it names, which are then what the next load reads and what the opener is
  made of; every other file is untouched, and the map stays sorted. A command that fails to write
  changes no file.
\<close>

theorem handler_commands_refine:
  assumes "fs_wf f" "p \<noteq> []" "handlers_load (join ''/'' p) (x_events x) (fs_read f p) = Inr h"
    and "\<And>h'. handler_effect c h = Some h' \<Longrightarrow> x_events x (pretty x 0 (handlers_json h')) = Inr (as_raw (handlers_json h'))"
  shows "case handler_run x p c f of
      (Inl e, f') \<Rightarrow> fs_wf f' \<and> fs_file f' = fs_file f
    | (Inr _, f') \<Rightarrow> fs_wf f' \<and> (\<forall>q. q \<noteq> p \<longrightarrow> fs_file f' q = fs_file f q)
        \<and> (\<exists>h'. handler_effect c h = Some h' \<and> wf_map (hf_custom h')
             \<and> handlers_load (join ''/'' p) (x_events x) (fs_read f' p) = Inr h'
             \<and> oc_custom (to_opener h' os home) = hf_custom h' \<and> oc_terminal_argv (to_opener h' os home) = hf_terminal h')"
proof (cases "handler_effect c h")
  case None
  then obtain e where "handler_run x p c f = (Inl e, f)" using handler_run_effect [OF assms(3), of c] by auto
  then show ?thesis using assms(1) by simp
next
  case (Some h')
  have run: "handler_run x p c f = handlers_save x p h' f" using handler_run_effect [OF assms(3), of c] Some by simp
  have wf: "wf_map (hf_custom h')" using handler_effect_wf handlers_load_wf [OF assms(3)] Some by blast
  obtain r f' where s: "handlers_save x p h' f = (r, f')" by fastforce
  note files = handlers_save_files [OF assms(1,2), of x h', unfolded s]
  show ?thesis
  proof (cases r)
    case (Inr u)
    have w: "fs_wf f'" and upd: "fs_file f' = (fs_file f)(p \<mapsto> pretty x 0 (handlers_json h'))" using files Inr by simp_all
    have "fs_read f' p = Inr (pretty x 0 (handlers_json h'))"
      using fun_cong [OF upd, of p] by (simp add: fs_file_def split: sum.splits)
    then have "handlers_load (join ''/'' p) (x_events x) (fs_read f' p) = Inr h'"
      using assms(4) [OF Some] read_handlers [OF wf] by (simp add: handlers_load_def load_file_def)
    then show ?thesis using w upd wf Some by (simp add: run s Inr to_opener_def Let_def split: option.split)
  qed (use files in \<open>simp add: run s\<close>)
qed

definition vscode :: handlers_file where
  "vscode = no_handlers\<lparr> hf_custom := [(''vscode'', [''code'', ''{target}''])] \<rparr>"

definition handlers_ext :: ext where
  "handlers_ext = toy_ext\<lparr> x_events := (\<lambda>b. if b = pretty toy_ext 0 (handlers_json vscode) then Inr (as_raw (handlers_json vscode)) else Inl ''not JSON'') \<rparr>"

theorem handler_commands_refine_witness:
  "handlers_load ''handlers.json'' (x_events handlers_ext)
     (fs_read (snd (handler_run handlers_ext [''handlers.json''] (Register ''custom:vscode'' [''code'', ''{target}'']) [])) [''handlers.json'']) = Inr vscode"
proof -
  let ?c = "Register ''custom:vscode'' [''code'', ''{target}'']" and ?p = "[''handlers.json'']"
  have load: "handlers_load (join ''/'' ?p) (x_events handlers_ext) (fs_read [] ?p) = Inr no_handlers" by code_simp
  have eff: "handler_effect ?c no_handlers = Some vscode" by code_simp
  have same: "pretty handlers_ext 0 (handlers_json vscode) = pretty toy_ext 0 (handlers_json vscode)" by code_simp
  have e: "fst (handler_run handlers_ext ?p ?c []) = Inr ()" by code_simp
  obtain e' f' where r': "handler_run handlers_ext ?p ?c [] = (e', f')" by (rule prod.exhaust)
  have r: "handler_run handlers_ext ?p ?c [] = (Inr (), f')" using e unfolding r' fst_conv by (simp only:)
  have "fs_wf []" by code_simp
  moreover have "x_events handlers_ext (pretty handlers_ext 0 (handlers_json h')) = Inr (as_raw (handlers_json h'))"
    if "handler_effect ?c no_handlers = Some h'" for h'
  proof -
    have "h' = vscode" using that unfolding eff by (simp only: option.inject)
    moreover have "x_events handlers_ext b = (if b = pretty toy_ext 0 (handlers_json vscode) then Inr (as_raw (handlers_json vscode)) else Inl ''not JSON'')" for b
      by (simp add: handlers_ext_def del: pretty.simps as_raw.simps)
    ultimately show ?thesis by (simp only: same refl if_True)
  qed
  ultimately have "\<exists>h'. handler_effect ?c no_handlers = Some h' \<and> handlers_load (join ''/'' ?p) (x_events handlers_ext) (fs_read f' ?p) = Inr h'"
    using handler_commands_refine [OF _ list.distinct(2) load, of ?c, unfolded r prod.case sum.case] by blast
  then have "handlers_load (join ''/'' ?p) (x_events handlers_ext) (fs_read f' ?p) = Inr vscode"
    unfolding eff by (metis option.inject)
  moreover have "join ''/'' ?p = ''handlers.json''" by code_simp
  ultimately show ?thesis unfolding r by (simp only: snd_conv)
qed

end
