(* ===== verification/Client.thy ===== *)
theory Client
  imports Socket Config
begin

text \<open>
  The client of the daemon, \<open>murl-daemon/src/client.rs\<close>, the reader of responses it uses
  (\<open>Response\<close> of \<open>protocol.rs\<close>) and \<open>murl-daemon status\<close>. The peer is a pair of functions
  of a state: connecting to it, and sending it a line and reading until the connection ends
  or fails. The daemon of \<open>Server\<close> is one such peer.
\<close>

section \<open>Reading a response\<close>

text \<open>A \<open>serde_json::Value\<close>: of two members of the same name the later one stays.\<close>

fun value_of :: "raw \<Rightarrow> json"
  and values_of :: "raw list \<Rightarrow> json list"
  and members_of :: "(string \<times> json) list \<Rightarrow> (string \<times> raw) list \<Rightarrow> (string \<times> json) list"
where
  "value_of RUnit = JNull"
| "value_of (RBool b) = JBool b"
| "value_of (RI64 i) = JNum (NInt i)"
| "value_of (RU64 i) = JNum (NInt i)"
| "value_of (RF64 f) = (if f64_finite f then JNum (NFloat f) else JNull)"
| "value_of (RStr s) = JStr s"
| "value_of (RSeq xs) = JArr (values_of xs)"
| "value_of (RMap ms) = JObj (members_of [] ms)"
| "values_of [] = []"
| "values_of (x # xs) = value_of x # values_of xs"
| "members_of acc [] = acc"
| "members_of acc ((k, x) # ms) = members_of (fst (map_insert k (value_of x) acc)) ms"

definition raw_required :: "(raw \<Rightarrow> string + 'a) \<Rightarrow> (string \<Rightarrow> raw option) \<Rightarrow> string \<Rightarrow> string + 'a" where
  "raw_required rd f k = (case f k of None \<Rightarrow> Inl (''missing field '' @ quoted k) | Some r \<Rightarrow> rd r)"

definition raw_word :: "raw \<Rightarrow> string + 'a::len word" where
  "raw_word r = and_then (raw_uint LENGTH('a) r) (\<lambda>n. Inr (of_nat n))"

definition raw_value :: "raw \<Rightarrow> string + json" where
  "raw_value r = Inr (value_of r)"

text \<open>The tag of an internally tagged enum and the rest of its content.\<close>

definition raw_tagged :: "raw \<Rightarrow> string + (string \<times> raw)" where
  "raw_tagged r =
     (case r of
        RMap ms \<Rightarrow>
          (case filter (\<lambda>p. fst p = ''type'') ms of
             [] \<Rightarrow> Inl ''missing field `type`''
           | [(_, t)] \<Rightarrow> and_then (raw_string t) (\<lambda>tag. Inr (tag, RMap (filter (\<lambda>p. fst p \<noteq> ''type'') ms)))
           | _ \<Rightarrow> Inl ''duplicate field `type`'')
      | RSeq [] \<Rightarrow> Inl ''missing field `type`''
      | RSeq (t # ts) \<Rightarrow> and_then (raw_string t) (\<lambda>tag. Inr (tag, RSeq ts))
      | _ \<Rightarrow> Inl ''invalid type: expected internally tagged enum Response'')"

text \<open>Members that are not fields are skipped: the enum does not deny them.\<close>

definition de_response :: "raw \<Rightarrow> string + response" where
  "de_response r =
     and_then (raw_tagged r) (\<lambda>(tag, c).
       if tag = ''pong'' then
         and_then (raw_fields [''protocol'', ''version''] c) (\<lambda>f.
         and_then (raw_required raw_word f ''protocol'') (\<lambda>p.
         and_then (raw_required raw_string f ''version'') (\<lambda>v. Inr (RPong p v))))
       else if tag = ''plan'' then
         and_then (raw_fields [''resolution''] c) (\<lambda>f.
         and_then (raw_required raw_value f ''resolution'') (\<lambda>j. Inr (RPlan j)))
       else if tag = ''consent'' then
         and_then (raw_fields [''granted'', ''denied''] c) (\<lambda>f.
         and_then (raw_required raw_argv f ''granted'') (\<lambda>g.
         and_then (raw_required raw_argv f ''denied'') (\<lambda>d. Inr (RConsent g d))))
       else if tag = ''outcome'' then
         and_then (raw_fields [''report''] c) (\<lambda>f.
         and_then (raw_required raw_value f ''report'') (\<lambda>j. Inr (ROutcome j)))
       else if tag = ''status'' then
         and_then (raw_fields [''version'', ''uptime_secs'', ''activations'', ''socket''] c) (\<lambda>f.
         and_then (raw_required raw_string f ''version'') (\<lambda>v.
         and_then (raw_required raw_word f ''uptime_secs'') (\<lambda>up.
         and_then (raw_required raw_word f ''activations'') (\<lambda>n.
         and_then (raw_required raw_string f ''socket'') (\<lambda>s. Inr (RStatus v up n s))))))
       else if tag = ''error'' then
         and_then (raw_fields [''stage'', ''message''] c) (\<lambda>f.
         and_then (raw_required raw_string f ''stage'') (\<lambda>st.
         and_then (raw_required raw_string f ''message'') (\<lambda>m. Inr (RError st m))))
       else Inl (''unknown variant '' @ quoted tag))"

definition read_response :: "ext \<Rightarrow> string \<Rightarrow> string + response" where
  "read_response x line = and_then (x_events x line) de_response"

section \<open>client.rs\<close>

datatype unavailable = NoSocket | Untrusted string | UIo string | UProtocol string

fun unavailable_display :: "unavailable \<Rightarrow> string" where
  "unavailable_display NoSocket = ''no daemon socket''"
| "unavailable_display (Untrusted why) = ''socket not trusted: '' @ why"
| "unavailable_display (UIo e) = ''i/o: '' @ e"
| "unavailable_display (UProtocol m) = ''protocol: '' @ m"

text \<open>\<open>pe_exchange\<close> writes the line and closes the writing side; it gives an error of the
  writing, or the bytes received and the error, such as a timeout, that ended them.\<close>

record 's peer =
  pe_connect :: "'s \<Rightarrow> string + unit"
  pe_exchange :: "string \<Rightarrow> 's \<Rightarrow> (string + bytes \<times> string option) \<times> 's"

text \<open>\<open>BufRead::lines\<close>: the line feed goes, and a carriage return before it.\<close>

definition chop_line :: "string \<Rightarrow> string" where
  "chop_line l =
     (if ends_with [LF] l then let b = butlast l in if ends_with [CHR 0x0D] b then butlast b else b else l)"

text \<open>A read that fails loses the line it had begun.\<close>

fun collect :: "ext \<Rightarrow> string option \<Rightarrow> bytes list \<Rightarrow> unavailable + response list" where
  "collect x e [] = (case e of None \<Rightarrow> Inr [] | Some m \<Rightarrow> Inl (UIo m))"
| "collect x e (l # ls) =
     (if e \<noteq> None \<and> \<not> ends_with [LF] l then Inl (UIo (the e))
      else if utf8_decode l = None then Inl (UIo ''stream did not contain valid UTF-8'')
      else if trim (chop_line l) = [] then collect x e ls
      else case read_response x (chop_line l) of
        Inl m \<Rightarrow> Inl (UProtocol (''bad response: '' @ m))
      | Inr r \<Rightarrow> map_sum id ((#) r) (collect x e ls))"

definition request :: "ext \<Rightarrow> host \<Rightarrow> string \<Rightarrow> string \<Rightarrow> 's peer \<Rightarrow> wire_request \<Rightarrow> 's \<Rightarrow> (unavailable + response list) \<times> 's" where
  "request x h uid p peer req s =
     (if \<not> node_exists h p then (Inl NoSocket, s)
      else if \<not> client_may_trust (ho_nodes h) uid p then (Inl (Untrusted (p @ '' is not a user-private socket'')), s)
      else case pe_connect peer s of
        Inl e \<Rightarrow> (Inl (UIo e), s)
      | Inr _ \<Rightarrow>
          let line = request_text x req in
          if MAX_LINE_BYTES < length line then (Inl (UProtocol ''request too large''), s)
          else case pe_exchange peer (line @ [LF]) s of
            (Inl e, s1) \<Rightarrow> (Inl (UIo e), s1)
          | (Inr (received, e), s1) \<Rightarrow>
              (and_then (collect x e (read_lines received)) (\<lambda>rs.
                 if rs = [] then Inl (UProtocol ''daemon closed without replying'') else Inr rs), s1))"

fun is_pong :: "response \<Rightarrow> bool" where
  "is_pong (RPong p _) = (p = PROTOCOL_VERSION)"
| "is_pong _ = False"

definition probe :: "ext \<Rightarrow> host \<Rightarrow> string \<Rightarrow> string \<Rightarrow> 's peer \<Rightarrow> 's \<Rightarrow> bool \<times> 's" where
  "probe x h uid p peer s =
     (case request x h uid p peer (Ping PROTOCOL_VERSION) s of
        (Inr rs, s1) \<Rightarrow> (list_ex is_pong rs, s1)
      | (Inl _, s1) \<Rightarrow> (False, s1))"

fun is_error :: "response \<Rightarrow> bool" where
  "is_error (RError _ _) = True"
| "is_error _ = False"

text \<open>\<open>murl-daemon status\<close>: its exit code.\<close>

definition daemon_status :: "ext \<Rightarrow> host \<Rightarrow> string \<Rightarrow> string \<Rightarrow> 's peer \<Rightarrow> 's \<Rightarrow> int \<times> 's" where
  "daemon_status x h uid p peer s =
     (case request x h uid p peer (StatusReq PROTOCOL_VERSION) s of
        (Inr rs, s1) \<Rightarrow> (if list_ex is_error rs then 1 else 0, s1)
      | (Inl _, s1) \<Rightarrow> (1, s1))"

section \<open>The daemon as a peer\<close>

text \<open>One connection to the daemon, which reads to the end and closes.\<close>

definition daemon_peer :: "daemon_context \<Rightarrow> 64 word \<Rightarrow> daemon_state peer" where
  "daemon_peer ctx now = \<lparr>
     pe_connect = (\<lambda>_. Inr ()),
     pe_exchange = (\<lambda>line s. case serve_connection ctx line now 32 s of (out, sent, s1) \<Rightarrow> (Inr (concat sent, None), s1)) \<rparr>"

section \<open>What is written is read\<close>

text \<open>Reading sorts the members of the values a response carries.\<close>

fun received :: "response \<Rightarrow> response" where
  "received (RPlan j) = RPlan (value_of (as_raw j))"
| "received (ROutcome j) = ROutcome (value_of (as_raw j))"
| "received r = r"

lemma raw_argv_written: "raw_argv (as_raw (jstr_list ss)) = Inr ss"
proof -
  have "traverse raw_string (map (as_raw \<circ> JStr) ss) = Inr ss" by (induction ss) (simp_all add: raw_string_def)
  then show ?thesis by (simp add: raw_argv_def jstr_list_def)
qed

lemma raw_word_written: "raw_word (as_raw (jword w)) = Inr w"
  using uint_lt2p [of w] by (simp add: raw_word_def jword_def raw_uint_def)

lemma response_keys: "distinct (map fst (response_members r))"
  by (cases r) simp_all

lemmas read_raw = raw_argv_written raw_word_written raw_fields_def raw_required_def raw_tagged_def

lemma read_written: "de_response (as_raw (JObj (response_members r))) = Inr (received r)"
  by (cases r) (simp_all add: de_response_def read_raw raw_string_def raw_value_def)

lemma strip_all_plain: "strip_any ws (c # s) = None \<Longrightarrow> strip_all n ws (c # s) = c # s"
  by (cases n) simp_all

lemma strip_any_head: "list_all (\<lambda>w. w \<noteq> [] \<and> hd w \<noteq> c) ws \<Longrightarrow> strip_any ws (c # s) = None"
proof (induction ws)
  case (Cons w ws)
  then show ?case by (cases w) auto
qed simp

lemma trim_braces: "trim (CHR ''{'' # s @ [CHR ''}'']) = CHR ''{'' # s @ [CHR ''}'']"
proof -
  have "list_all (\<lambda>w. w \<noteq> [] \<and> hd w \<noteq> CHR ''{'') white_space" "list_all (\<lambda>w. w \<noteq> [] \<and> hd w \<noteq> CHR ''}'') (map rev white_space)"
    by code_simp+
  then have "strip_any white_space (CHR ''{'' # t) = None" "strip_any (map rev white_space) (CHR ''}'' # t) = None" for t
    using strip_any_head by blast+
  then show ?thesis by (simp add: trim_def Let_def strip_all_plain)
qed

lemma object_text: "\<exists>s. json_text x (JObj m) = CHR ''{'' # s @ [CHR ''}'']"
  by simp

lemma chop_object: "chop_line (json_text x (JObj m) @ [LF]) = json_text x (JObj m)"
  by (simp add: chop_line_def ends_with_def strip_suffix_def butlast_append LF_def)

section \<open>One exchange\<close>

text \<open>A response the client can read: serde\_json reads the line it wrote, and the texts in it
  are UTF-8, as every Rust string is.\<close>

definition readable :: "ext \<Rightarrow> response \<Rightarrow> bool" where
  "readable x r \<longleftrightarrow>
     LF \<notin> set (json_text x (JObj (response_members r))) \<and> utf8_decode (to_line x r) \<noteq> None
     \<and> x_events x (json_text x (JObj (response_members r))) = Inr (as_raw (JObj (response_members r)))"

lemma read_lines_sent:
  "list_all (readable x) rs \<Longrightarrow> read_lines (concat (map (to_line x) rs)) = map (to_line x) rs"
proof (induction rs)
  case (Cons r rs)
  have "read_lines (to_line x r @ concat (map (to_line x) rs)) = to_line x r # read_lines (concat (map (to_line x) rs))"
    using Cons.prems read_lines_line [of "json_text x (JObj (response_members r))" "concat (map (to_line x) rs)"]
    by (simp add: readable_def to_line_def del: json_text.simps read_lines.simps)
  then show ?case using Cons by simp
qed simp

lemma trim_object: "trim (json_text x (JObj m)) = json_text x (JObj m)"
  using trim_braces object_text [of x m] by metis

lemma collect_sent: "list_all (readable x) rs \<Longrightarrow> collect x None (map (to_line x) rs) = Inr (map received rs)"
proof (induction rs)
  case (Cons r rs)
  let ?l = "json_text x (JObj (response_members r))"
  have r: "readable x r" using Cons.prems by simp
  have "trim ?l \<noteq> []" unfolding trim_object by simp
  moreover have "read_response x ?l = Inr (received r)"
    using r read_written [of r] by (simp add: read_response_def readable_def del: json_text.simps as_raw.simps)
  moreover have "utf8_decode (?l @ [LF]) \<noteq> None" using r by (simp add: readable_def to_line_def del: json_text.simps)
  ultimately show ?case
    using Cons by (simp add: to_line_def chop_object del: json_text.simps)
qed simp

text \<open>What the client relies on: a peer that, when \<open>ok\<close>, answers a request with at least one
  response and closes.\<close>

locale responder =
  fixes x :: ext and peer :: "'s peer" and ok :: "wire_request \<Rightarrow> 's \<Rightarrow> bool"
    and answers :: "wire_request \<Rightarrow> 's \<Rightarrow> response list \<times> 's"
  assumes connects: "pe_connect peer s = Inr ()"
    and fits: "ok req s \<Longrightarrow> length (request_text x req) \<le> MAX_LINE_BYTES"
    and exchanges: "ok req s \<Longrightarrow> pe_exchange peer (request_text x req @ [LF]) s
         = (Inr (concat (map (to_line x) (fst (answers req s))), None), snd (answers req s))"
    and answered: "ok req s \<Longrightarrow> fst (answers req s) \<noteq> [] \<and> list_all (readable x) (fst (answers req s))"
begin

lemma request_answers:
  assumes "ok req s" "node_exists h p" "client_may_trust (ho_nodes h) uid p"
  shows "request x h uid p peer req s = (Inr (map received (fst (answers req s))), snd (answers req s))"
  using assms(2,3) fits [OF assms(1)] answered [OF assms(1)]
  by (simp add: request_def connects exchanges [OF assms(1)] Let_def read_lines_sent collect_sent)

end

definition daemon_answers :: "daemon_context \<Rightarrow> 64 word \<Rightarrow> wire_request \<Rightarrow> daemon_state \<Rightarrow> response list \<times> daemon_state" where
  "daemon_answers ctx now req s =
     (case handle_request ctx req now s of (Some rs, s1) \<Rightarrow> (rs, s1) | (None, s1) \<Rightarrow> ([], s1))"

text \<open>The request line is within the cap and is read back as the object it was written as,
  and the responses are readable.\<close>

definition exchange_ok :: "daemon_context \<Rightarrow> 64 word \<Rightarrow> wire_request \<Rightarrow> daemon_state \<Rightarrow> bool" where
  "exchange_ok ctx now req s \<longleftrightarrow>
     (let x = dc_ext ctx; text = request_text x req in
      length text \<le> MAX_LINE_BYTES \<and> request_protocol req = PROTOCOL_VERSION
      \<and> LF \<notin> set text \<and> utf8_decode (text @ [LF]) \<noteq> None
      \<and> x_events x text = Inr (as_raw (JObj (request_members req)))
      \<and> list_all (readable x) (fst (daemon_answers ctx now req s)))"

lemma request_read:
  assumes "x_events x (request_text x req) = Inr (as_raw (JObj (request_members req)))"
    and "length (request_text x req) \<le> MAX_LINE_BYTES" "request_protocol req = PROTOCOL_VERSION"
  shows "parse_request x (request_text x req) = Inr req"
proof -
  have strs: "visit (as_raw (jstr_list ss)) = Inr (jstr_list ss)" for ss
  proof -
    have "traverse visit (map (as_raw \<circ> JStr) ss) = Inr (map JStr ss)" by (induction ss) simp_all
    then show ?thesis by (simp add: jstr_list_def visit_seq_traverse)
  qed
  have word: "visit (as_raw (jword w)) = Inr (jword w)" for w :: "32 word" by (simp add: jword_def)
  have "list_all2 (\<lambda>p q. fst q = fst p \<and> visit (as_raw (snd p)) = Inr (snd q)) (request_members req) (request_members req)"
    by (cases req) (simp_all add: strs word)
  from visit_members [OF request_keys(1) this] obtain l where
    l: "visit (as_raw (JObj (request_members req))) = Inr (JObj l)" "map_of l = map_of (request_members req)" by blast
  then have "de_request (JObj l) = Inr req" by (simp add: de_request_iff del: request_members.simps)
  then show ?thesis using assms l(1) by (simp add: parse_request_def from_slice_strict_def del: as_raw.simps)
qed

lemma trim_request: "trim_end_matches line_break (json_text x (JObj m) @ [LF]) = json_text x (JObj m)"
  by (simp add: trim_end_matches_def line_break_def LF_def)

lemma serve_single:
  assumes "utf8_decode l \<noteq> None" "trim_end_matches line_break l \<noteq> []"
    and "answer_line ctx now (trim_end_matches line_break l) s = (Some rs, s1)"
  shows "serve_lines ctx now (Suc n) [l] s = (Closed, map (to_line (dc_ext ctx)) rs, s1)"
  using assms by (cases n) (simp_all add: Let_def)

lemma serve_request:
  assumes "exchange_ok ctx now req s"
  shows "serve_connection ctx (request_text (dc_ext ctx) req @ [LF]) now 32 s
     = (Closed, map (to_line (dc_ext ctx)) (fst (daemon_answers ctx now req s)), snd (daemon_answers ctx now req s))"
proof -
  let ?x = "dc_ext ctx" and ?t = "request_text (dc_ext ctx) req"
  have ok: "length ?t \<le> MAX_LINE_BYTES" "LF \<notin> set ?t" "utf8_decode (?t @ [LF]) \<noteq> None"
    and p: "parse_request ?x ?t = Inr req"
    using assms request_read by (auto simp: exchange_ok_def Let_def)
  obtain rs s1 where h: "handle_request ctx req now s = (Some rs, s1)" using handle_advanced [of ctx req now s]
    by (metis prod.collapse)
  have b: "take (connection_budget 32) (?t @ [LF]) = ?t @ [LF]"
    using ok(1) by (simp add: connection_budget_def MAX_LINE_BYTES_def)
  have r: "read_lines (?t @ [LF]) = [?t @ [LF]]" using read_lines_line [OF ok(2), of "[]"] by simp
  have ne: "?t \<noteq> []" by (simp add: request_text_def)
  have t: "trim_end_matches line_break (?t @ [LF]) = ?t" unfolding request_text_def by (rule trim_request)
  have "answer_line ctx now ?t s = (Some rs, s1)" using p h by (simp add: answer_line_def)
  from serve_single [OF ok(3), unfolded t, OF ne this, of 31]
  show ?thesis unfolding serve_connection_def b r by (simp add: daemon_answers_def h)
qed

interpretation daemon_wire: responder "dc_ext ctx" "daemon_peer ctx now" "exchange_ok ctx now" "daemon_answers ctx now"
  for ctx :: daemon_context and now :: "64 word"
proof
  fix req s
  assume ok: "exchange_ok ctx now req s"
  then show "length (request_text (dc_ext ctx) req) \<le> MAX_LINE_BYTES" by (simp add: exchange_ok_def Let_def)
  show "pe_exchange (daemon_peer ctx now) (request_text (dc_ext ctx) req @ [LF]) s
     = (Inr (concat (map (to_line (dc_ext ctx)) (fst (daemon_answers ctx now req s))), None), snd (daemon_answers ctx now req s))"
    by (simp add: daemon_peer_def serve_request [OF ok])
  have "fst (daemon_answers ctx now req s) \<noteq> []"
    using handle_advanced [of ctx req now s] by (cases "handle_request ctx req now s") (auto simp: daemon_answers_def)
  then show "fst (daemon_answers ctx now req s) \<noteq> [] \<and> list_all (readable (dc_ext ctx)) (fst (daemon_answers ctx now req s))"
    using ok by (simp add: exchange_ok_def Let_def)
qed (simp add: daemon_peer_def)

section \<open>Properties\<close>

text \<open>
  C35: the client hears what the daemon did. Over a trusted socket, a request within the
  cap is answered with exactly the responses the handler gives to that request, in
  order and complete, with the values they carry read as JSON values; the daemon's
  state is the one after handling that request once. serde\_json is only assumed
  to read the objects it wrote.
\<close>

theorem request_answered:
  assumes "exchange_ok ctx now req s" "node_exists h p" "client_may_trust (ho_nodes h) uid p"
  shows "\<exists>rs s1. handle_request ctx req now s = (Some rs, s1) \<and> rs \<noteq> []
    \<and> request (dc_ext ctx) h uid p (daemon_peer ctx now) req s = (Inr (map received rs), s1)"
proof -
  obtain rs s1 where h: "handle_request ctx req now s = (Some rs, s1)" "rs \<noteq> []"
    using handle_advanced [of ctx req now s] by (metis prod.collapse)
  then show ?thesis using daemon_wire.request_answers [OF assms] by (simp add: daemon_answers_def)
qed

text \<open>Nobody else is spoken to: a path that is not a private socket of the user is not
  connected to.\<close>

lemma request_untrusted:
  assumes "\<not> (node_exists h p \<and> client_may_trust (ho_nodes h) uid p)"
  shows "\<exists>e. request x h uid p peer req s = (Inl e, s)"
  using assms by (simp add: request_def)

lemma daemon_start_trusted:
  assumes "startup p h = (Inr (), h')" "parse_u32 uid \<in> {None, Some (ho_uid h)}"
  shows "node_exists h' p \<and> client_may_trust (ho_nodes h') uid p"
  using startup_ok [OF assms(1)] trusted_private [of "ho_nodes h'" p "ho_uid h" uid] assms(2)
  by (auto simp: listening_def node_exists_def)

definition wire_ext :: ext where
  "wire_ext = toy_ext\<lparr> x_events := (\<lambda>b.
     if b = request_text toy_ext (Ping 1) then Inr (as_raw (JObj (request_members (Ping 1))))
     else if b = json_text toy_ext (JObj (response_members (RPong 1 ''0.3.0''))) then Inr (as_raw (JObj (response_members (RPong 1 ''0.3.0''))))
     else Inl ''not JSON'') \<rparr>"

lemma wire_ping: "exchange_ok (sample_context\<lparr> dc_ext := wire_ext \<rparr>) 7 (Ping 1) sample_daemon"
  by code_simp

theorem request_answered_witness:
  "\<exists>rs s1. handle_request (sample_context\<lparr> dc_ext := wire_ext \<rparr>) (Ping 1) 7 sample_daemon = (Some rs, s1)
     \<and> request wire_ext (snd (startup ''/run/u/murl/s'' sample_host)) ''1000'' ''/run/u/murl/s''
         (daemon_peer (sample_context\<lparr> dc_ext := wire_ext \<rparr>) 7) (Ping 1) sample_daemon = (Inr (map received rs), s1)"
proof -
  obtain h' where s: "startup ''/run/u/murl/s'' sample_host = (Inr (), h')"
    using sample_start by (cases "startup ''/run/u/murl/s'' sample_host") (auto simp: is_ok_iff)
  have u: "ho_uid sample_host = 1000" by (simp add: sample_host_def)
  have p: "parse_u32 ''1000'' = Some 1000" by code_simp
  have t: "node_exists h' ''/run/u/murl/s''" "client_may_trust (ho_nodes h') ''1000'' ''/run/u/murl/s''"
    using daemon_start_trusted [OF s, of "''1000''"] by (simp_all add: u p)
  from request_answered [OF wire_ping t] show ?thesis by (auto simp: s)
qed

end
