(* ===== verification/Names_Cmd.thy ===== *)
theory Names_Cmd
  imports Bundle Resolver_Props
begin

text \<open>
  The local name store at the command line, \<open>murl-cli\<close>: targets (\<open>ctx.rs\<close>), \<open>murl name\<close>
  (\<open>commands/name.rs\<close>), \<open>murl export\<close> and \<open>murl import\<close> (\<open>commands/bundle_cmd.rs\<close>). Reading a
  file outside of the store is a parameter; the exit code is 0 where a result is given.
\<close>

section \<open>Names and targets\<close>

definition at_char_boundary :: "nat \<Rightarrow> string \<Rightarrow> bool" where
  "at_char_boundary n s \<longleftrightarrow> n = length s \<or> (n < length s \<and> \<not> is_cont (s ! n))"

text \<open>\<open>s.len() >= 5 && s[..5].eq_ignore_ascii_case("murl:")\<close>: the slice panics inside a
  character.\<close>

definition murl_prefixed :: "string \<Rightarrow> fault + bool" where
  "murl_prefixed s =
     (if length s < 5 then Inr False
      else if \<not> at_char_boundary 5 s then Inl Panic
      else Inr (eq_ignore_ascii_case (take 5 s) ''murl:''))"

datatype target_ref = MurlTarget murl | FileTarget string

definition parse_target :: "string \<Rightarrow> fault + target_ref" where
  "parse_target s =
     and_then (murl_prefixed s) (\<lambda>b.
       if b then and_then (map_err (Err \<circ> EParse) (murl_parse s)) (\<lambda>m. Inr (MurlTarget m)) else Inr (FileTarget s))"

text \<open>The two readers of a local name differ in their messages only.\<close>

definition read_local_name :: "string \<Rightarrow> string \<Rightarrow> string \<Rightarrow> fault + murl" where
  "read_local_name not_local no_parts name =
     and_then (murl_prefixed name) (\<lambda>b.
     and_then (map_err (Err \<circ> EParse) (murl_parse (if b then name else ''murl://local/'' @ name))) (\<lambda>m.
       if \<not> is_local (mu_authority m) then Inl (Err (EValidation (quoted name @ not_local)))
       else if mu_selector m \<noteq> None \<or> mu_query m \<noteq> None then Inl (Err (EValidation no_parts))
       else Inr m))"

definition parse_local_name :: "string \<Rightarrow> fault + murl" where
  "parse_local_name =
     read_local_name '' is not a local name; the name store only holds murl://local/... entries''
       ''a stored name cannot carry a selector or query''"

definition local_name :: "string \<Rightarrow> fault + murl" where
  "local_name =
     read_local_name '' is not a local name; imports always install under murl://local/...''
       ''an installed name cannot carry a selector or query''"

section \<open>murl name\<close>

text \<open>Lifts the result of a store operation.\<close>

definition store_step :: "(error + 'a) \<times> fs \<Rightarrow> (fault + 'a) \<times> fs" where
  "store_step out = (map_err Err (fst out), snd out)"

definition cannot_read :: "string \<Rightarrow> io_error + bytes \<Rightarrow> fault + bytes" where
  "cannot_read file = map_err (\<lambda>e. Err (ENotFound (''cannot read '' @ file @ '': '' @ io_message e)))"

definition check_declared :: "murl \<Rightarrow> string option \<Rightarrow> error + unit" where
  "check_declared m declared_id =
     (case declared_id of
        None \<Rightarrow> Inr ()
      | Some d \<Rightarrow>
          and_then (map_err EParse (murl_parse d)) (\<lambda>declared.
            let name_matches = (mu_authority declared = mu_authority m \<and> mu_name declared = mu_name m) in
            if \<not> name_matches \<or> version_conflicts (mu_version declared) (mu_version m)
            then Inl (EValidation (''manifest declares id '' @ quoted (identity declared) @ '' but is being installed as ''
                   @ quoted (identity m) @ ''; align them first''))
            else Inr ()))"

definition checked_manifest :: "ext \<Rightarrow> limits \<Rightarrow> string \<Rightarrow> bytes \<Rightarrow> error + manifest" where
  "checked_manifest x lim file b =
     and_then (manifest_from_slice (x_events x) lim b) (\<lambda>mf.
       if \<not> is_valid (validate x mf)
       then Inl (EValidation (file @ '' is not a valid manifest; fix it (see `murl validate`) before installing''))
       else Inr mf)"

definition name_add :: "ext \<Rightarrow> limits \<Rightarrow> string \<Rightarrow> string \<Rightarrow> io_error + bytes \<Rightarrow> fs \<Rightarrow> (fault + path) \<times> fs" where
  "name_add x lim name file contents f =
     (case and_then (parse_local_name name) (\<lambda>m.
           and_then (cannot_read file contents) (\<lambda>b.
           and_then (map_err Err (checked_manifest x lim file b)) (\<lambda>mf.
           and_then (map_err Err (check_declared m (md_id (mf_doc mf)))) (\<lambda>_. Inr (m, b))))) of
        Inl e \<Rightarrow> (Inl e, f)
      | Inr (m, b) \<Rightarrow> store_step (store_add m b f))"

text \<open>\<open>name list\<close>, as the text it prints.\<close>

definition name_list :: "ext \<Rightarrow> bool \<Rightarrow> fs \<Rightarrow> string" where
  "name_list x as_json f =
     (let names = store_list f in
      if as_json then pretty x 0 (jstr_list names) @ [LF]
      else if names = [] then ''(no local names; add one with `murl name add <name> <manifest.murl.json>`)'' @ [LF]
      else concat (map (\<lambda>n. n @ [LF]) names))"

definition name_remove :: "string \<Rightarrow> fs \<Rightarrow> (fault + unit) \<times> fs" where
  "name_remove name f =
     (case parse_local_name name of
        Inl e \<Rightarrow> (Inl e, f)
      | Inr m \<Rightarrow>
          (case store_remove m f of
             (Inl e, g) \<Rightarrow> (Inl (Err e), g)
           | (Inr True, g) \<Rightarrow> (Inr (), g)
           | (Inr False, g) \<Rightarrow> (Inl (Err (ENotFound (identity m @ '' is not in the local store''))), g)))"

section \<open>murl import\<close>

definition is_root_entry :: "string option \<Rightarrow> nat \<Rightarrow> bundle_entry \<Rightarrow> bool" where
  "is_root_entry root i e = (case root of Some r \<Rightarrow> be_identity e = Some r | None \<Rightarrow> i = 0)"

text \<open>The local name an entry is installed under.\<close>

definition rehomed :: "murl \<Rightarrow> murl" where
  "rehomed m = \<lparr> mu_authority = Local, mu_name = mu_name m, mu_version = mu_version m, mu_selector = None, mu_query = None \<rparr>"

definition entry_home :: "string option \<Rightarrow> string option \<Rightarrow> nat \<Rightarrow> bundle_entry \<Rightarrow> fault + murl" where
  "entry_home root as_name i e =
     (let is_root = is_root_entry root i e in
      case (is_root, as_name) of
        (True, Some name) \<Rightarrow> local_name name
      | _ \<Rightarrow>
          (case be_identity e of
             Some s \<Rightarrow> and_then (map_err (Err \<circ> EParse) (murl_parse s)) (\<lambda>m. Inr (rehomed m))
           | None \<Rightarrow>
               Inl (Err (EValidation (''bundle entry '' @ dec_of_nat i @ '' ('' @ quoted (be_name e)
                 @ '') has no identity; re-export it under a name'' @ (if is_root then '', or import with --as'' else []))))))"

definition import_binding :: "string \<Rightarrow> murl \<Rightarrow> string option \<Rightarrow> error + unit" where
  "import_binding entry_name m declared_id =
     (case declared_id of
        None \<Rightarrow> Inr ()
      | Some d \<Rightarrow>
          and_then (map_err EParse (murl_parse d)) (\<lambda>declared.
            if \<not> (mu_authority declared = mu_authority m \<and> mu_name declared = mu_name m)
            then Inl (EValidation (''bundle entry '' @ quoted entry_name @ '' declares id '' @ quoted (identity declared)
                   @ '', which cannot resolve as '' @ quoted (identity m)
                   @ ''. Re-export it from a local name, or ask the publisher for a manifest whose id matches where you can install it.''))
            else Inr ()))"

definition entry_title :: "bundle_entry \<Rightarrow> string" where
  "entry_title e = (case be_identity e of Some s \<Rightarrow> s | None \<Rightarrow> be_name e)"

text \<open>The plan, decided before the store is touched; \<open>claimed\<close> maps the local names taken so
  far to the entries that took them.\<close>

fun import_plan ::
  "ext \<Rightarrow> limits \<Rightarrow> string option \<Rightarrow> string option \<Rightarrow> nat \<Rightarrow> (string \<times> string) list \<Rightarrow> bundle_entry list
     \<Rightarrow> fault + (murl \<times> bytes) list" where
  "import_plan x lim root as_name i claimed [] = Inr []"
| "import_plan x lim root as_name i claimed (e # es) =
     and_then (entry_home root as_name i e) (\<lambda>m.
     and_then (map_err Err (entry_decode x lim e)) (\<lambda>b.
     and_then (map_err Err (manifest_from_slice (x_events x) lim b)) (\<lambda>mf.
     and_then (map_err Err (import_binding (be_name e) m (md_id (mf_doc mf)))) (\<lambda>_.
       case map_of claimed (identity m) of
         Some previous \<Rightarrow>
           Inl (Err (EValidation (''bundle entries '' @ quoted previous @ '' and '' @ quoted (entry_title e) @ '' both install as ''
             @ quoted (identity m) @ ''; refusing an import where one would silently overwrite the other'')))
       | None \<Rightarrow>
           and_then (import_plan x lim root as_name (i + 1) ((identity m, entry_title e) # claimed) es) (\<lambda>plan.
             Inr ((m, b) # plan))))))"

definition refuse_overwrite :: "fs \<Rightarrow> (murl \<times> bytes) list \<Rightarrow> error + unit" where
  "refuse_overwrite f plan =
     (case find (\<lambda>(m, _). fs_exists f (manifest_path m)) plan of
        Some (m, _) \<Rightarrow> Inl (EValidation (identity m @ '' already exists in the local store (pass --force to overwrite)''))
      | None \<Rightarrow> Inr ())"

fun install_all :: "(murl \<times> bytes) list \<Rightarrow> fs \<Rightarrow> (error + string list) \<times> fs" where
  "install_all [] f = (Inr [], f)"
| "install_all ((m, b) # plan) f =
     (case store_add m b f of
        (Inl e, g) \<Rightarrow> (Inl e, g)
      | (Inr _, g) \<Rightarrow>
          (case install_all plan g of
             (Inl e, h) \<Rightarrow> (Inl e, h)
           | (Inr ids, h) \<Rightarrow> (Inr (identity m # ids), h)))"

text \<open>The result is the list of installed names.\<close>

definition bundle_import ::
  "ext \<Rightarrow> limits \<Rightarrow> string \<Rightarrow> io_error + bytes \<Rightarrow> string option \<Rightarrow> bool \<Rightarrow> fs \<Rightarrow> (fault + string list) \<times> fs" where
  "bundle_import x lim file contents as_name force f =
     (case and_then (cannot_read file contents) (\<lambda>b.
           and_then (map_err Err (bundle_from_slice x lim b)) (\<lambda>bu.
           and_then (import_plan x lim (bu_root bu) as_name 0 [] (bu_entries bu)) (\<lambda>plan.
           and_then (if force then Inr () else map_err Err (refuse_overwrite f plan)) (\<lambda>_. Inr plan)))) of
        Inl e \<Rightarrow> (Inl e, f)
      | Inr plan \<Rightarrow> store_step (install_all plan f))"

section \<open>Local names\<close>

lemma read_local_name_ok:
  assumes "read_local_name a b name = Inr m"
  shows "store_key m \<and> (murl_parse name = Inr m \<or> murl_parse (''murl://local/'' @ name) = Inr m)"
proof -
  have c: "murl_parse name = Inr m \<or> murl_parse (''murl://local/'' @ name) = Inr m"
    and m: "is_local (mu_authority m)" "mu_selector m = None" "mu_query m = None"
    using assms by (auto simp: read_local_name_def split: if_splits)
  have "wf_murl m" using c wf_murl_sound by blast
  moreover have "mu_authority m = Local" using m(1) by (cases "mu_authority m") simp_all
  ultimately show ?thesis using c m by (simp add: store_key_def)
qed

text \<open>The slice is taken at a byte: a file name or a local name whose fifth byte is inside a
  character stops the program.\<close>

lemma prefix_test_panics:
  "parse_target ([CHR ''n'', CHR ''o'', CHR ''t'', CHR ''e'', CHR 0xC3, CHR 0xA9] @ ''.json'') = Inl Panic"
  "parse_local_name [CHR ''c'', CHR ''a'', CHR ''f'', CHR ''f'', CHR 0xC3, CHR 0xA8] = Inl Panic"
  by code_simp+

text \<open>The identity check of an import ignores the version, which the one of \<open>name add\<close> and
  the resolver compare.\<close>

lemma import_ignores_version:
  "let m = \<lparr> mu_authority = Local, mu_name = [''t''], mu_version = Pinned [2], mu_selector = None, mu_query = None \<rparr>
   in import_binding ''T'' m (Some ''murl://local/t@1'') = Inr ()
      \<and> \<not> is_ok (check_declared m (Some ''murl://local/t@1'')) \<and> \<not> is_ok (bind_identity l orig (Some m) (Some ''murl://local/t@1''))"
proof -
  have p: "murl_parse ''murl://local/t@1'' = Inr \<lparr> mu_authority = Local, mu_name = [''t''], mu_version = Pinned [1], mu_selector = None, mu_query = None \<rparr>"
    by code_simp
  show ?thesis by (simp add: import_binding_def check_declared_def bind_identity_def p version_conflicts_def Let_def)
qed

text \<open>Re-homing can make a name longer than any name that is accepted, so that what was
  installed cannot be addressed.\<close>

lemma rehomed_unreachable:
  "let m = \<lparr> mu_authority = Remote ''a'' None, mu_name = replicate 5 (replicate 64 CHR ''('') @ [replicate 50 CHR ''x''],
             mu_version = Latest, mu_selector = None, mu_query = None \<rparr>
   in wf_murl m \<and> \<not> is_ok (murl_parse (identity (rehomed m)))"
  by code_simp

section \<open>What name add installs\<close>

lemma check_declared_iff:
  "check_declared m declared_id = Inr () \<longleftrightarrow>
     (case declared_id of None \<Rightarrow> True
      | Some d \<Rightarrow> \<exists>k. murl_parse d = Inr k \<and> mu_authority k = mu_authority m \<and> mu_name k = mu_name m
          \<and> \<not> version_conflicts (mu_version k) (mu_version m))"
  by (auto simp: check_declared_def Let_def split: option.split if_splits)

lemma bind_identity_iff:
  "bind_identity label orig (Some m) declared_id = Inr () \<longleftrightarrow> check_declared m declared_id = Inr ()"
  by (auto simp: bind_identity_def check_declared_iff split: option.split if_splits)

lemma checked_manifest_iff:
  "checked_manifest x lim file b = Inr mf \<longleftrightarrow> manifest_from_slice (x_events x) lim b = Inr mf \<and> wf_manifest x mf"
  by (auto simp: checked_manifest_def is_valid_def validate_errors split: if_splits)

lemma check_manifest_result:
  assumes "manifest_from_slice (x_events (rv_ext v)) (rv_limits v) b = Inr mf" "wf_manifest (rv_ext v) mf"
    and "bind_identity (node_label m orig) orig m (md_id (mf_doc mf)) = Inr ()"
  shows "fst (check_manifest v m b orig s)
    = map_err Err (and_then (verify_manifest (rv_ext v) (mf_raw mf)) (\<lambda>verified. Inr (mf, verified)))"
proof -
  have "into_result (validate (rv_ext v) mf) = Inr (validate (rv_ext v) mf)"
    using assms(2) into_result_iff by blast
  then show ?thesis
    using assms(1,3)
    by (cases "verify_manifest (rv_ext v) (mf_raw mf)")
      (simp_all add: check_manifest_def Let_def bindS_def liftS_def warn_all_eq warn_when_def returnS_def warnS_def)
qed

text \<open>
  C27: what \<open>name add\<close> installs resolves. If it succeeds, the file is a manifest that satisfies
  the specification, under a local name its declared id, if any, agrees with; its bytes are now
  stored under exactly that name and no other name has changed. A resolver over the
  new store locates those bytes by that name and admits them, unless the manifest
  carries a signature that does not verify, which \<open>name add\<close> does not look at.
\<close>

theorem name_add_resolvable:
  assumes "fs_wf f" "name_add (rv_ext v) (rv_limits v) name file contents f = (Inr p, rv_names v)"
  shows "\<exists>m b mf. parse_local_name name = Inr m \<and> store_key m \<and> contents = Inr b
     \<and> manifest_from_slice (x_events (rv_ext v)) (rv_limits v) b = Inr mf \<and> wf_manifest (rv_ext v) mf
     \<and> fs_wf (rv_names v) \<and> (\<forall>k. store_key k \<longrightarrow> store_content (rv_names v) k = (if k = m then Some b else store_content f k))
     \<and> fst (locate v m s) = Inr (b, LocalStore (path_display (rv_names_root v) p))
     \<and> fst (check_manifest v (Some m) b orig s)
         = map_err Err (and_then (verify_manifest (rv_ext v) (mf_raw mf)) (\<lambda>verified. Inr (mf, verified)))"
proof -
  obtain m b mf where m: "parse_local_name name = Inr m" and b: "contents = Inr b"
    and mf: "manifest_from_slice (x_events (rv_ext v)) (rv_limits v) b = Inr mf" "wf_manifest (rv_ext v) mf"
    and d: "check_declared m (md_id (mf_doc mf)) = Inr ()" and add: "store_step (store_add m b f) = (Inr p, rv_names v)"
    using assms(2) by (auto simp: name_add_def cannot_read_def checked_manifest_iff split: sum.splits)
  have key: "store_key m" using m read_local_name_ok unfolding parse_local_name_def by blast
  obtain q g where a: "store_add m b f = (q, g)" by fastforce
  then have a': "store_add m b f = (Inr p, rv_names v)" using add by (cases q) (simp_all add: store_step_def)
  then have p: "p = manifest_path m"
    by (auto simp: store_add_def Let_def split: sum.splits)
  have wf: "fs_wf (rv_names v)" and upd: "fs_file (rv_names v) = (fs_file f)(manifest_path m \<mapsto> b)"
    using store_add_file [OF assms(1), of m b] by (simp_all add: a')
  have "store_content (rv_names v) k = (if k = m then Some b else store_content f k)" if "store_key k" for k
    using store_key_path [OF key that] by (auto simp: store_content_file upd)
  moreover have "fst (locate v m s) = Inr (b, LocalStore (path_display (rv_names_root v) p))"
  proof -
    have "fs_read (rv_names v) (manifest_path m) = Inr b"
      using fun_cong [OF upd, of "manifest_path m"] by (simp add: fs_file_def split: sum.splits)
    then show ?thesis using key by (simp add: locate_def store_key_def store_load_def Let_def p)
  qed
  moreover have "bind_identity (node_label (Some m) orig) orig (Some m) (md_id (mf_doc mf)) = Inr ()"
    using d by (simp add: bind_identity_iff)
  ultimately show ?thesis using m key b mf wf check_manifest_result [OF mf] by blast
qed

section \<open>What import installs\<close>

text \<open>A place in the local store with a valid manifest whose declared id, if any, has
  that name.\<close>

definition installable :: "ext \<Rightarrow> limits \<Rightarrow> murl \<times> bytes \<Rightarrow> bool" where
  "installable x lim p \<longleftrightarrow>
     (case p of (m, b) \<Rightarrow>
        mu_authority m = Local \<and> mu_selector m = None \<and> mu_query m = None \<and> file_slot m \<and> list_all wf_segment (mu_name m)
        \<and> (\<exists>mf. manifest_from_slice (x_events x) lim b = Inr mf \<and> wf_manifest x mf
             \<and> (case md_id (mf_doc mf) of None \<Rightarrow> True
                | Some d \<Rightarrow> \<exists>k. murl_parse d = Inr k \<and> mu_authority k = Local \<and> mu_name k = mu_name m)))"

lemma import_binding_iff:
  "import_binding t m declared_id = Inr () \<longleftrightarrow>
     (case declared_id of None \<Rightarrow> True
      | Some d \<Rightarrow> \<exists>k. murl_parse d = Inr k \<and> mu_authority k = mu_authority m \<and> mu_name k = mu_name m)"
  by (auto simp: import_binding_def split: option.split if_splits)

definition home_ok :: "murl \<Rightarrow> bool" where
  "home_ok m \<longleftrightarrow> mu_authority m = Local \<and> mu_selector m = None \<and> mu_query m = None \<and> file_slot m \<and> list_all wf_segment (mu_name m)"

lemma home_ok_key: "store_key m \<Longrightarrow> home_ok m"
  by (auto simp: home_ok_def store_key_def file_slot_def wf_murl_def)

lemma home_ok_rehomed: "wf_murl m \<Longrightarrow> home_ok (rehomed m)"
  by (auto simp: home_ok_def rehomed_def file_slot_def wf_murl_def)

lemma entry_home_ok: "entry_home root as_name i e = Inr m \<Longrightarrow> home_ok m"
  using read_local_name_ok home_ok_key home_ok_rehomed wf_murl_sound
  by (auto simp: entry_home_def local_name_def Let_def split: option.splits bool.splits)

lemma entry_decode_manifest:
  assumes "entry_ok x lim e" "entry_decode x lim e = Inr b" "manifest_from_slice (x_events x) lim b = Inr mf"
  shows "wf_manifest x mf"
  using assms by (auto simp: entry_ok_def entry_decode_def)

lemma import_plan_ok:
  assumes "import_plan x lim root as_name i claimed es = Inr plan" "list_all (entry_ok x lim) es"
  shows "list_all (installable x lim) plan \<and> map (Inr \<circ> snd) plan = map (entry_decode x lim) es
    \<and> distinct (map (identity \<circ> fst) plan) \<and> set (map (identity \<circ> fst) plan) \<inter> fst ` set claimed = {}"
  using assms
proof (induction es arbitrary: i claimed plan)
  case (Cons e es)
  obtain m b mf rest where m: "entry_home root as_name i e = Inr m" and b: "entry_decode x lim e = Inr b"
    and mf: "manifest_from_slice (x_events x) lim b = Inr mf" and d: "import_binding (be_name e) m (md_id (mf_doc mf)) = Inr ()"
    and new: "map_of claimed (identity m) = None"
    and rest: "import_plan x lim root as_name (i + 1) ((identity m, entry_title e) # claimed) es = Inr rest"
    and plan: "plan = (m, b) # rest"
    using Cons.prems(1) by (auto split: option.splits)
  have "entry_ok x lim e" using Cons.prems(2) by simp
  from entry_decode_manifest [OF this b mf] have "installable x lim (m, b)"
    using entry_home_ok [OF m] mf d by (auto simp: installable_def home_ok_def import_binding_iff split: option.splits)
  moreover have "identity m \<notin> fst ` set claimed" using new by (simp add: map_of_eq_None_iff)
  ultimately show ?case
    using Cons.IH [OF rest] Cons.prems(2) b by (auto simp: plan)
qed simp

lemma installable_home: "installable x lim (m, b) \<Longrightarrow> home_ok m"
  by (auto simp: installable_def home_ok_def)

lemma identity_same:
  "mu_authority m = mu_authority k \<Longrightarrow> mu_name m = mu_name k \<Longrightarrow> mu_version m = mu_version k \<Longrightarrow> identity m = identity k"
  unfolding identity_def by (simp only:)

lemma installable_paths:
  assumes "list_all (installable x lim) plan" "distinct (map (identity \<circ> fst) plan)"
  shows "distinct (map (manifest_path \<circ> fst) plan)"
proof -
  have "home_ok (fst p)" if "p \<in> set plan" for p
    using assms(1) that installable_home [of x lim "fst p" "snd p"] by (auto simp: list_all_iff)
  then have "identity (fst p) = identity (fst q)"
    if "p \<in> set plan" "q \<in> set plan" "manifest_path (fst p) = manifest_path (fst q)" for p q
    using manifest_path_inject [of "fst p" "fst q"] that identity_same [of "fst p" "fst q"] by (simp add: home_ok_def)
  then have "inj_on (\<lambda>p. identity (fst p)) (set plan) \<Longrightarrow> inj_on (\<lambda>p. manifest_path (fst p)) (set plan)"
    unfolding inj_on_def by blast
  then show ?thesis using assms(2) by (simp add: distinct_map comp_def)
qed

definition stored_files :: "(murl \<times> bytes) list \<Rightarrow> (path \<times> bytes) list" where
  "stored_files plan = map (\<lambda>(m, b). (manifest_path m, b)) plan"

lemma install_all_files:
  assumes "fs_wf f" "install_all plan f = (r, f')" "distinct (map (manifest_path \<circ> fst) plan)"
  shows "\<exists>n\<le>length plan. fs_wf f' \<and> fs_file f' = fs_file f ++ map_of (stored_files (take n plan))
    \<and> (\<forall>ids. r = Inr ids \<longrightarrow> n = length plan \<and> ids = map (identity \<circ> fst) plan)"
  using assms
proof (induction plan arbitrary: f r)
  case (Cons p plan)
  obtain m b where p: "p = (m, b)" by fastforce
  obtain q g where a: "store_add m b f = (q, g)" by fastforce
  note g = store_add_file [OF Cons.prems(1), of m b]
  show ?case
  proof (cases q)
    case (Inl e)
    then show ?thesis using Cons.prems(2) g by (intro exI [of _ 0]) (auto simp: p a stored_files_def)
  next
    case (Inr path)
    have wf: "fs_wf g" and upd: "fs_file g = (fs_file f)(manifest_path m \<mapsto> b)" using g by (simp_all add: a Inr)
    obtain r1 where i: "install_all plan g = (r1, f')" and r: "r = map_sum id ((#) (identity m)) r1"
      using Cons.prems(2) by (auto simp: p a Inr split: prod.splits sum.splits)
    have "distinct (map (manifest_path \<circ> fst) plan)" using Cons.prems(3) by (simp add: comp_def)
    from Cons.IH [OF wf i this] obtain n where n: "n \<le> length plan" "fs_wf f'" "fs_file f' = fs_file g ++ map_of (stored_files (take n plan))"
      "\<forall>ids. r1 = Inr ids \<longrightarrow> n = length plan \<and> ids = map (identity \<circ> fst) plan"
      by blast
    have "manifest_path m \<notin> fst ` set (stored_files (take n plan))"
      using Cons.prems(3) by (force simp: p stored_files_def dest!: in_set_takeD)
    then have "map_of (stored_files (take n plan)) (manifest_path m) = None" by (simp add: map_of_eq_None_iff)
    then have "fs_file f' = fs_file f ++ map_of (stored_files (take (n + 1) (p # plan)))"
      by (auto simp: n(3) upd p stored_files_def map_add_def fun_eq_iff split: option.splits)
    then show ?thesis using n r by (intro exI [of _ "n + 1"]) (cases r1; auto simp: p)
  qed
qed (simp add: stored_files_def)

lemma fs_exists_file: "\<not> fs_exists f p \<Longrightarrow> fs_file f p = None"
  by (auto simp: fs_exists_def fs_file_def fs_read_def)

lemma refuse_overwrite_ok:
  "refuse_overwrite f plan = Inr () \<Longrightarrow> list_all (\<lambda>(m, b). fs_file f (manifest_path m) = None) plan"
  by (auto simp: refuse_overwrite_def find_None_iff list_all_iff fs_exists_file split: option.splits)

text \<open>
  C28: an import stays in the local namespace. Whatever the bundle says and however the
  import ends, the files of the store that changed are those of a plan of pairwise different local
  names, each given a valid manifest whose declared id, if any, has that local name;
  without \<open>--force\<close> none of them had a file before. If it succeeds, the plan was carried out
  completely, one entry after the other, with the exact bytes each entry of
  the accepted bundle carries. If it fails, a part of the plan, from its front, may have
  been installed (a write that fails stops it there); a panic has installed nothing.
\<close>

theorem import_confined:
  assumes "fs_wf f" "bundle_import x lim file contents as_name force f = (r, f')"
  shows "\<exists>plan n. n \<le> length plan \<and> list_all (installable x lim) plan \<and> distinct (map (manifest_path \<circ> fst) plan)
    \<and> fs_wf f' \<and> fs_file f' = fs_file f ++ map_of (stored_files (take n plan))
    \<and> (force \<or> list_all (\<lambda>(m, b). fs_file f (manifest_path m) = None) plan)
    \<and> (case r of
         Inl e \<Rightarrow> e = Panic \<longrightarrow> n = 0
       | Inr ids \<Rightarrow> n = length plan \<and> ids = map (identity \<circ> fst) plan
           \<and> (\<exists>b bu. contents = Inr b \<and> bundle_from_slice x lim b = Inr bu
                \<and> map (Inr \<circ> snd) plan = map (entry_decode x lim) (bu_entries bu)))"
proof -
  define prepared where "prepared = and_then (cannot_read file contents) (\<lambda>b.
           and_then (map_err Err (bundle_from_slice x lim b)) (\<lambda>bu.
           and_then (import_plan x lim (bu_root bu) as_name 0 [] (bu_entries bu)) (\<lambda>plan.
           and_then (if force then Inr () else map_err Err (refuse_overwrite f plan)) (\<lambda>_. Inr plan))))"
  have run: "(case prepared of Inl e \<Rightarrow> (Inl e, f) | Inr plan \<Rightarrow> store_step (install_all plan f)) = (r, f')"
    using assms(2) unfolding bundle_import_def prepared_def .
  show ?thesis
  proof (cases prepared)
    case (Inl e)
    then show ?thesis using run assms(1) by (intro exI [of _ "[]"] exI [of _ 0]) (auto simp: stored_files_def)
  next
    case (Inr plan)
    obtain b bu where b: "contents = Inr b" and bu: "bundle_from_slice x lim b = Inr bu"
      and plan: "import_plan x lim (bu_root bu) as_name 0 [] (bu_entries bu) = Inr plan"
      and keep: "force \<or> refuse_overwrite f plan = Inr ()"
      using Inr by (auto simp: prepared_def cannot_read_def split: if_splits)
    have "list_all (entry_ok x lim) (bu_entries bu)" using bu by (simp add: bundle_from_slice_iff)
    note ok = import_plan_ok [OF plan this]
    have paths: "distinct (map (manifest_path \<circ> fst) plan)" using installable_paths ok by blast
    obtain q g where i: "install_all plan f = (q, g)" by fastforce
    have out: "r = map_err Err q" "f' = g" using run by (simp_all add: Inr i store_step_def)
    from install_all_files [OF assms(1) i paths] obtain n where n: "n \<le> length plan" "fs_wf g"
      "fs_file g = fs_file f ++ map_of (stored_files (take n plan))"
      "\<forall>ids. q = Inr ids \<longrightarrow> n = length plan \<and> ids = map (identity \<circ> fst) plan" by blast
    have "force \<or> list_all (\<lambda>(m, b). fs_file f (manifest_path m) = None) plan" using keep refuse_overwrite_ok by blast
    then show ?thesis
      using n ok paths b bu by (intro exI [of _ plan] exI [of _ n]) (cases q; auto simp: out)
  qed
qed

text \<open>The first sample manifest of the resolver, added to an empty store and imported from a
  bundle that holds it without an identity.\<close>

definition import_ext :: ext where
  "import_ext = toy_ext\<lparr> x_events := (\<lambda>b.
     if b = ''bundle''
     then Inr (RMap [(''bundleVersion'', RStr ''0.2''), (''entries'', RSeq [RMap [(''name'', RStr ''Root''),
            (''integrity'', RStr (make_integrity toy_ext ''root'')), (''bytes'', RStr (toy_hex ''root''))]])])
     else sample_events b) \<rparr>"

lemma sample_checked:
  "manifest_from_slice sample_events default_limits ''root'' = Inr (sample_manifest ''root'')"
  "wf_manifest (rv_ext sample_resolver) (sample_manifest ''root'')" "md_id (mf_doc (sample_manifest ''root'')) = None"
  using sample_clean(1) by (simp_all add: clean_def validate_errors sample_resolver_def)

lemma sample_local: "parse_local_name ''root'' = Inr (sample_name ''root'')"
  by code_simp

lemma sample_add: "is_ok (fst (name_add (rv_ext sample_resolver) default_limits ''root'' ''r.json'' (Inr ''root'') []))"
proof -
  have e: "x_events (rv_ext sample_resolver) = sample_events" by (simp add: sample_resolver_def)
  have "checked_manifest (rv_ext sample_resolver) default_limits ''r.json'' ''root'' = Inr (sample_manifest ''root'')"
    unfolding checked_manifest_iff e using sample_checked(1,2) by simp
  then have "name_add (rv_ext sample_resolver) default_limits ''root'' ''r.json'' (Inr ''root'') [] = store_step (store_add (sample_name ''root'') ''root'' [])"
    by (simp add: name_add_def sample_local cannot_read_def check_declared_def sample_checked(3))
  moreover have "is_ok (fst (store_step (store_add (sample_name ''root'') ''root'' [])))" by code_simp
  ultimately show ?thesis by (simp only:)
qed

theorem name_add_resolvable_witness:
  "store_content (snd (name_add (rv_ext sample_resolver) default_limits ''root'' ''r.json'' (Inr ''root'') [])) (sample_name ''root'') = Some ''root''"
proof -
  obtain p g where r: "name_add (rv_ext sample_resolver) default_limits ''root'' ''r.json'' (Inr ''root'') [] = (Inr p, g)"
    using sample_add unfolding is_ok_iff by (metis prod.collapse)
  let ?v = "sample_resolver\<lparr> rv_names := g \<rparr>"
  have w: "fs_wf []" by code_simp
  have "rv_limits sample_resolver = default_limits" by (simp add: sample_resolver_def)
  then have "name_add (rv_ext ?v) (rv_limits ?v) ''root'' ''r.json'' (Inr ''root'') [] = (Inr p, rv_names ?v)" using r by simp
  from name_add_resolvable [OF w this, of "default_state []" "LocalStore ''x''"]
  obtain m where "parse_local_name ''root'' = Inr m" "store_key m" "store_content g m = Some ''root''" by auto
  then show ?thesis by (simp add: r sample_local)
qed

definition sample_entry :: bundle_entry where
  "sample_entry = \<lparr> be_identity = None, be_name = ''Root'', be_integrity = make_integrity toy_ext ''root'', be_bytes = toy_hex ''root'' \<rparr>"

definition sample_bundle :: bundle_doc where
  "sample_bundle = \<lparr> bu_version = ''0.2'', bu_root = None, bu_entries = [sample_entry] \<rparr>"

lemma import_root_manifest:
  "manifest_from_slice (x_events import_ext) default_limits ''root'' = Inr (sample_manifest ''root'')"
  "wf_manifest import_ext (sample_manifest ''root'')"
proof -
  show "manifest_from_slice (x_events import_ext) default_limits ''root'' = Inr (sample_manifest ''root'')" by code_simp
  have "vr_errors (validate import_ext (sample_manifest ''root'')) = []" by code_simp
  then show "wf_manifest import_ext (sample_manifest ''root'')" by (simp add: validate_errors)
qed

lemma sample_entry_ok: "entry_decode import_ext default_limits sample_entry = Inr ''root''" "entry_ok import_ext default_limits sample_entry"
proof -
  have d: "x_b64_decode import_ext (be_bytes sample_entry) = Inr ''root''" "be_identity sample_entry = None"
    "length ''root'' \<le> max_manifest_bytes default_limits" by code_simp+
  then show "entry_decode import_ext default_limits sample_entry = Inr ''root''" by (simp add: entry_decode_def)
  have "check_integrity import_ext ''root'' (be_integrity sample_entry) = Inr ()" by code_simp
  then show "entry_ok import_ext default_limits sample_entry"
    using d import_root_manifest unfolding entry_ok_def by auto
qed

lemma sample_bundle_accepted: "bundle_from_slice import_ext default_limits ''bundle'' = Inr sample_bundle"
proof -
  have "\<exists>v. from_slice_strict (x_events import_ext) ''bundle'' = Inr v \<and> de_bundle v = Inr sample_bundle"
  proof -
    have "and_then (from_slice_strict (x_events import_ext) ''bundle'') de_bundle = Inr sample_bundle" by code_simp
    then show ?thesis by simp
  qed
  moreover have "length ''bundle'' \<le> bundle_cap default_limits" "bu_version sample_bundle = BUNDLE_VERSION" "bu_root sample_bundle = None"
    "distinct (entry_ids (bu_entries sample_bundle))" "bu_entries sample_bundle = [sample_entry]" by code_simp+
  ultimately show ?thesis using sample_entry_ok(2) unfolding bundle_from_slice_iff by simp
qed

lemma sample_import: "fst (bundle_import import_ext default_limits ''b.json'' (Inr ''bundle'') (Some ''root'') False []) = Inr [''murl://local/root'']"
proof -
  have home: "entry_home None (Some ''root'') 0 sample_entry = Inr (sample_name ''root'')" by code_simp
  have plan: "import_plan import_ext default_limits None (Some ''root'') 0 [] [sample_entry] = Inr [(sample_name ''root'', ''root'')]"
    by (simp add: home sample_entry_ok(1) import_root_manifest(1) import_binding_def sample_checked(3))
  have "refuse_overwrite [] [(sample_name ''root'', ''root'')] = Inr ()" by code_simp
  then have "bundle_import import_ext default_limits ''b.json'' (Inr ''bundle'') (Some ''root'') False []
      = store_step (install_all [(sample_name ''root'', ''root'')] [])"
    by (simp add: bundle_import_def cannot_read_def sample_bundle_accepted sample_bundle_def plan del: import_plan.simps install_all.simps)
  moreover have "fst (store_step (install_all [(sample_name ''root'', ''root'')] [])) = Inr [''murl://local/root'']" by code_simp
  ultimately show ?thesis by (simp only:)
qed

theorem import_confined_witness:
  "\<exists>f'. bundle_import import_ext default_limits ''b.json'' (Inr ''bundle'') (Some ''root'') False [] = (Inr [''murl://local/root''], f') \<and> fs_wf f'"
proof -
  obtain f' where r: "bundle_import import_ext default_limits ''b.json'' (Inr ''bundle'') (Some ''root'') False [] = (Inr [''murl://local/root''], f')"
    using sample_import by (metis prod.collapse)
  have w: "fs_wf []" by code_simp
  from import_confined [OF w r] r show ?thesis by blast
qed

end
