(* ===== verification/Export.thy ===== *)
theory Export
  imports Names_Cmd
begin

text \<open>
  Resolving a target at the command line (\<open>murl-cli/src/ctx.rs\<close>) and writing it to a bundle
  (\<open>commands/bundle_cmd.rs\<close>). The files named on the command line are a \<open>disk\<close>, read and
  written by path; the cache is a file system of its own. What \<open>export\<close> returns is what it
  wrote and where.
\<close>

section \<open>Targets\<close>

record app =
  ap_resolver :: resolver
  ap_offline :: bool
  ap_refresh :: bool

definition with_resolver :: "app \<Rightarrow> resolver" where
  "with_resolver a = (if ap_offline a then (ap_resolver a)\<lparr> rv_remote := None \<rparr> else ap_resolver a)"

text \<open>\<open>--refresh\<close> evicts the name first; a failure to do so is ignored.\<close>

definition refreshed :: "app \<Rightarrow> murl \<Rightarrow> fs \<Rightarrow> fs" where
  "refreshed a m cache =
     (case (ap_refresh a, rv_cache (ap_resolver a)) of
        (True, Some root) \<Rightarrow> snd (cache_evict (rv_ext (ap_resolver a)) root (identity m) cache)
      | _ \<Rightarrow> cache)"

definition resolve_target :: "app \<Rightarrow> (string \<Rightarrow> io_error + bytes) \<Rightarrow> fs \<Rightarrow> string \<Rightarrow> (fault + resolution) \<times> fs" where
  "resolve_target a read cache t =
     (case parse_target t of
        Inl e \<Rightarrow> (Inl e, cache)
      | Inr (MurlTarget m) \<Rightarrow>
          (let (r, s) = resolve (with_resolver a) (refreshed a m cache) m in (r, st_cache s))
      | Inr (FileTarget p) \<Rightarrow>
          (let (r, s) = resolve_file (with_resolver a) cache p (read p) in (r, st_cache s)))"

definition fetch_root_of ::
  "app \<Rightarrow> (string \<Rightarrow> io_error + bytes) \<Rightarrow> fs \<Rightarrow> string \<Rightarrow> (fault + manifest \<times> origin \<times> string list \<times> murl option) \<times> fs" where
  "fetch_root_of a read cache t =
     (case parse_target t of
        Inl e \<Rightarrow> (Inl e, cache)
      | Inr (MurlTarget m) \<Rightarrow>
          (let (r, s) = fetch_root (with_resolver a) (refreshed a m cache) m in
           (and_then r (\<lambda>(mf, orig, ws). Inr (mf, orig, ws, Some m)), st_cache s))
      | Inr (FileTarget p) \<Rightarrow>
          (and_then (cannot_read p (read p)) (\<lambda>b.
           and_then (map_err Err (manifest_from_slice (x_events (rv_ext (ap_resolver a))) (rv_limits (ap_resolver a)) b)) (\<lambda>mf.
             Inr (mf, LocalFile p, [], None))), cache))"

section \<open>murl export\<close>

datatype exported = ToStdout bytes | ToFile string bytes

definition export_file_name :: "string option \<Rightarrow> string" where
  "export_file_name root_id =
     map (\<lambda>c. if c = CHR ''@'' \<or> c = CHR ''%'' then CHR ''-'' else c)
       (case root_id of Some i \<Rightarrow> last (split_on CHR ''/'' i) | None \<Rightarrow> ''destination'')
     @ ''.murlbundle.json''"

definition export_resolution ::
  "ext \<Rightarrow> (string \<Rightarrow> string option) \<Rightarrow> resolution \<Rightarrow> string option \<Rightarrow> disk \<Rightarrow> (fault + exported) \<times> disk" where
  "export_resolution x refuses r out d =
     (case from_resolution x r of
        None \<Rightarrow> (Inl Panic, d)
      | Some (Inl e) \<Rightarrow> (Inl (Err e), d)
      | Some (Inr b) \<Rightarrow>
          (let text = to_json_bytes x b in
           if out = Some ''-'' then (Inr (ToStdout text), d)
           else
             let path = (case out of Some p \<Rightarrow> p | None \<Rightarrow> export_file_name (bu_root b)) in
             case disk_write refuses path text d of
               (Inl e, d') \<Rightarrow> (Inl (Err e), d')
             | (Inr _, d') \<Rightarrow> (Inr (ToFile path text), d')))"

definition export ::
  "app \<Rightarrow> (string \<Rightarrow> string option) \<Rightarrow> fs \<Rightarrow> string \<Rightarrow> string option \<Rightarrow> disk \<Rightarrow> (fault + exported) \<times> fs \<times> disk" where
  "export a refuses cache t out d =
     (let (r, cache') = resolve_target a d cache t in
      case r of
        Inl e \<Rightarrow> (Inl e, cache', d)
      | Inr res \<Rightarrow> (let (w, d') = export_resolution (rv_ext (ap_resolver a)) refuses res out d in (w, cache', d')))"

section \<open>The names of a resolution are canonical\<close>

definition ids_canonical :: "rstate \<Rightarrow> bool" where
  "ids_canonical s \<longleftrightarrow> list_all canonical_identity (node_ids (st_nodes s))"

lemma identity_canonical: "wf_murl m \<Longrightarrow> canonical_identity (identity m)"
  using identity_same [of "bare m" m] by (simp add: canonical_identity_def parse_identity bare_def)

interpretation canonical: resolution_rules v "\<lambda>m s. wf_murl m \<and> ids_canonical s" "\<lambda>om s. opt_all wf_murl om \<and> ids_canonical s" ids_canonical
proof
  fix om :: "murl option" and s v b orig mf verified depth w now
  assume "opt_all wf_murl om \<and> ids_canonical s"
  then show "ids_canonical (s\<lparr> st_warnings := w, st_nodes := st_nodes s @ [make_node v om b orig depth mf verified now] \<rparr>)"
    using identity_canonical by (cases om) (simp_all add: ids_canonical_def node_ids_single make_node_def)
qed (auto simp: ids_canonical_def located_def wf_murl_sound)

lemma resolve_canonical:
  assumes "resolve v cache m = (Inr r, s)" "wf_murl m"
  shows "list_all canonical_identity (node_ids (rs_nodes r))"
proof -
  have "good (locality_of (mu_authority m)) (start_state cache m) (\<lambda>_ t. ids_canonical t \<and> frame (start_state cache m) t)
     (ingest_named v m 0 None None (start_state cache m))"
    using assms(2) by (intro canonical.named_rule) (simp_all add: ids_canonical_def start_state_def default_state_def node_ids_def map_filter_simps)
  moreover obtain q t where i: "ingest_named v m 0 None None (start_state cache m) = (q, t)" by fastforce
  moreover have "finish t (mu_selector m) = Inr r" "q = Inr ()"
    using assms(1) by (cases q; simp add: resolve_unfold bindS_def finish_stack i)+
  ultimately show ?thesis using finish_fields [of t] by (auto simp: good_def ends_def ids_canonical_def)
qed

lemma resolve_file_canonical:
  assumes "resolve_file v cache p contents = (Inr r, s)"
  shows "list_all canonical_identity (node_ids (rs_nodes r))"
proof (cases contents)
  case (Inr b)
  have "good ThisDevice (default_state cache) (\<lambda>_ t. ids_canonical t \<and> frame (default_state cache) t)
     (ingest_bytes v None b (LocalFile p) 0 None (default_state cache))"
    by (intro canonical.bytes_rule) (simp_all add: ids_canonical_def default_state_def node_ids_def map_filter_simps)
  moreover obtain q t where i: "ingest_bytes v None b (LocalFile p) 0 None (default_state cache) = (q, t)" by fastforce
  moreover have "finish t None = Inr r" "q = Inr ()"
    using assms Inr by (cases q; simp add: resolve_file_def bindS_def i)+
  ultimately show ?thesis using finish_fields [of t] by (auto simp: good_def ids_canonical_def)
qed (use assms in \<open>simp add: resolve_file_def failS_def\<close>)

text \<open>What any target resolves to, a name or a file.\<close>

lemma parse_target_wf: "parse_target t = Inr (MurlTarget m) \<Longrightarrow> wf_murl m"
  by (auto simp: parse_target_def and_then_Inr_iff wf_murl_sound split: if_splits sum.splits)

lemma resolve_target_success:
  assumes "resolve_target a read cache t = (Inr r, cache1)"
  shows "resolution_ok (with_resolver a) r \<and> rs_nodes r \<noteq> [] \<and> list_all canonical_identity (node_ids (rs_nodes r))"
proof (cases "parse_target t")
  case (Inr ref)
  show ?thesis
  proof (cases ref)
    case (MurlTarget m)
    then obtain s where "resolve (with_resolver a) (refreshed a m cache) m = (Inr r, s)"
      using assms Inr by (auto simp: resolve_target_def split: prod.splits)
    then show ?thesis using resolve_success resolve_canonical parse_target_wf Inr MurlTarget by blast
  next
    case (FileTarget p)
    then obtain s where f: "resolve_file (with_resolver a) cache p (read p) = (Inr r, s)"
      using assms Inr by (auto simp: resolve_target_def split: prod.splits)
    then show ?thesis
      using resolve_file_safe [of "with_resolver a" cache p "read p"] resolve_file_canonical [OF f] by simp
  qed
qed (use assms in \<open>simp add: resolve_target_def\<close>)

text \<open>The target is a name when it has the prefix of one, else the path of a file.\<close>

definition target_run :: "app \<Rightarrow> disk \<Rightarrow> fs \<Rightarrow> string \<Rightarrow> resolution \<Rightarrow> fs \<Rightarrow> bool" where
  "target_run a d cache t r cache' \<longleftrightarrow>
     (\<exists>m s. murl_prefixed t = Inr True \<and> murl_parse t = Inr m
        \<and> resolve (with_resolver a) (refreshed a m cache) m = (Inr r, s) \<and> cache' = st_cache s)
     \<or> (\<exists>s. murl_prefixed t = Inr False \<and> resolve_file (with_resolver a) cache t (d t) = (Inr r, s) \<and> cache' = st_cache s)"

lemma resolve_target_run:
  assumes "resolve_target a d cache t = (Inr r, cache')"
  shows "target_run a d cache t r cache'"
proof (cases "murl_prefixed t")
  case (Inr b)
  show ?thesis
  proof (cases b)
    case True
    then obtain m where m: "murl_parse t = Inr m"
      using assms Inr by (cases "murl_parse t") (simp_all add: resolve_target_def parse_target_def)
    then show ?thesis using assms Inr True
      by (cases "resolve (with_resolver a) (refreshed a m cache) m") (simp add: resolve_target_def parse_target_def target_run_def)
  next
    case False
    then show ?thesis using assms Inr
      by (cases "resolve_file (with_resolver a) cache t (d t)") (simp add: resolve_target_def parse_target_def target_run_def)
  qed
qed (use assms in \<open>simp add: resolve_target_def parse_target_def\<close>)

lemma with_resolver_same [simp]:
  "rv_ext (with_resolver a) = rv_ext (ap_resolver a)" "rv_limits (with_resolver a) = rv_limits (ap_resolver a)"
  by (simp_all add: with_resolver_def)

section \<open>What was exported can be imported\<close>

lemma read_entry: "\<exists>v. visit (as_raw (JObj (entry_members e))) = Inr v \<and> de_entry v = Inr e"
proof -
  have "distinct (map fst (entry_members e))"
    "list_all2 (\<lambda>p q. fst q = fst p \<and> visit (as_raw (snd p)) = Inr (snd q)) (entry_members e) (entry_members e)"
    by (simp_all add: entry_members_def opt_member_def split: option.split)
  from visit_members [OF this] obtain l where l: "visit (as_raw (JObj (entry_members e))) = Inr (JObj l)" "map_of l = map_of (entry_members e)"
    by blast
  have "map_of (entry_members e) = (\<lambda>k. if k = ''identity'' then map_option JStr (be_identity e) else if k = ''name'' then Some (JStr (be_name e))
      else if k = ''integrity'' then Some (JStr (be_integrity e)) else if k = ''bytes'' then Some (JStr (be_bytes e)) else None)"
    by (auto simp: entry_members_def opt_member_def fun_eq_iff split: option.split)
  then have "de_entry (JObj l) = Inr e"
    by (cases "be_identity e") (simp_all add: de_entry_def fields_of_def optional_def required_def de_string_def l(2))
  then show ?thesis using l(1) by blast
qed

lemma read_entries: "\<exists>vs. visit (as_raw (JArr (map (\<lambda>e. JObj (entry_members e)) es))) = Inr (JArr vs) \<and> traverse de_entry vs = Inr es"
proof -
  have "\<exists>vs. traverse visit (map (\<lambda>e. as_raw (JObj (entry_members e))) es) = Inr vs \<and> traverse de_entry vs = Inr es"
  proof (induction es)
    case (Cons e es)
    obtain v vs where "visit (as_raw (JObj (entry_members e))) = Inr v" "de_entry v = Inr e"
      "traverse visit (map (\<lambda>e. as_raw (JObj (entry_members e))) es) = Inr vs" "traverse de_entry vs = Inr es"
      using read_entry [of e] Cons by blast
    then show ?case by (intro exI [of _ "v # vs"]) (simp del: as_raw.simps visit.simps)
  qed simp
  then show ?thesis by (auto simp: visit_seq_traverse comp_def simp del: as_raw.simps(7) visit.simps(8))
qed

lemma read_bundle: "\<exists>v. visit (as_raw (JObj (bundle_members b))) = Inr v \<and> de_bundle v = Inr b"
proof -
  let ?es = "JArr (map (\<lambda>e. JObj (entry_members e)) (bu_entries b))"
  obtain vs where vs: "visit (as_raw ?es) = Inr (JArr vs)" "traverse de_entry vs = Inr (bu_entries b)" using read_entries by blast
  define m' where "m' = [(''bundleVersion'', JStr (bu_version b))] @ opt_member ''root'' (bu_root b) @ [(''entries'', JArr vs)]"
  have "distinct (map fst (bundle_members b))"
    "list_all2 (\<lambda>p q. fst q = fst p \<and> visit (as_raw (snd p)) = Inr (snd q)) (bundle_members b) m'"
    using vs(1) by (simp_all add: bundle_members_def m'_def opt_member_def split: option.split del: as_raw.simps(6,7))
  from visit_members [OF this] obtain l where l: "visit (as_raw (JObj (bundle_members b))) = Inr (JObj l)" "map_of l = map_of m'"
    by blast
  have "map_of m' = (\<lambda>k. if k = ''bundleVersion'' then Some (JStr (bu_version b)) else if k = ''root'' then map_option JStr (bu_root b)
      else if k = ''entries'' then Some (JArr vs) else None)"
    by (auto simp: m'_def opt_member_def fun_eq_iff split: option.split)
  then have "de_bundle (JObj l) = Inr b"
    using vs(2) by (cases "bu_root b") (simp_all add: de_bundle_def fields_of_def optional_def required_def de_string_def de_vec_def l(2))
  then show ?thesis using l(1) by blast
qed

lemma integrity_of_made: "ext_laws x \<Longrightarrow> check_integrity x b (make_integrity x b) = Inr ()"
  using integrity_pin by blast

lemma entry_of_ok:
  assumes "ext_laws x" "length (rn_raw_bytes n) \<le> max_manifest_bytes lim"
    and "manifest_from_slice (x_events x) lim (rn_raw_bytes n) = Inr (rn_manifest n)" "wf_manifest x (rn_manifest n)"
    and "opt_all canonical_identity (rn_identity n)"
  shows "entry_ok x lim (entry_of x n) \<and> entry_decode x lim (entry_of x n) = Inr (rn_raw_bytes n)"
proof -
  have d: "x_b64_decode x (be_bytes (entry_of x n)) = Inr (rn_raw_bytes n)" using assms(1) by (simp add: entry_of_def ext_laws_def)
  have "check_integrity x (rn_raw_bytes n) (be_integrity (entry_of x n)) = Inr ()"
    using integrity_of_made [OF assms(1)] by (simp add: entry_of_def)
  then have "entry_ok x lim (entry_of x n)"
    using d assms(2-5) unfolding entry_ok_def by (simp add: entry_of_def)
  then show ?thesis using d assms(2) by (simp add: entry_decode_def)
qed

lemma entry_ids_of: "entry_ids (map (entry_of x) ns) = node_ids ns"
  by (induction ns) (simp_all add: entry_ids_def node_ids_def map_filter_simps entry_of_def split: option.split)

text \<open>The bundle of a resolution, and how its text is read.\<close>

lemma bundle_of_resolution:
  assumes "ext_laws (rv_ext v)" "resolution_ok v r" "rs_nodes r \<noteq> []" "list_all canonical_identity (node_ids (rs_nodes r))"
    and "from_resolution (rv_ext v) r = Some (Inr b)"
  shows "map (entry_decode (rv_ext v) (rv_limits v)) (bu_entries b) = map (Inr \<circ> rn_raw_bytes) (rs_nodes r)"
    and "map be_identity (bu_entries b) = map rn_identity (rs_nodes r)" and "bu_root b = rn_identity (hd (rs_nodes r))"
    and "x_events (rv_ext v) (to_json_bytes (rv_ext v) b) = Inr (as_raw (JObj (bundle_members b)))
      \<Longrightarrow> length (to_json_bytes (rv_ext v) b) \<le> bundle_cap (rv_limits v)
      \<Longrightarrow> bundle_from_slice (rv_ext v) (rv_limits v) (to_json_bytes (rv_ext v) b) = Inr b"
proof -
  obtain root where root: "root_node r = Some root" and len: "length (rs_nodes r) \<le> 64"
    and b: "b = \<lparr> bu_version = BUNDLE_VERSION, bu_root = rn_identity root, bu_entries = map (entry_of (rv_ext v)) (rs_nodes r) \<rparr>"
    using assms(5) by (auto simp: from_resolution_def MAX_BUNDLE_ENTRIES_def split: if_splits)
  have in_root: "root \<in> set (rs_nodes r)" "root = hd (rs_nodes r)"
    using root by (cases "rs_nodes r"; simp add: root_node_def nth_opt_def)+
  have ids: "opt_all canonical_identity (rn_identity n)" if "n \<in> set (rs_nodes r)" for n
    using assms(4) that by (cases "rn_identity n") (auto simp: node_ids_def map_filter_def list_all_iff)
  have entries: "entry_ok (rv_ext v) (rv_limits v) (entry_of (rv_ext v) n)
      \<and> entry_decode (rv_ext v) (rv_limits v) (entry_of (rv_ext v) n) = Inr (rn_raw_bytes n)" if "n \<in> set (rs_nodes r)" for n
    using assms(2) that ids [OF that] by (intro entry_of_ok [OF assms(1)]) (auto simp: resolution_ok_def list_all_iff)
  show "map (entry_decode (rv_ext v) (rv_limits v)) (bu_entries b) = map (Inr \<circ> rn_raw_bytes) (rs_nodes r)"
    "map be_identity (bu_entries b) = map rn_identity (rs_nodes r)" "bu_root b = rn_identity (hd (rs_nodes r))"
    using entries in_root(2) by (simp_all add: b entry_of_def)
  assume reads: "x_events (rv_ext v) (to_json_bytes (rv_ext v) b) = Inr (as_raw (JObj (bundle_members b)))"
    and size: "length (to_json_bytes (rv_ext v) b) \<le> bundle_cap (rv_limits v)"
  have "opt_all (\<lambda>i. i \<in> set (node_ids (rs_nodes r))) (rn_identity root)"
    using in_root by (cases "rn_identity root") (auto simp: node_ids_def map_filter_def image_iff)
  moreover have "distinct (node_ids (rs_nodes r))" using assms(2) by (simp add: resolution_ok_def)
  moreover have "1 \<le> length (rs_nodes r)" using assms(3) by (cases "rs_nodes r") simp_all
  ultimately show "bundle_from_slice (rv_ext v) (rv_limits v) (to_json_bytes (rv_ext v) b) = Inr b"
    using reads size len entries read_bundle [of b]
    unfolding bundle_from_slice_iff by (simp add: b entry_ids_of list_all_iff from_slice_strict_def del: as_raw.simps)
qed

text \<open>Where the text of a bundle goes.\<close>

definition root_stem :: "string option \<Rightarrow> string \<Rightarrow> bool" where
  "root_stem root stem \<longleftrightarrow>
     (case root of
        None \<Rightarrow> stem = ''destination''
      | Some i \<Rightarrow> \<exists>pre. i = pre @ stem \<and> CHR ''/'' \<notin> set stem \<and> (pre = [] \<or> last pre = CHR ''/''))"

definition written_to :: "string option \<Rightarrow> string option \<Rightarrow> bytes \<Rightarrow> disk \<Rightarrow> exported \<Rightarrow> disk \<Rightarrow> bool" where
  "written_to root out text d w d' \<longleftrightarrow>
     (case w of
        ToStdout bytes \<Rightarrow> out = Some ''-'' \<and> bytes = text \<and> d' = d
      | ToFile path bytes \<Rightarrow> out \<noteq> Some ''-'' \<and> (case out of Some p \<Rightarrow> path = p
            | None \<Rightarrow> \<exists>stem. root_stem root stem
                \<and> path = map (\<lambda>c. if c \<in> {CHR ''@'', CHR ''%''} then CHR ''-'' else c) stem @ ''.murlbundle.json'')
          \<and> bytes = text \<and> d' = d(path := Inr text))"

lemma last_split_on:
  "\<exists>pre. s = pre @ last (split_on d s) \<and> d \<notin> set (last (split_on d s)) \<and> (pre = [] \<or> last pre = d)"
proof (cases "d \<in> set s")
  case True
  then obtain a b where s: "s = a @ d # b" "d \<notin> set b" by (meson split_list_last)
  have "split_on d (a @ d # b) = split_on d a @ split_on d b"
    by (induction a rule: split_on.induct [of _ d]) (auto split: list.splits)
  then have "last (split_on d s) = b" using s by (simp add: split_on_absent)
  then show ?thesis using s by (intro exI [of _ "a @ [d]"]) simp
qed (simp add: split_on_absent)

lemma export_file_name_stem:
  "\<exists>stem. root_stem root stem
     \<and> export_file_name root = map (\<lambda>c. if c \<in> {CHR ''@'', CHR ''%''} then CHR ''-'' else c) stem @ ''.murlbundle.json''"
proof -
  let ?stem = "case root of Some i \<Rightarrow> last (split_on CHR ''/'' i) | None \<Rightarrow> ''destination''"
  have "root_stem root ?stem" using last_split_on [of _ "CHR ''/''"] by (simp add: root_stem_def split: option.split)
  then show ?thesis by (intro exI [of _ ?stem]) (simp add: export_file_name_def)
qed

lemma export_resolution_written:
  assumes "export_resolution x refuses r out d = (Inr w, d')"
  obtains b where "from_resolution x r = Some (Inr b)" "written_to (bu_root b) out (to_json_bytes x b) d w d'"
proof -
  obtain b where b: "from_resolution x r = Some (Inr b)"
    using assms by (auto simp: export_resolution_def split: option.splits sum.splits)
  have "written_to (bu_root b) out (to_json_bytes x b) d w d'"
  proof (cases "out = Some ''-''")
    case True
    then show ?thesis using assms by (auto simp: export_resolution_def b written_to_def)
  next
    case False
    then have "w = ToFile path (to_json_bytes x b) \<and> d' = d(path := Inr (to_json_bytes x b))"
      if "path = (case out of Some p \<Rightarrow> p | None \<Rightarrow> export_file_name (bu_root b))" for path
      using assms that by (auto simp: export_resolution_def b disk_write_def Let_def split: option.splits)
    then show ?thesis
      using False export_file_name_stem [of "bu_root b"] by (simp add: written_to_def split: option.split)
  qed
  then show thesis using that b by blast
qed

lemma export_written:
  assumes "export a refuses cache t out d = (Inr w, cache', d')"
  obtains r where "resolve_target a d cache t = (Inr r, cache')"
    "export_resolution (rv_ext (ap_resolver a)) refuses r out d = (Inr w, d')"
  using assms by (auto simp: export_def Let_def split: prod.splits sum.splits)

text \<open>An export that is refused writes nothing.\<close>

lemma export_refused: "export a refuses cache t out d = (Inl e, cache', d') \<Longrightarrow> d' = d"
  by (auto simp: export_def export_resolution_def disk_write_def Let_def split: prod.splits sum.splits option.splits if_splits)

text \<open>
  C29: an export carries a destination without loss. When \<open>murl export\<close> succeeds, its
  target, a name or a file, resolved, and the text it wrote, to standard output for
  \<open>-o -\<close>, else to the path given or a name made of the root's, with no other file
  changed, is a bundle whose entries are exactly the manifests that were resolved: one
  per node, in resolution order, decoding to the bytes that were read, under their
  canonical names, with the root named. (\<open>target_run\<close> and \<open>written_to\<close> say so without the
  functions of the command.) Read back, that text is accepted as this very
  bundle, provided it is within the size cap of a bundle and the JSON parser
  reads the object that was printed.
\<close>

theorem export_importable:
  assumes "export a refuses cache t out d = (Inr w, cache', d')" "ext_laws (rv_ext (ap_resolver a))"
  shows "\<exists>r b. resolve_target a d cache t = (Inr r, cache') \<and> target_run a d cache t r cache'
    \<and> from_resolution (rv_ext (ap_resolver a)) r = Some (Inr b)
    \<and> written_to (bu_root b) out (to_json_bytes (rv_ext (ap_resolver a)) b) d w d'
    \<and> map (entry_decode (rv_ext (ap_resolver a)) (rv_limits (ap_resolver a))) (bu_entries b) = map (Inr \<circ> rn_raw_bytes) (rs_nodes r)
    \<and> map be_identity (bu_entries b) = map rn_identity (rs_nodes r) \<and> bu_root b = rn_identity (hd (rs_nodes r))
    \<and> (x_events (rv_ext (ap_resolver a)) (to_json_bytes (rv_ext (ap_resolver a)) b) = Inr (as_raw (JObj (bundle_members b)))
         \<longrightarrow> length (to_json_bytes (rv_ext (ap_resolver a)) b) \<le> bundle_cap (rv_limits (ap_resolver a))
         \<longrightarrow> bundle_from_slice (rv_ext (ap_resolver a)) (rv_limits (ap_resolver a)) (to_json_bytes (rv_ext (ap_resolver a)) b) = Inr b)"
proof -
  obtain r where t: "resolve_target a d cache t = (Inr r, cache')"
    and e: "export_resolution (rv_ext (ap_resolver a)) refuses r out d = (Inr w, d')"
    using export_written [OF assms(1)] .
  obtain b where b: "from_resolution (rv_ext (ap_resolver a)) r = Some (Inr b)"
    and w: "written_to (bu_root b) out (to_json_bytes (rv_ext (ap_resolver a)) b) d w d'"
    using export_resolution_written [OF e] .
  have ok: "resolution_ok (with_resolver a) r" "rs_nodes r \<noteq> []" "list_all canonical_identity (node_ids (rs_nodes r))"
    using resolve_target_success [OF t] by blast+
  note facts = bundle_of_resolution [of "with_resolver a", unfolded with_resolver_same, OF assms(2) ok b]
  show ?thesis using t resolve_target_run [OF t] b w facts by blast
qed

text \<open>The cap on a bundle is that of eight manifests, but base64 makes bytes longer: eight
  manifests near the limit resolve and are exported, and the bundle is refused.\<close>

lemma write_string_length: "length s \<le> length (write_string s)"
proof -
  have "1 \<le> length (escape_char c)" for c by (simp add: escape_char_def Let_def)
  then have esc: "0 < length (escape_char c)" for c using less_le_trans zero_less_one by blast
  have "length s \<le> length (concat (map escape_char s))"
  proof (induction s)
    case (Cons c s)
    then show ?case using esc [of c] by (cases "escape_char c") simp_all
  qed simp
  then show ?thesis by (simp add: write_string_def)
qed

lemma pretty_items_length: "sum_list (map (length \<circ> pretty x d) vs) \<le> length (pretty_items x d first vs)"
proof (induction vs arbitrary: first)
  case (Cons v vs)
  show ?case using Cons.IH [of False] by simp
qed simp

lemma pretty_members_length: "(k, v) \<in> set m \<Longrightarrow> length (pretty x d v) \<le> length (pretty_members x d first m)"
proof (induction m arbitrary: first)
  case (Cons p m)
  show ?case using Cons.prems Cons.IH [of False] by (cases p) auto
qed simp

lemma pretty_object_length: "(k, v) \<in> set m \<Longrightarrow> length (pretty x (d + 1) v) \<le> length (pretty x d (JObj m))"
  using pretty_members_length [of k v m x "d + 1" True] by (cases m) auto

lemma pretty_array_length: "sum_list (map (length \<circ> pretty x (d + 1)) vs) \<le> length (pretty x d (JArr vs))"
  using pretty_items_length [of x "d + 1" vs True] by (cases vs) auto

lemma bundle_length: "sum_list (map (length \<circ> be_bytes) (bu_entries b)) < length (to_json_bytes x b)"
proof -
  have "length (be_bytes e) \<le> length (pretty x d (JObj (entry_members e)))" for e d
    using pretty_object_length [of "''bytes''" "JStr (be_bytes e)" "entry_members e" x d] write_string_length [of "be_bytes e"]
    by (simp add: entry_members_def)
  then have "sum_list (map (length \<circ> be_bytes) (bu_entries b)) \<le> sum_list (map (length \<circ> pretty x 2) (map (\<lambda>e. JObj (entry_members e)) (bu_entries b)))"
    by (simp add: comp_def sum_list_mono)
  also have "\<dots> \<le> length (pretty x 1 (JArr (map (\<lambda>e. JObj (entry_members e)) (bu_entries b))))"
    using pretty_array_length [of x 1 "map (\<lambda>e. JObj (entry_members e)) (bu_entries b)"] by (simp only: one_add_one)
  also have "\<dots> \<le> length (pretty x 0 (JObj (bundle_members b)))"
    using pretty_object_length [of "''entries''" "JArr (map (\<lambda>e. JObj (entry_members e)) (bu_entries b))" "bundle_members b" x 0]
    by (simp add: bundle_members_def)
  finally show ?thesis by (simp add: to_json_bytes_def)
qed

lemma export_too_large:
  assumes "bundle_cap lim < sum_list (map (length \<circ> be_bytes) (bu_entries b))"
  shows "\<not> is_ok (bundle_from_slice x lim (to_json_bytes x b))"
  using assms bundle_length [of b x] by (simp add: bundle_from_slice_def)

text \<open>In base64, eight manifests of 256 KiB have 349528 characters each.\<close>

lemma default_export_too_large: "bundle_cap default_limits < 8 * 349528" "4 * ((max_manifest_bytes default_limits + 2) div 3) = 349528"
  by (simp_all add: bundle_cap_def default_limits_def MAX_BUNDLE_ENTRIES_def)

text \<open>The second sample name, exported and read back.\<close>

definition leaf_bundle :: bundle_doc where
  "leaf_bundle = \<lparr> bu_version = ''0.2'', bu_root = Some ''murl://local/kid'', bu_entries =
     [\<lparr> be_identity = Some ''murl://local/kid'', be_name = ''Kid'', be_integrity = make_integrity toy_ext ''kid'', be_bytes = toy_hex ''kid'' \<rparr>] \<rparr>"

definition leaf_resolver :: resolver where
  "leaf_resolver = sample_resolver\<lparr> rv_ext := toy_ext\<lparr> x_events := (\<lambda>b. if b = to_json_bytes toy_ext leaf_bundle then Inr (as_raw (JObj (bundle_members leaf_bundle))) else sample_events b) \<rparr> \<rparr>"

lemma leaf_clean: "clean leaf_resolver ''kid'' (sample_manifest ''kid'') [0, 1]"
proof -
  have "manifest_from_slice (x_events (rv_ext leaf_resolver)) (rv_limits leaf_resolver) ''kid'' = Inr (sample_manifest ''kid'')"
    "vr_errors (validate (rv_ext leaf_resolver) (sample_manifest ''kid'')) = [] \<and> vr_warnings (validate (rv_ext leaf_resolver) (sample_manifest ''kid'')) = []"
    "verify_manifest (rv_ext leaf_resolver) (mf_raw (sample_manifest ''kid'')) = Inr None" by code_simp+
  then show ?thesis using sample_clean(2) by (simp add: clean_def)
qed

lemma leaf_resolves:
  "\<exists>r s n. resolve leaf_resolver [] (sample_name ''kid'') = (Inr r, s) \<and> rs_nodes r = [n]
     \<and> rn_identity n = Some ''murl://local/kid'' \<and> rn_manifest n = sample_manifest ''kid'' \<and> rn_raw_bytes n = ''kid''"
proof -
  let ?kid = "sample_name ''kid''" and ?v = leaf_resolver
  have lim: "rv_limits ?v = default_limits" by (simp add: leaf_resolver_def sample_resolver_def)
  have loc: "is_local (mu_authority ?kid)" "mu_selector ?kid = None" by (simp_all add: sample_name_def)
  have names: "rv_names_root ?v = ''names''" "rv_names ?v = rv_names sample_resolver" by (simp_all add: leaf_resolver_def sample_resolver_def)
  obtain p where load: "store_load (rv_names_root ?v) (rv_names ?v) ?kid = Inr (''kid'', p)" using sample_names(2) names by auto
  have kinds: "kind_parse ''https'' = Inr Https" "kind_parse ''dir'' = Inr Dir" by code_simp+
  have ids: "identity ?kid = ''murl://local/kid''" by code_simp
  define c where "c = clean_ctx ?kid 0 0 None (sample_manifest ''kid'')"
  define s0 where "s0 = start_state [] ?kid"
  note step = c_def clean_ctx_def sample_docs sample_doc_def nth_opt_def kinds lim default_limits_def
  obtain n where n: "rn_identity n = Some ''murl://local/kid''" "rn_manifest n = sample_manifest ''kid''" "rn_raw_bytes n = ''kid''"
    and 0: "ingest_named ?v ?kid 0 None None s0 = ingest_resources ?v c [0, 1]
        (s0\<lparr> st_manifests := 1, st_log := [StoreRead ?kid], st_nodes := [n] \<rparr>)" (is "_ = ingest_resources _ _ _ ?s1")
    using named_run [OF leaf_clean loc(1) load, of s0 0 None]
    by (auto simp: s0_def start_state_def default_state_def lim default_limits_def c_def ids)
  obtain s2 where 1: "ingest_resources ?v c [0, 1] ?s1 = ingest_resources ?v c [1] s2" "st_nodes s2 = [n]" "length (st_resources s2) \<le> 1"
    using plan_run [of c 0 "sample_doc ''page'' ''https'' ''https://x.example/''" Https ?s1 ?v "[1]"]
    by (simp add: step s0_def start_state_def default_state_def)
  obtain s3 where 2: "ingest_resources ?v c [1] s2 = (Inr (), s3)" "st_nodes s3 = [n]"
    using plan_run [of c 1 "sample_doc ''src'' ''dir'' ''~/src''" Dir s2 ?v "[]"] 1(2,3) by (simp add: step split: if_splits)
  have "resolve ?v [] ?kid = (finish (s3\<lparr> st_stack := butlast (st_stack s3) \<rparr>) None, s3\<lparr> st_stack := butlast (st_stack s3) \<rparr>)"
    unfolding resolve_unfold s0_def [symmetric] bindS_def 0 1(1) 2(1) prod.case sum.case by (simp only: loc(2))
  then show ?thesis using n 2(2) by (simp add: finish_def)
qed

definition leaf_app :: app where
  "leaf_app = \<lparr> ap_resolver = leaf_resolver, ap_offline = False, ap_refresh = False \<rparr>"

definition no_files :: disk where
  "no_files p = Inl IoNotFound"

lemma leaf_text: "to_json_bytes (rv_ext leaf_resolver) leaf_bundle = to_json_bytes toy_ext leaf_bundle"
  by code_simp

lemma leaf_reads: "x_events (rv_ext leaf_resolver) (to_json_bytes toy_ext leaf_bundle) = Inr (as_raw (JObj (bundle_members leaf_bundle)))"
  by (simp add: leaf_resolver_def del: as_raw.simps)

lemma leaf_exports:
  obtains r cache' where "resolve_target leaf_app no_files [] ''murl://local/kid'' = (Inr r, cache')"
    "from_resolution (rv_ext leaf_resolver) r = Some (Inr leaf_bundle)"
    "export leaf_app (\<lambda>_. None) [] ''murl://local/kid'' None no_files
       = (Inr (ToFile ''kid.murlbundle.json'' (to_json_bytes toy_ext leaf_bundle)), cache',
          no_files(''kid.murlbundle.json'' := Inr (to_json_bytes toy_ext leaf_bundle)))"
proof -
  let ?x = "rv_ext leaf_resolver"
  obtain r s n where r: "resolve leaf_resolver [] (sample_name ''kid'') = (Inr r, s)" "rs_nodes r = [n]"
    and n: "rn_identity n = Some ''murl://local/kid''" "rn_manifest n = sample_manifest ''kid''" "rn_raw_bytes n = ''kid''"
    using leaf_resolves by blast
  have mk: "make_integrity ?x ''kid'' = make_integrity toy_ext ''kid''" "x_b64_encode ?x ''kid'' = toy_hex ''kid''"
    by (simp_all add: leaf_resolver_def make_integrity_def toy_ext_def)
  have name: "md_name (mf_doc (sample_manifest ''kid'')) = ''Kid''" by code_simp
  have b: "from_resolution ?x r = Some (Inr leaf_bundle)"
    by (simp add: from_resolution_def r(2) MAX_BUNDLE_ENTRIES_def root_node_def nth_opt_def entry_of_def n mk name leaf_bundle_def BUNDLE_VERSION_def)
  have path: "export_file_name (bu_root leaf_bundle) = ''kid.murlbundle.json''" by code_simp
  have parse: "parse_target ''murl://local/kid'' = Inr (MurlTarget (sample_name ''kid''))" by code_simp
  have app: "with_resolver leaf_app = leaf_resolver" "refreshed leaf_app m cache = cache" "ap_resolver leaf_app = leaf_resolver" for m cache
    by (simp_all add: leaf_app_def with_resolver_def refreshed_def)
  have t: "resolve_target leaf_app no_files [] ''murl://local/kid'' = (Inr r, st_cache s)"
    unfolding resolve_target_def parse app sum.case target_ref.case r(1) Let_def prod.case ..
  have dash: "(None = Some ''-'') = False" by (simp only: option.distinct)
  have e: "export_resolution ?x (\<lambda>_. None) r None no_files
      = (Inr (ToFile ''kid.murlbundle.json'' (to_json_bytes toy_ext leaf_bundle)),
         no_files(''kid.murlbundle.json'' := Inr (to_json_bytes toy_ext leaf_bundle)))"
    unfolding export_resolution_def b option.case sum.case Let_def leaf_text path disk_write_def dash if_False prod.case ..
  show thesis
    by (rule that [OF t b]) (simp only: export_def t app e Let_def prod.case sum.case)
qed

theorem export_importable_witness:
  "\<exists>cache' d'. export leaf_app (\<lambda>_. None) [] ''murl://local/kid'' None no_files
       = (Inr (ToFile ''kid.murlbundle.json'' (to_json_bytes toy_ext leaf_bundle)), cache', d')
     \<and> d' ''kid.murlbundle.json'' = Inr (to_json_bytes toy_ext leaf_bundle)
     \<and> bundle_from_slice (rv_ext leaf_resolver) default_limits (to_json_bytes toy_ext leaf_bundle) = Inr leaf_bundle"
proof -
  have laws: "ext_laws (rv_ext (ap_resolver leaf_app))"
    using toy_ext_laws by (simp add: leaf_app_def leaf_resolver_def ext_laws_def)
  have app: "ap_resolver leaf_app = leaf_resolver" "rv_limits leaf_resolver = default_limits"
    by (simp_all add: leaf_app_def leaf_resolver_def sample_resolver_def)
  have size: "length (to_json_bytes toy_ext leaf_bundle) \<le> bundle_cap default_limits" by code_simp
  obtain r cache' where t: "resolve_target leaf_app no_files [] ''murl://local/kid'' = (Inr r, cache')"
    and b: "from_resolution (rv_ext leaf_resolver) r = Some (Inr leaf_bundle)"
    and e: "export leaf_app (\<lambda>_. None) [] ''murl://local/kid'' None no_files
       = (Inr (ToFile ''kid.murlbundle.json'' (to_json_bytes toy_ext leaf_bundle)), cache',
          no_files(''kid.murlbundle.json'' := Inr (to_json_bytes toy_ext leaf_bundle)))"
    by (rule leaf_exports)
  obtain r1 b1 where "r = r1" and b1: "from_resolution (rv_ext leaf_resolver) r1 = Some (Inr b1)"
    and again: "x_events (rv_ext leaf_resolver) (to_json_bytes (rv_ext leaf_resolver) b1) = Inr (as_raw (JObj (bundle_members b1)))
      \<longrightarrow> length (to_json_bytes (rv_ext leaf_resolver) b1) \<le> bundle_cap default_limits
      \<longrightarrow> bundle_from_slice (rv_ext leaf_resolver) default_limits (to_json_bytes (rv_ext leaf_resolver) b1) = Inr b1"
    using export_importable [OF e laws] unfolding app t prod.inject sum.inject by blast
  then have "leaf_bundle = b1" using b by (simp only: option.inject sum.inject)
  then have "bundle_from_slice (rv_ext leaf_resolver) default_limits (to_json_bytes toy_ext leaf_bundle) = Inr leaf_bundle"
    using again leaf_reads size by (simp only: leaf_text)
  then show ?thesis using e fun_upd_same by metis
qed

end
