(* ===== verification/Open.thy ===== *)
theory Open
  imports Client Export
begin

text \<open>
  \<open>murl open\<close> and \<open>murl open-url\<close> from the arguments to the exit code: the routing through
  the daemon (\<open>murl-cli/src/daemon_client.rs\<close>), the opening in the process
  (\<open>commands/open.rs\<close>), and their dispatch in \<open>main.rs\<close>. What is printed is left out. The
  launcher is the one the processes are started with, the input the lines a terminal
  gives, if there is one.
\<close>

section \<open>daemon\_client.rs\<close>

datatype daemon_mode = MAuto | MRequire | MNever

fun mode_from_flags :: "bool \<Rightarrow> bool \<Rightarrow> daemon_mode" where
  "mode_from_flags True _ = MRequire"
| "mode_from_flags False True = MNever"
| "mode_from_flags False False = MAuto"

datatype daemon_outcome = Handled int | FallBack

definition inexpressible_flag :: "app \<Rightarrow> open_options \<Rightarrow> string option" where
  "inexpressible_flag a opts =
     (if ap_offline a then Some ''--offline''
      else if ap_refresh a then Some ''--refresh''
      else if oo_skip opts \<noteq> [] then Some ''--skip''
      else if oo_yes opts then Some ''--yes''
      else if oo_allow_sensitive opts then Some ''--allow-sensitive''
      else if oo_allow_dangerous opts then Some ''--allow-dangerous''
      else None)"

fun refuse_or_fall_back :: "daemon_mode \<Rightarrow> string \<Rightarrow> fault + daemon_outcome" where
  "refuse_or_fall_back MRequire why =
     Inl (Err (EDispatch (''--daemon was requested but the daemon could not be used: '' @ why)))"
| "refuse_or_fall_back _ why = Inr FallBack"

definition exit_code_for :: "json \<Rightarrow> int" where
  "exit_code_for report =
     (case report of
        JObj m \<Rightarrow>
          (case map_of m ''aggregate'' of
             Some (JStr s) \<Rightarrow>
               if s = ''SUCCESS'' then 0 else if s = ''PARTIAL_SUCCESS'' then 3 else if s = ''DENIED'' then 4 else 1
           | _ \<Rightarrow> 1)
      | _ \<Rightarrow> 1)"

text \<open>The responses in order, with the exit code so far.\<close>

fun reply_exit :: "int \<Rightarrow> response list \<Rightarrow> fault + daemon_outcome" where
  "reply_exit exit [] = Inr (Handled exit)"
| "reply_exit exit (RError st m # rs) = Inl (Err (EResolution (''daemon ('' @ st @ ''): '' @ m)))"
| "reply_exit exit (ROutcome report # rs) = reply_exit (exit_code_for report) rs"
| "reply_exit exit (_ # rs) = reply_exit exit rs"

text \<open>How the daemon is reached: the host, the user's id as read there, the path and the peer.\<close>

record 's daemon_link =
  dl_host :: host
  dl_uid :: string
  dl_path :: string
  dl_peer :: "'s peer"

definition ask :: "ext \<Rightarrow> 's daemon_link \<Rightarrow> wire_request \<Rightarrow> 's \<Rightarrow> (unavailable + response list) \<times> 's" where
  "ask x d req s = request x (dl_host d) (dl_uid d) (dl_path d) (dl_peer d) req s"

definition probe_link :: "ext \<Rightarrow> 's daemon_link \<Rightarrow> 's \<Rightarrow> bool \<times> 's" where
  "probe_link x d s = probe x (dl_host d) (dl_uid d) (dl_path d) (dl_peer d) s"

definition try_open ::
  "app \<Rightarrow> 's daemon_link \<Rightarrow> string \<Rightarrow> string list \<Rightarrow> open_options \<Rightarrow> daemon_mode \<Rightarrow> 's \<Rightarrow> (fault + daemon_outcome) \<times> 's"
where
  "try_open a d target only opts mode s =
     (if mode = MNever then (Inr FallBack, s)
      else case murl_prefixed target of
        Inl e \<Rightarrow> (Inl e, s)
      | Inr False \<Rightarrow> (refuse_or_fall_back mode ''target is a file path, not an mURL'', s)
      | Inr True \<Rightarrow>
          (case inexpressible_flag a opts of
             Some flag \<Rightarrow> (refuse_or_fall_back mode (flag @ '' cannot be expressed in the daemon protocol''), s)
           | None \<Rightarrow>
               (case probe_link (rv_ext (ap_resolver a)) d s of
                  (False, s1) \<Rightarrow> (refuse_or_fall_back mode (''no usable daemon at '' @ dl_path d), s1)
                | (True, s1) \<Rightarrow>
                    (case ask (rv_ext (ap_resolver a)) d (Activate PROTOCOL_VERSION target only) s1 of
                       (Inl e, s2) \<Rightarrow> (refuse_or_fall_back mode (unavailable_display e), s2)
                     | (Inr rs, s2) \<Rightarrow> (reply_exit 0 rs, s2)))))"

section \<open>open.rs\<close>

record cli = app +
  cl_policy :: policy
  cl_opener :: opener_config
  cl_launcher :: launcher

definition cli_app :: "cli \<Rightarrow> app" where
  "cli_app c = \<lparr> ap_resolver = ap_resolver c, ap_offline = ap_offline c, ap_refresh = ap_refresh c \<rparr>"

fun aggregate_exit :: "aggregate_status \<Rightarrow> int" where
  "aggregate_exit AggSuccess = 0"
| "aggregate_exit AggPartial = 3"
| "aggregate_exit AggFailed = 1"
| "aggregate_exit AggDenied = 4"

definition open_decided ::
  "cli \<Rightarrow> open_options \<Rightarrow> string list option \<Rightarrow> resolution \<Rightarrow> effect list \<Rightarrow> (fault + int) \<times> effect list"
where
  "open_decided c opts input r log =
     (case decide r opts input of
        None \<Rightarrow> (Inl Panic, log)
      | Some approvals \<Rightarrow>
          (case execute r approvals (cl_opener c) (cl_launcher c) (rv_limits (ap_resolver c)) log of
             (Inl e, log') \<Rightarrow> (Inl (Err e), log')
           | (Inr report, log') \<Rightarrow> (Inr (aggregate_exit (er_aggregate report)), log')))"

definition open_run ::
  "cli \<Rightarrow> (string \<Rightarrow> io_error + bytes) \<Rightarrow> string list option \<Rightarrow> string \<Rightarrow> open_options \<Rightarrow> fs \<Rightarrow> effect list
   \<Rightarrow> (fault + int) \<times> fs \<times> effect list"
where
  "open_run c read input target opts cache log =
     (case resolve_target (cli_app c) read cache target of
        (Inl e, cache1) \<Rightarrow> (Inl e, cache1, log)
      | (Inr r0, cache1) \<Rightarrow>
          (case apply_policy (cl_policy c) r0 of
             None \<Rightarrow> (Inl Panic, cache1, log)
           | Some r \<Rightarrow>
               if oo_dry_run opts then (Inr 0, cache1, log)
               else case open_decided c opts input r log of (res, log') \<Rightarrow> (res, cache1, log')))"

section \<open>main.rs\<close>

definition open_command ::
  "cli \<Rightarrow> 's daemon_link \<Rightarrow> (string \<Rightarrow> io_error + bytes) \<Rightarrow> string list option \<Rightarrow> daemon_mode \<Rightarrow> string \<Rightarrow> open_options
   \<Rightarrow> 's \<Rightarrow> fs \<Rightarrow> effect list \<Rightarrow> (fault + int) \<times> 's \<times> fs \<times> effect list"
where
  "open_command c d read input mode target opts s cache log =
     (case (if oo_dry_run opts then (Inr FallBack, s) else try_open (cli_app c) d target (oo_only opts) opts mode s) of
        (Inl e, s1) \<Rightarrow> (Inl e, s1, cache, log)
      | (Inr (Handled code), s1) \<Rightarrow> (Inr code, s1, cache, log)
      | (Inr FallBack, s1) \<Rightarrow>
          (case open_run c read input target opts cache log of (res, cache1, log1) \<Rightarrow> (res, s1, cache1, log1)))"

definition default_options :: open_options where
  "default_options = \<lparr> oo_dry_run = False, oo_yes = False, oo_allow_sensitive = False, oo_allow_dangerous = False,
     oo_only = [], oo_skip = [] \<rparr>"

definition open_url ::
  "cli \<Rightarrow> 's daemon_link \<Rightarrow> (string \<Rightarrow> io_error + bytes) \<Rightarrow> string list option \<Rightarrow> daemon_mode \<Rightarrow> string
   \<Rightarrow> 's \<Rightarrow> fs \<Rightarrow> effect list \<Rightarrow> (fault + int) \<times> 's \<times> fs \<times> effect list"
where
  "open_url c d read input mode u s cache log =
     (case try_open (cli_app c) d u [] default_options mode s of
        (Inl e, s1) \<Rightarrow> (Inl e, s1, cache, log)
      | (Inr (Handled code), s1) \<Rightarrow> (Inr code, s1, cache, log)
      | (Inr FallBack, s1) \<Rightarrow>
          (case open_run c read input u default_options cache log of (res, cache1, log1) \<Rightarrow> (res, s1, cache1, log1)))"

lemma default_flags: "\<not> oo_dry_run default_options" "oo_only default_options = []"
  by (simp_all add: default_options_def)

text \<open>A panic ends the process with 101.\<close>

fun exit_status :: "fault + int \<Rightarrow> int" where
  "exit_status (Inr code) = code"
| "exit_status (Inl Panic) = 101"
| "exit_status (Inl (Err (EValidation _))) = 2"
| "exit_status (Inl (Err (EDenied _))) = 4"
| "exit_status (Inl (Err _)) = 1"

section \<open>Opening in the process\<close>

lemma decide_total:
  assumes "\<And>pr. pr \<in> set (rs_resources r) \<Longrightarrow> pr_decision pr \<noteq> None"
  shows "\<exists>approvals. decide r opts input = Some approvals"
proof -
  have "decide_slot opts pr \<noteq> None" if "pr \<in> set (rs_resources r)" for pr
    using assms [OF that] by (auto simp: decide_slot_def split: decision.split)
  then show ?thesis by (force simp: decide_def Let_def)
qed

lemma decided_after_policy:
  assumes "resolution_ok v r0" "apply_policy p r0 = Some r"
  shows "\<exists>approvals. decide r opts input = Some approvals"
  using assms(2) policy_total [OF assms(1), of p] by (intro decide_total) auto

lemma resolve_target_ok: "resolve_target a read cache t = (Inr r, cache1) \<Longrightarrow> resolution_ok (with_resolver a) r"
  using resolve_target_success by blast

lemma resolve_target_panic:
  assumes "resolve_target a read cache t = (Inl Panic, cache1)"
  shows "murl_prefixed t = Inl Panic"
proof (cases "parse_target t")
  case (Inl e)
  then show ?thesis using assms
    by (cases "murl_prefixed t"; cases "murl_parse t"; cases "fst (murl_prefixed t, e)")
      (auto simp: resolve_target_def parse_target_def murl_prefixed_def split: if_splits)
next
  case (Inr ref)
  then show ?thesis using assms resolve_no_panic [of "with_resolver a"] resolve_file_safe [of "with_resolver a" cache]
    by (cases ref) (auto simp: resolve_target_def split: prod.splits; metis fst_conv)+
qed

text \<open>What a run in the process may start: nothing, or what was consented to for the plan the
  target resolved to, as the policy decided it.\<close>

definition consented_run :: "cli \<Rightarrow> open_options \<Rightarrow> string list option \<Rightarrow> resolution \<Rightarrow> effect list \<Rightarrow> bool" where
  "consented_run c opts input r new \<longleftrightarrow>
     subseq (calls new) (consented_calls (cl_opener c) r (\<lambda>i.
       approvable (cli_excluded (opts, input) (rs_resources r ! i)) (cli_agreed (opts, input) r i) (rs_resources r ! i)))"

lemma open_decided_outcome:
  assumes "decide r opts input = Some approvals"
  shows "\<exists>rep new. execute r approvals (cl_opener c) (cl_launcher c) (rv_limits (ap_resolver c)) log = (Inr rep, log @ new)
     \<and> open_decided c opts input r log = (Inr (aggregate_exit (er_aggregate rep)), log @ new) \<and> consented_run c opts input r new"
proof -
  have "cli_consent (opts, input) r = Some approvals" using assms by (simp add: cli_consent_def)
  from command_line.consented_only [OF this, of "cl_opener c" "cl_launcher c" "rv_limits (ap_resolver c)" log]
  show ?thesis using assms by (auto simp: open_decided_def consented_run_def)
qed

lemma open_run_outcome:
  assumes "open_run c read input target opts cache log = (res, cache1, log1)"
  shows "(log1 = log \<and> (res = Inl Panic \<longrightarrow> murl_prefixed target = Inl Panic)
            \<and> ((\<exists>e. resolve_target (cli_app c) read cache target = (Inl e, cache1) \<and> res = Inl e) \<or> oo_dry_run opts \<and> res = Inr 0))
    \<or> (\<exists>r0 r approvals rep new. resolve_target (cli_app c) read cache target = (Inr r0, cache1)
        \<and> apply_policy (cl_policy c) r0 = Some r \<and> \<not> oo_dry_run opts \<and> decide r opts input = Some approvals
        \<and> execute r approvals (cl_opener c) (cl_launcher c) (rv_limits (ap_resolver c)) log = (Inr rep, log1)
        \<and> res = Inr (aggregate_exit (er_aggregate rep)) \<and> log1 = log @ new \<and> consented_run c opts input r new)"
proof -
  obtain q cache2 where t: "resolve_target (cli_app c) read cache target = (q, cache2)" by fastforce
  show ?thesis
  proof (cases q)
    case (Inl e)
    then show ?thesis using assms t resolve_target_panic [of "cli_app c" read cache target cache2]
      by (auto simp: open_run_def)
  next
    case (Inr r0)
    then have ok: "resolution_ok (with_resolver (cli_app c)) r0" using t resolve_target_ok by blast
    then obtain r where r: "apply_policy (cl_policy c) r0 = Some r" using policy_total by blast
    obtain approvals where d: "decide r opts input = Some approvals" using decided_after_policy [OF ok r] by blast
    show ?thesis
    proof (cases "oo_dry_run opts")
      case True
      then show ?thesis using assms t Inr r by (auto simp: open_run_def)
    next
      case False
      from open_decided_outcome [OF d, of c log] obtain rep new where
        e: "execute r approvals (cl_opener c) (cl_launcher c) (rv_limits (ap_resolver c)) log = (Inr rep, log @ new)"
        "open_decided c opts input r log = (Inr (aggregate_exit (er_aggregate rep)), log @ new)" "consented_run c opts input r new"
        by blast
      then show ?thesis using assms t Inr r d False by (auto simp: open_run_def)
    qed
  qed
qed

section \<open>Through the daemon\<close>

text \<open>What the daemon may have been asked on the way from one state to the next: nothing, a ping,
  or a ping that found it and this activation.\<close>

definition asked_only :: "app \<Rightarrow> 's daemon_link \<Rightarrow> string \<Rightarrow> string list \<Rightarrow> open_options \<Rightarrow> 's \<Rightarrow> 's \<Rightarrow> bool" where
  "asked_only a d target only opts s s' \<longleftrightarrow>
     (let x = rv_ext (ap_resolver a); (found, s1) = probe_link x d s in
      s' = s
      \<or> murl_prefixed target = Inr True \<and> inexpressible_flag a opts = None
        \<and> (s' = s1 \<or> found \<and> s' = snd (ask x d (Activate PROTOCOL_VERSION target only) s1)))"

lemma refuse_cases: "refuse_or_fall_back mode why = Inr oc \<longleftrightarrow> mode \<noteq> MRequire \<and> oc = FallBack"
  by (cases mode) auto

lemma try_open_cases:
  assumes "try_open a d target only opts mode s = (res, s')"
  shows "asked_only a d target only opts s s'
    \<and> (mode = MNever \<longrightarrow> res = Inr FallBack \<and> s' = s)
    \<and> (mode = MRequire \<longrightarrow> res \<noteq> Inr FallBack)
    \<and> (\<forall>code. res = Inr (Handled code) \<longrightarrow>
         (\<exists>s1 rs. probe_link (rv_ext (ap_resolver a)) d s = (True, s1)
            \<and> ask (rv_ext (ap_resolver a)) d (Activate PROTOCOL_VERSION target only) s1 = (Inr rs, s')
            \<and> reply_exit 0 rs = Inr (Handled code)))"
proof (cases "mode = MNever")
  case True
  then show ?thesis using assms by (auto simp: try_open_def asked_only_def)
next
  case never: False
  let ?x = "rv_ext (ap_resolver a)"
  have reply: "reply_exit e rs \<noteq> Inr FallBack" for e rs by (induction e rs rule: reply_exit.induct) auto
  obtain found s1 where p: "probe_link ?x d s = (found, s1)" by fastforce
  obtain q s2 where k: "ask ?x d (Activate PROTOCOL_VERSION target only) s1 = (q, s2)" by fastforce
  consider e where "murl_prefixed target = Inl e" | "murl_prefixed target = Inr False"
    | flag where "murl_prefixed target = Inr True" "inexpressible_flag a opts = Some flag"
    | "murl_prefixed target = Inr True" "inexpressible_flag a opts = None"
    by (metis (full_types) not_None_eq obj_sumE)
  then show ?thesis
  proof cases
    case 4
    then show ?thesis
      using assms never reply by (cases found; cases q) (auto simp: try_open_def asked_only_def p k refuse_cases)
  qed (use assms never in \<open>auto simp: try_open_def asked_only_def refuse_cases\<close>)
qed

text \<open>The exit code of a report, as the daemon wrote it and the client read it, is that of the
  same report in the process.\<close>

lemma exit_code_of_report: "exit_code_for (value_of (as_raw (report_json rep))) = aggregate_exit (er_aggregate rep)"
proof -
  have "\<not> ''outcomes'' < ''aggregate''" "''aggregate'' < ''outcomes''" "''outcomes'' \<noteq> ''aggregate''" by code_simp+
  then show ?thesis
    by (cases "er_aggregate rep") (simp_all add: exit_code_for_def report_json_def json_obj_def obj_insert_def)
qed

lemma activate_responses:
  assumes "handle_request ctx (Activate p u only) now s = (Some rs, s1)"
  shows "(\<exists>st m. rs = [RError st m]) \<or> (\<exists>j g d rep. rs = [RPlan j, RConsent g d, ROutcome (report_json rep)])"
proof -
  have a: "fst (activate ctx u only s) = Some rs" using assms by simp
  then have "rep \<in> range report_json" if "ROutcome rep \<in> set rs" for rep
    using that by (auto simp: activate_def consent_and_execute_def Let_def split: sum.splits prod.splits option.splits)
  moreover have "(\<exists>st m. rs = [RError st m]) \<or> (\<exists>j g d rep. rs = [RPlan j, RConsent g d, ROutcome rep])"
    using a activate_outcome [of ctx u only s] by fastforce
  ultimately show ?thesis by fastforce
qed

section \<open>Properties\<close>

lemma try_open_panic:
  assumes "try_open a d target only opts mode s = (Inl Panic, s')"
  shows "murl_prefixed target = Inl Panic"
proof -
  have r: "reply_exit e rs \<noteq> Inl Panic" for e rs by (induction e rs rule: reply_exit.induct) auto
  have "refuse_or_fall_back mode why \<noteq> Inl Panic" for why by (cases mode) auto
  then show ?thesis using assms r
    by (auto simp: try_open_def murl_prefixed_def split: if_splits sum.splits bool.splits option.splits prod.splits)
qed

definition ran_in_process ::
  "cli \<Rightarrow> (string \<Rightarrow> io_error + bytes) \<Rightarrow> string list option \<Rightarrow> string \<Rightarrow> open_options \<Rightarrow> fs \<Rightarrow> effect list \<Rightarrow> fault + int \<Rightarrow> effect list \<Rightarrow> bool"
where
  "ran_in_process c read input target opts cache log res new \<longleftrightarrow>
     (\<exists>r0 cache1 r approvals rep. resolve_target (cli_app c) read cache target = (Inr r0, cache1)
        \<and> resolution_ok (with_resolver (cli_app c)) r0 \<and> apply_policy (cl_policy c) r0 = Some r
        \<and> execute r approvals (cl_opener c) (cl_launcher c) (rv_limits (ap_resolver c)) log = (Inr rep, log @ new)
        \<and> res = Inr (aggregate_exit (er_aggregate rep)) \<and> consented_run c opts input r new)"

lemma open_run_safe:
  assumes "open_run c read input target opts cache log = (res, cache1, log1)"
  shows "\<exists>new. log1 = log @ new \<and> (res = Inl Panic \<longrightarrow> murl_prefixed target = Inl Panic) \<and> (oo_dry_run opts \<longrightarrow> new = [])
    \<and> (new = [] \<or> ran_in_process c read input target opts cache log res new)"
  using open_run_outcome [OF assms]
proof (elim disjE exE conjE)
  fix r0 r approvals rep new
  assume a: "resolve_target (cli_app c) read cache target = (Inr r0, cache1)" "apply_policy (cl_policy c) r0 = Some r"
    "\<not> oo_dry_run opts" "execute r approvals (cl_opener c) (cl_launcher c) (rv_limits (ap_resolver c)) log = (Inr rep, log1)"
    "res = Inr (aggregate_exit (er_aggregate rep))" "log1 = log @ new" "consented_run c opts input r new"
  then have "ran_in_process c read input target opts cache log res new"
    using resolve_target_ok [OF a(1)] by (auto simp: ran_in_process_def)
  then show ?thesis using a by blast
qed auto

lemma open_command_safe_core:
  assumes "open_command c d read input mode target opts s cache log = (res, s', cache', log')"
  shows "\<exists>new. log' = log @ new \<and> (res = Inl Panic \<longrightarrow> murl_prefixed target = Inl Panic)
    \<and> asked_only (cli_app c) d target (oo_only opts) opts s s'
    \<and> (mode = MNever \<or> oo_dry_run opts \<longrightarrow> s' = s)
    \<and> (mode = MRequire \<or> oo_dry_run opts \<longrightarrow> new = [])
    \<and> (new = [] \<or> ran_in_process c read input target opts cache log res new)"
proof (cases "oo_dry_run opts")
  case True
  then have "open_run c read input target opts cache log = (res, cache', log')" "s' = s"
    using assms by (auto simp: open_command_def split: prod.splits)
  then show ?thesis using open_run_safe True by (fastforce simp: asked_only_def Let_def split: prod.split)
next
  case False
  obtain q s1 where t: "try_open (cli_app c) d target (oo_only opts) opts mode s = (q, s1)" by fastforce
  note r = try_open_cases [OF t]
  show ?thesis
  proof (cases q)
    case (Inl e)
    then show ?thesis using assms False t r try_open_panic [of "cli_app c" d target "oo_only opts" opts mode s s1]
      by (auto simp: open_command_def)
  next
    case (Inr oc)
    show ?thesis
    proof (cases oc)
      case (Handled code)
      then show ?thesis using assms False t r Inr by (auto simp: open_command_def)
    next
      case FallBack
      then have "open_run c read input target opts cache log = (res, cache', log')" "s' = s1"
        using assms False t Inr by (auto simp: open_command_def split: prod.splits)
      then show ?thesis using open_run_safe [of c read input target opts cache log res cache' log'] r False Inr FallBack by blast
    qed
  qed
qed

text \<open>
  C32: what \<open>murl open\<close> can do. It panics at most on the slice of its argument. The daemon was
  asked nothing, or pinged, or pinged and sent exactly this activation, which
  happens only for a name and when no flag was given that the request cannot carry; with
  \<open>--no-daemon\<close> or \<open>--dry-run\<close> it was not asked at all. In this process nothing
  was started, or the target resolved within the limits, the policy decided it, and what was
  started was allowed or asked about and agreed to by a flag of the tier or a typed
  answer; with \<open>--daemon\<close> or \<open>--dry-run\<close> nothing is started here.
\<close>

theorem open_command_safe:
  assumes "open_command c d read input mode target opts s cache log = (res, s', cache', log')"
  shows "\<exists>new. log' = log @ new \<and> (res = Inl Panic \<longrightarrow> murl_prefixed target = Inl Panic)
    \<and> asked_only (cli_app c) d target (oo_only opts) opts s s'
    \<and> (mode = MNever \<or> oo_dry_run opts \<longrightarrow> s' = s)
    \<and> (mode = MRequire \<or> oo_dry_run opts \<longrightarrow> new = [])
    \<and> (new = [] \<or> ran_in_process c read input target opts cache log res new)"
  using assms by (rule open_command_safe_core)

text \<open>
  C33: a name from a browser or a chat needs the user's word. \<open>murl open-url\<close> starts a process
  only for a resource the policy allows silently, or asks about and a line typed at
  the terminal approves; no flag approves anything, and without a terminal nothing that
  the policy asks about is started.
\<close>

theorem open_url_needs_consent:
  assumes "open_url c d read input mode u s cache log = (res, s', cache', log')"
  shows "\<exists>new. log' = log @ new \<and> asked_only (cli_app c) d u [] default_options s s'
    \<and> (new = [] \<or> (\<exists>r0 cache1 r. resolve_target (cli_app c) read cache u = (Inr r0, cache1) \<and> apply_policy (cl_policy c) r0 = Some r
         \<and> subseq (calls new) (consented_calls (cl_opener c) r (\<lambda>i.
             pr_decision (rs_resources r ! i) = Some Allow
             \<or> asks (pr_decision (rs_resources r ! i))
               \<and> (\<exists>lines. input = Some lines \<and> typed_yes lines (pending_rank default_options r i))))))"
proof -
  have o: "open_command c d read input mode u default_options s cache log = (res, s', cache', log')"
    using assms default_flags by (simp add: open_command_def open_url_def)
  have agreed: "approvable (cli_excluded (default_options, input) pr) (cli_agreed (default_options, input) r i) pr
      \<longleftrightarrow> pr_decision pr = Some Allow \<or> asks (pr_decision pr) \<and> (\<exists>lines. input = Some lines \<and> typed_yes lines (pending_rank default_options r i))"
    if "pr = rs_resources r ! i" for pr r i
    using that by (cases input; cases "pr_tier pr")
      (auto simp: approvable_def cli_excluded_def cli_agreed_def narrowed_out_def flag_approved_def default_options_def)
  show ?thesis
    using open_command_safe_core [OF o] by (auto simp: ran_in_process_def consented_run_def agreed default_flags)
qed

text \<open>
  C34: through the daemon as in the process. When the socket is trusted and the exchange
  works, a \<open>murl open\<close> the protocol can express activates the name in the daemon exactly
  once and starts nothing here. Either the daemon answers with an error, and this error is
  what the command fails with, or it answers with plan, consent and outcome, and the exit
  code is the one the same report gives in the process.
\<close>

theorem open_through_daemon:
  assumes "dl_peer d = daemon_peer ctx now" "rv_ext (ap_resolver c) = dc_ext ctx"
    and "node_exists (dl_host d) (dl_path d)" "client_may_trust (ho_nodes (dl_host d)) (dl_uid d) (dl_path d)"
    and "exchange_ok ctx now (Ping PROTOCOL_VERSION) s" "exchange_ok ctx now (Activate PROTOCOL_VERSION target (oo_only opts)) s"
    and "mode \<noteq> MNever" "murl_prefixed target = Inr True" "inexpressible_flag (cli_app c) opts = None" "\<not> oo_dry_run opts"
  shows "\<exists>rs s1 res. handle_request ctx (Activate PROTOCOL_VERSION target (oo_only opts)) now s = (Some rs, s1)
    \<and> open_command c d read input mode target opts s cache log = (res, s1, cache, log)
    \<and> ((\<exists>st m. rs = [RError st m] \<and> res = Inl (Err (EResolution (''daemon ('' @ st @ ''): '' @ m))))
       \<or> (\<exists>j g de rep. rs = [RPlan j, RConsent g de, ROutcome (report_json rep)] \<and> res = Inr (aggregate_exit (er_aggregate rep))))"
proof -
  let ?act = "Activate PROTOCOL_VERSION target (oo_only opts)" and ?x = "dc_ext ctx"
  have "request ?x (dl_host d) (dl_uid d) (dl_path d) (daemon_peer ctx now) (Ping PROTOCOL_VERSION) s
      = (Inr [RPong PROTOCOL_VERSION (dc_version ctx)], s)"
    using daemon_wire.request_answers [OF assms(5,3,4)] by (simp add: daemon_answers_def)
  then have ping: "probe_link ?x d s = (True, s)" by (simp add: probe_link_def probe_def assms(1))
  obtain rs s1 where h: "handle_request ctx ?act now s = (Some rs, s1)"
    using handle_advanced [of ctx ?act now s] by (metis prod.collapse)
  then have "ask ?x d ?act s = (Inr (map received rs), s1)"
    using daemon_wire.request_answers [OF assms(6,3,4)] by (simp add: ask_def assms(1) daemon_answers_def)
  moreover have "ap_resolver (cli_app c) = ap_resolver c" by (simp add: cli_app_def)
  ultimately have t: "try_open (cli_app c) d target (oo_only opts) opts mode s = (reply_exit 0 (map received rs), s1)"
    using assms(2,7-9) ping by (simp add: try_open_def)
  from activate_responses [OF h] show ?thesis
  proof (elim disjE exE)
    fix st m assume "rs = [RError st m]"
    then show ?thesis using t h assms(10) by (simp add: open_command_def)
  next
    fix j g de rep assume "rs = [RPlan j, RConsent g de, ROutcome (report_json rep)]"
    then show ?thesis using t h assms(10) by (simp add: open_command_def exit_code_of_report) blast
  qed
qed

section \<open>At concrete inputs\<close>

definition sample_cli :: cli where
  "sample_cli = \<lparr> ap_resolver = sample_resolver\<lparr> rv_ext := toy_ext \<rparr>, ap_offline = False, ap_refresh = False,
     cl_policy = default_policy, cl_opener = sample_opener, cl_launcher = sample_launcher \<rparr>"

text \<open>Everything that is written when a name that does not parse is opened.\<close>

definition bad_name :: string where
  "bad_name = ''murl:x''"

definition wire_objects :: "(string \<times> json) list list" where
  "wire_objects = [request_members (Ping 1), response_members (RPong 1 ''0.3.0''), request_members (Activate 1 bad_name [])]
     @ (case murl_parse bad_name of Inl e \<Rightarrow> [response_members (RError ''parse'' (murl_error_display e))] | Inr _ \<Rightarrow> [])"

definition open_ext :: ext where
  "open_ext = toy_ext\<lparr> x_events := (\<lambda>b.
     case find (\<lambda>m. json_text toy_ext (JObj m) = b) wire_objects of
       Some m \<Rightarrow> Inr (as_raw (JObj m))
     | None \<Rightarrow> Inl ''not JSON'') \<rparr>"

definition open_context :: daemon_context where
  "open_context = sample_context\<lparr> dc_ext := open_ext \<rparr>"

definition sample_link :: "daemon_state daemon_link" where
  "sample_link = \<lparr> dl_host = snd (startup ''/run/u/murl/s'' sample_host), dl_uid = ''1000'', dl_path = ''/run/u/murl/s'',
     dl_peer = daemon_peer open_context 7 \<rparr>"

lemma open_exchanges:
  "exchange_ok open_context 7 (Ping PROTOCOL_VERSION) sample_daemon"
  "exchange_ok open_context 7 (Activate PROTOCOL_VERSION bad_name []) sample_daemon"
  by code_simp+

theorem open_through_daemon_witness:
  "fst (open_command (sample_cli\<lparr> ap_resolver := sample_resolver\<lparr> rv_ext := open_ext \<rparr> \<rparr>) sample_link
      (\<lambda>_. Inl IoNotFound) None MAuto bad_name default_options sample_daemon [] [])
     = Inl (Err (EResolution (''daemon (parse): '' @ (case murl_parse bad_name of Inl e \<Rightarrow> murl_error_display e | Inr _ \<Rightarrow> []))))"
proof -
  let ?c = "sample_cli\<lparr> ap_resolver := sample_resolver\<lparr> rv_ext := open_ext \<rparr> \<rparr>"
  obtain h' where s: "startup ''/run/u/murl/s'' sample_host = (Inr (), h')"
    using sample_start by (cases "startup ''/run/u/murl/s'' sample_host") (auto simp: is_ok_iff)
  have u: "ho_uid sample_host = 1000" by (simp add: sample_host_def)
  have p: "parse_u32 ''1000'' = Some 1000" by code_simp
  have t: "node_exists (dl_host sample_link) (dl_path sample_link)"
    "client_may_trust (ho_nodes (dl_host sample_link)) (dl_uid sample_link) (dl_path sample_link)"
    using daemon_start_trusted [OF s, of "''1000''"] by (simp_all add: sample_link_def s u p)
  have f: "murl_prefixed bad_name = Inr True" "inexpressible_flag (cli_app ?c) default_options = None" by code_simp+
  have e: "fst (handle_request open_context (Activate PROTOCOL_VERSION bad_name []) 7 sample_daemon)
      = Some [RError ''parse'' (case murl_parse bad_name of Inl e \<Rightarrow> murl_error_display e | Inr _ \<Rightarrow> [])]"
    by code_simp
  have x: "dl_peer sample_link = daemon_peer open_context 7" "rv_ext (ap_resolver ?c) = dc_ext open_context"
    by (simp_all add: sample_link_def open_context_def)
  from open_through_daemon [OF x t open_exchanges [folded default_flags(2)] _ f default_flags(1), of MAuto "\<lambda>_. Inl IoNotFound" None "[]" "[]"]
  show ?thesis using e by (auto simp: default_flags(2))
qed

theorem open_command_safe_witness:
  "\<exists>res cache' log'. open_command sample_cli sample_link (\<lambda>_. Inl IoNotFound) None MNever ''murl://local/root'' default_options
      sample_daemon [] [] = (res, sample_daemon, cache', log') \<and> res \<noteq> Inl Panic"
proof -
  obtain res s' cache' log' where o: "open_command sample_cli sample_link (\<lambda>_. Inl IoNotFound) None MNever ''murl://local/root''
      default_options sample_daemon [] [] = (res, s', cache', log')"
    by (rule prod_cases4)
  have "murl_prefixed ''murl://local/root'' \<noteq> Inl Panic" by code_simp
  then show ?thesis using open_command_safe [OF o] o by auto
qed

theorem open_url_needs_consent_witness:
  "\<exists>res s' cache' log'. open_url sample_cli sample_link (\<lambda>_. Inl IoNotFound) None MNever ''murl://local/root'' sample_daemon [] []
      = (res, s', cache', log') \<and> asked_only (cli_app sample_cli) sample_link ''murl://local/root'' [] default_options sample_daemon s'"
proof -
  obtain res s' cache' log' where o: "open_url sample_cli sample_link (\<lambda>_. Inl IoNotFound) None MNever ''murl://local/root''
      sample_daemon [] [] = (res, s', cache', log')"
    by (rule prod_cases4)
  then show ?thesis using open_url_needs_consent [OF o] by blast
qed

section \<open>Where the daemon and the process disagree\<close>

text \<open>A reply that was cut off before the outcome is no failure: the command succeeds.\<close>

lemma truncated_reply_succeeds: "reply_exit 0 [RPlan j] = Inr (Handled 0)"
  by simp

text \<open>An activation that was sent but whose reply could not be read, for instance because the
  read timeout of the client is shorter than the time the dialog may take, counts as no
  usable daemon: the command opens the target a second time, in the process.\<close>

lemma failed_activation_opens_again:
  assumes "mode = MAuto" "\<not> oo_dry_run opts" "murl_prefixed target = Inr True" "inexpressible_flag (cli_app c) opts = None"
    and "probe_link (rv_ext (ap_resolver c)) d s = (True, s1)"
    and "ask (rv_ext (ap_resolver c)) d (Activate PROTOCOL_VERSION target (oo_only opts)) s1 = (Inl e, s2)"
  shows "open_command c d read input mode target opts s cache log
    = (case open_run c read input target opts cache log of (res, cache1, log1) \<Rightarrow> (res, s2, cache1, log1))"
  using assms by (simp add: open_command_def try_open_def cli_app_def split: prod.split)

text \<open>The daemon that activates and is not heard.\<close>

definition unheard :: "daemon_context \<Rightarrow> 64 word \<Rightarrow> daemon_state peer" where
  "unheard ctx now = (daemon_peer ctx now)\<lparr>
     pe_exchange := (\<lambda>line s. case serve_connection ctx line now 32 s of (out, sent, s1) \<Rightarrow> (Inr ([], Some ''timed out''), s1)) \<rparr>"

lemma unheard_activates:
  assumes "exchange_ok ctx now req s" "node_exists h p" "client_may_trust (ho_nodes h) uid p"
  shows "request (dc_ext ctx) h uid p (unheard ctx now) req s = (Inl (UIo ''timed out''), snd (daemon_answers ctx now req s))"
proof -
  have "length (request_text (dc_ext ctx) req) \<le> MAX_LINE_BYTES" using assms(1) by (simp add: exchange_ok_def Let_def)
  then show ?thesis
    using assms(2,3) serve_request [OF assms(1)] by (simp add: request_def unheard_def daemon_peer_def Let_def)
qed

end
