(* ===== verification/World.thy ===== *)
theory World
  imports Client
begin

text \<open>
  Where the command line and the daemon find their files, \<open>murl-cli/src/paths.rs\<close> and
  \<open>murl-daemon/src/paths.rs\<close>, and what they read there when they start
  (\<open>App::init\<close> in \<open>ctx.rs\<close>, \<open>serve\<close> in the daemon's \<open>main.rs\<close>). The disk is what reading
  a path gives. Paths are joined with a slash on every platform.
\<close>

section \<open>Directories\<close>

datatype platform = Linux | MacOS | Windows

fun os_name :: "platform \<Rightarrow> string" where
  "os_name Linux = ''linux''"
| "os_name MacOS = ''macos''"
| "os_name Windows = ''windows''"

type_synonym environment = "string \<Rightarrow> string option"

record dirs =
  di_config :: string
  di_data :: string
  di_cache :: string

definition home_dir :: "platform \<Rightarrow> environment \<Rightarrow> string option" where
  "home_dir pf env = env (if pf = Windows then ''USERPROFILE'' else ''HOME'')"

definition under :: "string \<Rightarrow> string option \<Rightarrow> string option" where
  "under rest base = map_option (\<lambda>p. path_push p rest) base"

definition xdg_dir :: "environment \<Rightarrow> string \<Rightarrow> string \<Rightarrow> string option \<Rightarrow> string option" where
  "xdg_dir env xdg rest home =
     (case under ''murl'' (set_env env xdg) of Some p \<Rightarrow> Some p | None \<Rightarrow> under rest home)"

definition platform_config :: "platform \<Rightarrow> environment \<Rightarrow> string option \<Rightarrow> string option" where
  "platform_config pf env home =
     (case pf of
        Windows \<Rightarrow> under ''murl'' (set_env env ''APPDATA'')
      | MacOS \<Rightarrow> under ''Library/Application Support/murl'' home
      | Linux \<Rightarrow> xdg_dir env ''XDG_CONFIG_HOME'' ''.config/murl'' home)"

definition platform_data :: "platform \<Rightarrow> environment \<Rightarrow> string option \<Rightarrow> string option" where
  "platform_data pf env home =
     (case pf of
        Windows \<Rightarrow> under ''data'' (under ''murl'' (set_env env ''LOCALAPPDATA''))
      | MacOS \<Rightarrow> under ''Library/Application Support/murl/data'' home
      | Linux \<Rightarrow> xdg_dir env ''XDG_DATA_HOME'' ''.local/share/murl'' home)"

definition platform_cache :: "platform \<Rightarrow> environment \<Rightarrow> string option \<Rightarrow> string option" where
  "platform_cache pf env home =
     (case pf of
        Windows \<Rightarrow> under ''cache'' (under ''murl'' (set_env env ''LOCALAPPDATA''))
      | MacOS \<Rightarrow> under ''Library/Caches/murl'' home
      | Linux \<Rightarrow> xdg_dir env ''XDG_CACHE_HOME'' ''.cache/murl'' home)"

definition override :: "environment \<Rightarrow> string \<Rightarrow> string option \<Rightarrow> string \<Rightarrow> error + string" where
  "override env var fallback label =
     ok_or (EIo (''cannot determine a '' @ label @ '' directory; set '' @ var))
       (case set_env env var of Some p \<Rightarrow> Some p | None \<Rightarrow> fallback)"

definition app_paths :: "platform \<Rightarrow> environment \<Rightarrow> error + dirs" where
  "app_paths pf env =
     (let home = home_dir pf env in
      and_then (override env ''MURL_CONFIG_DIR'' (platform_config pf env home) ''config'') (\<lambda>c.
      and_then (override env ''MURL_DATA_DIR'' (platform_data pf env home) ''data'') (\<lambda>d.
      and_then (override env ''MURL_CACHE_DIR'' (platform_cache pf env home) ''cache'') (\<lambda>k.
        Inr \<lparr> di_config = c, di_data = d, di_cache = k \<rparr>))))"

text \<open>The daemon's \<open>pick\<close>: the same rule on every platform.\<close>

definition pick :: "environment \<Rightarrow> string \<Rightarrow> string \<Rightarrow> string \<Rightarrow> string option \<Rightarrow> string \<Rightarrow> error + string" where
  "pick env explicit xdg rest home label =
     ok_or (EIo (''cannot determine a '' @ label @ '' directory; set MURL_'' @ map upper_char label @ ''_DIR''))
       (case set_env env explicit of
          Some p \<Rightarrow> Some p
        | None \<Rightarrow>
            (case set_env env xdg of
               Some p \<Rightarrow> Some (path_push p ''murl'')
             | None \<Rightarrow> map_option (\<lambda>h. path_push h rest) home))"

definition daemon_paths :: "platform \<Rightarrow> environment \<Rightarrow> error + dirs" where
  "daemon_paths pf env =
     (let home = home_dir pf env in
      and_then (pick env ''MURL_CONFIG_DIR'' ''XDG_CONFIG_HOME'' ''.config/murl'' home ''config'') (\<lambda>c.
      and_then (pick env ''MURL_DATA_DIR'' ''XDG_DATA_HOME'' ''.local/share/murl'' home ''data'') (\<lambda>d.
      and_then (pick env ''MURL_CACHE_DIR'' ''XDG_CACHE_HOME'' ''.cache/murl'' home ''cache'') (\<lambda>k.
        Inr \<lparr> di_config = c, di_data = d, di_cache = k \<rparr>))))"

definition names_dir :: "dirs \<Rightarrow> string" where
  "names_dir d = path_push (di_data d) ''names''"

definition trust_file :: "dirs \<Rightarrow> string" where
  "trust_file d = path_push (di_config d) ''trust.json''"

definition config_file :: "dirs \<Rightarrow> string" where
  "config_file d = path_push (di_config d) ''config.json''"

definition handlers_path :: "dirs \<Rightarrow> string" where
  "handlers_path d = path_push (di_config d) ''handlers.json''"

definition default_key_file :: "dirs \<Rightarrow> string" where
  "default_key_file d = path_push (path_push (di_config d) ''keys'') ''default.key.json''"

definition manifest_cache_dir :: "dirs \<Rightarrow> string" where
  "manifest_cache_dir d = path_push (di_cache d) ''manifests''"

section \<open>The trust store on disk\<close>

definition de_pinned_key :: "raw \<Rightarrow> string + pinned_key" where
  "de_pinned_key r =
     and_then (raw_fields [''keyId'', ''publicKey'', ''addedAt''] r) (\<lambda>f.
     and_then (raw_required raw_string f ''keyId'') (\<lambda>i.
     and_then (raw_required raw_string f ''publicKey'') (\<lambda>k.
     and_then (raw_default None (raw_option (raw_uint 64)) f ''addedAt'') (\<lambda>a.
       Inr \<lparr> pk_key_id = i, pk_public_key = k, pk_added_at = a \<rparr>))))"

definition raw_vec :: "(raw \<Rightarrow> string + 'a) \<Rightarrow> raw \<Rightarrow> string + 'a list" where
  "raw_vec rd r = (case r of RSeq xs \<Rightarrow> traverse rd xs | _ \<Rightarrow> Inl ''invalid type: expected a sequence'')"

definition raw_authorities :: "raw \<Rightarrow> string + trust_doc" where
  "raw_authorities r =
     (case r of
        RMap ms \<Rightarrow>
          and_then (traverse (\<lambda>(k, v). and_then (raw_vec de_pinned_key v) (\<lambda>ks. Inr (k, ks))) ms) (\<lambda>kvs. Inr (btree_of kvs))
      | _ \<Rightarrow> Inl ''invalid type: expected a map'')"

definition de_trust_doc :: "raw \<Rightarrow> string + trust_doc" where
  "de_trust_doc r = and_then (raw_fields [''authorities''] r) (\<lambda>f. raw_default [] raw_authorities f ''authorities'')"

definition trust_load :: "string \<Rightarrow> (bytes \<Rightarrow> string + raw) \<Rightarrow> io_error + bytes \<Rightarrow> error + trust_store" where
  "trust_load path events contents =
     and_then
       (case contents of
          Inr b \<Rightarrow> map_err (\<lambda>e. ETrust (''malformed trust store '' @ path @ '': '' @ e)) (and_then (events b) de_trust_doc)
        | Inl IoNotFound \<Rightarrow> Inr []
        | Inl e \<Rightarrow> Inl (EIo (io_message e)))
       (\<lambda>doc. Inr \<lparr> ts_path = path, ts_doc = doc \<rparr>)"

section \<open>What a process starts with\<close>

record world =
  wo_limits :: limits
  wo_policy :: policy
  wo_opener :: opener_config
  wo_trust :: trust_store
  wo_names :: string
  wo_cache :: string

definition app_init :: "platform \<Rightarrow> environment \<Rightarrow> (bytes \<Rightarrow> string + raw) \<Rightarrow> disk \<Rightarrow> error + world" where
  "app_init pf env events d =
     and_then (app_paths pf env) (\<lambda>p.
     and_then (user_config_load (config_file p) events (d (config_file p))) (\<lambda>config.
     and_then (handlers_load (handlers_path p) events (d (handlers_path p))) (\<lambda>handlers.
     and_then (trust_load (trust_file p) events (d (trust_file p))) (\<lambda>trust.
       Inr \<lparr> wo_limits = config_limits config, wo_policy = config_policy config,
             wo_opener = to_opener handlers (os_name pf) (home_dir pf env), wo_trust = trust,
             wo_names = names_dir p, wo_cache = manifest_cache_dir p \<rparr>))))"

definition daemon_init :: "platform \<Rightarrow> environment \<Rightarrow> (bytes \<Rightarrow> string + raw) \<Rightarrow> disk \<Rightarrow> error + world" where
  "daemon_init pf env events d =
     and_then (daemon_paths pf env) (\<lambda>p.
     and_then (trust_load (trust_file p) events (d (trust_file p))) (\<lambda>trust.
     and_then (user_config_load (config_file p) events (d (config_file p))) (\<lambda>config.
     and_then (handlers_load (handlers_path p) events (d (handlers_path p))) (\<lambda>handlers.
       Inr \<lparr> wo_limits = config_limits config, wo_policy = config_policy config,
             wo_opener = to_opener handlers (os_name pf) (home_dir pf env), wo_trust = trust,
             wo_names = names_dir p, wo_cache = manifest_cache_dir p \<rparr>))))"

section \<open>Properties\<close>

lemma override_pick:
  "override env var (xdg_dir env xdg rest home) label = Inr p \<longleftrightarrow> pick env var xdg rest home label = Inr p"
  by (cases "set_env env var"; cases "set_env env xdg"; cases home) (simp_all add: override_def pick_def xdg_dir_def under_def)

lemma paths_agree: "app_paths Linux env = Inr p \<longleftrightarrow> daemon_paths Linux env = Inr p"
  by (simp add: app_paths_def daemon_paths_def Let_def platform_config_def platform_data_def platform_cache_def override_pick)

text \<open>
  C37: the command line and the daemon see the same world. On Linux, with the same environment
  and disk, one of them starts exactly when the other does, and then with the same
  limits, policy, handlers, pinned keys, names and cache.
\<close>

theorem same_world:
  "app_init Linux env events d = Inr w \<longleftrightarrow> daemon_init Linux env events d = Inr w"
  by (auto simp: app_init_def daemon_init_def paths_agree)

text \<open>With all three directories given, they agree on every platform.\<close>

lemma same_world_overridden:
  assumes "set_env env ''MURL_CONFIG_DIR'' = Some c" "set_env env ''MURL_DATA_DIR'' = Some p" "set_env env ''MURL_CACHE_DIR'' = Some k"
  shows "app_init pf env events d = Inr w \<longleftrightarrow> daemon_init pf env events d = Inr w"
proof -
  have "app_paths pf env = daemon_paths pf env"
    using assms by (simp add: app_paths_def daemon_paths_def Let_def override_def pick_def)
  then show ?thesis by (auto simp: app_init_def daemon_init_def)
qed

text \<open>Not so elsewhere. On macOS the command line looks below \<open>Library\<close>, the daemon keeps to the
  XDG rules: a policy that denies dangerous resources is in force for one and not for
  the other.\<close>

definition mac_env :: environment where
  "mac_env = [''HOME'' \<mapsto> ''/Users/u'']"

definition mac_disk :: disk where
  "mac_disk p = (if p = ''/Users/u/Library/Application Support/murl/config.json'' then Inr ''deny'' else Inl IoNotFound)"

definition mac_events :: "bytes \<Rightarrow> string + raw" where
  "mac_events b = (if b = ''deny'' then Inr (RMap [(''policy'', RMap [(''dangerous'', RStr ''deny'')])]) else Inl ''not JSON'')"

lemma macos_differs:
  "map_sum id (\<lambda>w. po_dangerous (wo_policy w)) (app_init MacOS mac_env mac_events mac_disk) = Inr CDeny
   \<and> map_sum id (\<lambda>w. po_dangerous (wo_policy w)) (daemon_init MacOS mac_env mac_events mac_disk) = Inr CPrompt"
  by code_simp

end
