(* ===== verification/Playground.thy ===== *)
theory Playground
  imports Dialog Config
begin

text \<open>
  The playground of the documentation site, \<open>murl-wasm/src/lib.rs\<close>: pasted lines become the
  resources of a manifest, which is then read and validated by the core. The functions
  that move buffers across the WebAssembly boundary are not modelled.
\<close>

section \<open>The request\<close>

record play_request =
  py_name :: string
  py_description :: string
  py_slug :: string
  py_authority :: string
  py_lines :: "string list"

definition PLAY_FIELDS :: "string list" where
  "PLAY_FIELDS = [''name'', ''description'', ''slug'', ''authority'', ''lines'']"

text \<open>Every member may be missing.\<close>

definition de_play_request :: "raw \<Rightarrow> string + play_request" where
  "de_play_request r =
     and_then (raw_fields PLAY_FIELDS r) (\<lambda>f.
     and_then (raw_default [] raw_string f ''name'') (\<lambda>name.
     and_then (raw_default [] raw_string f ''description'') (\<lambda>description.
     and_then (raw_default [] raw_string f ''slug'') (\<lambda>slug.
     and_then (raw_default [] raw_string f ''authority'') (\<lambda>authority.
     and_then (raw_default [] raw_argv f ''lines'') (\<lambda>lines.
       Inr \<lparr> py_name = name, py_description = description, py_slug = slug, py_authority = authority, py_lines = lines \<rparr>))))))"

section \<open>What a line means\<close>

definition check_line :: "kind \<Rightarrow> string \<Rightarrow> string + (kind \<times> string)" where
  "check_line kind target = and_then (validate_target kind target) (\<lambda>_. Inr (kind, target))"

text \<open>\<open>split_once(char::is_whitespace)\<close>.\<close>

definition split_white :: "string \<Rightarrow> (string \<times> string) option" where
  "split_white s =
     (let h = until_white s in
      case strip_any white_space (drop (length h) s) of Some rest \<Rightarrow> Some (h, rest) | None \<Rightarrow> None)"

definition is_windows_path :: "string \<Rightarrow> bool" where
  "is_windows_path s \<longleftrightarrow>
     3 \<le> length s \<and> is_alpha (s ! 0) \<and> s ! 1 = CHR '':'' \<and> (s ! 2 = CHR ''/'' \<or> s ! 2 = CHR 0x5C)"

definition looks_like_file :: "string \<Rightarrow> bool" where
  "looks_like_file s \<longleftrightarrow>
     \<not> ends_with ''/'' s \<and> \<not> ends_with [CHR 0x5C] s
     \<and> (case rsplit_once CHR ''.'' (last_component s) of Some (a, b) \<Rightarrow> a \<noteq> [] \<and> b \<noteq> [] | None \<Rightarrow> False)"

definition host_label :: "string \<Rightarrow> bool" where
  "host_label l \<longleftrightarrow>
     l \<noteq> [] \<and> list_all (\<lambda>b. is_alnum b \<or> b = CHR ''-'') l \<and> \<not> starts_with ''-'' l \<and> \<not> ends_with ''-'' l"

definition looks_like_hostname :: "string \<Rightarrow> bool" where
  "looks_like_hostname s =
     (let host = takeWhile (\<lambda>c. c \<noteq> CHR '':'') (takeWhile (\<lambda>c. c \<notin> {CHR ''/'', CHR ''?'', CHR ''#''}) s) in
      host \<noteq> [] \<and> CHR ''.'' \<in> set host \<and> list_all host_label (split_on CHR ''.'' host))"

definition not_recognised :: string where
  "not_recognised = ''not recognised '' @ em_dash @ '' use a URL, an absolute or ~ path, or prefix the line with a kind such as `terminal ~/projects/x`''"

text \<open>The shape of a line, after the kind word has been tried.\<close>

definition interpret_shape :: "string \<Rightarrow> string + (kind \<times> string)" where
  "interpret_shape line =
     (let lower = to_ascii_lowercase line in
      if starts_with ''https://'' lower \<or> starts_with ''http://'' lower then check_line Https line
      else if starts_with ''murl://'' lower then check_line Murl line
      else if starts_with ''ssh://'' lower then check_line Ssh line
      else if starts_with ''rdp://'' lower \<or> starts_with ''vnc://'' lower then check_line RemoteDesktop line
      else if starts_with ''mailto:'' lower then check_line Mailto line
      else if starts_with ''geo:'' lower then check_line Geo line
      else if starts_with ''/'' line \<or> starts_with ''~'' line \<or> is_windows_path line
      then check_line (if looks_like_file line then File else Dir) line
      else if looks_like_hostname lower
      then check_line Https (''https://'' @ strip_all (length line) [''www.''] line)
      else Inl not_recognised)"

definition interpret_line :: "string \<Rightarrow> string + (kind \<times> string)" where
  "interpret_line line =
     (case split_white line of
        Some (head, rest) \<Rightarrow>
          (case kind_parse (trim head) of
             Inr kind \<Rightarrow> check_line kind (trim rest)
           | Inl _ \<Rightarrow> interpret_shape line)
      | None \<Rightarrow> interpret_shape line)"

definition suggested_role :: "kind \<Rightarrow> string \<Rightarrow> string option" where
  "suggested_role kind target =
     (let t = to_ascii_lowercase target; has = (\<lambda>ws. list_ex (\<lambda>w. contains w t) ws) in
      case kind of
        Https \<Rightarrow>
          if has [''github.com'', ''gitlab'', ''bitbucket''] then Some ''source''
          else if has [''docs'', ''wiki'', ''readthedocs''] then Some ''docs''
          else if has [''jira'', ''issues'', ''linear''] then Some ''issues''
          else if has [''grafana'', ''datadog'', ''sentry''] then Some ''monitoring''
          else None
      | Dir \<Rightarrow> Some ''workspace''
      | Terminal \<Rightarrow> Some ''terminal''
      | _ \<Rightarrow> None)"

section \<open>Ids\<close>

text \<open>Bytes of a character outside ASCII are skipped, as the character is.\<close>

fun sanitize_loop :: "string \<Rightarrow> string \<Rightarrow> string" where
  "sanitize_loop out [] = out"
| "sanitize_loop out (c # s) =
     (let out' = (if is_lower c \<or> is_digit c then out @ [c]
                  else if (c = CHR ''-'' \<or> c = CHR ''_'' \<or> c = CHR '' '') \<and> out \<noteq> [] then out @ ''-''
                  else out)
      in if 64 \<le> length out' then out' else sanitize_loop out' s)"

definition trim_dashes :: "string \<Rightarrow> string" where
  "trim_dashes s = rev (dropWhile (\<lambda>c. c = CHR ''-'') (rev (dropWhile (\<lambda>c. c = CHR ''-'') s)))"

definition sanitize_id :: "string \<Rightarrow> string" where
  "sanitize_id s =
     (let t = trim_dashes (sanitize_loop [] (to_ascii_lowercase s)) in
      case t of [] \<Rightarrow> [] | c # _ \<Rightarrow> if is_lower c \<or> is_digit c then t else [])"

definition sanitize_slug :: "string \<Rightarrow> string \<Rightarrow> string" where
  "sanitize_slug slug name =
     (if sanitize_id slug \<noteq> [] then sanitize_id slug
      else if sanitize_id name \<noteq> [] then sanitize_id name
      else ''destination'')"

fun after_scheme :: "string \<Rightarrow> string option" where
  "after_scheme [] = None"
| "after_scheme (c # s) = (case strip_prefix ''://'' (c # s) of Some rest \<Rightarrow> Some rest | None \<Rightarrow> after_scheme s)"

definition slug_from_target :: "string \<Rightarrow> kind \<Rightarrow> string" where
  "slug_from_target target kind =
     (if kind = Terminal then ''terminal''
      else
        let stripped = (case after_scheme target of Some rest \<Rightarrow> rest | None \<Rightarrow> target);
            first_label = takeWhile (\<lambda>c. c \<noteq> CHR ''.'')
        in sanitize_id
             (if kind \<in> {Https, Ssh, RemoteDesktop, Murl}
              then first_label (takeWhile (\<lambda>c. c \<notin> {CHR ''/'', CHR ''?'', CHR ''#'', CHR '':''}) stripped)
              else first_label (last_component (trim_end_matches is_separator stripped))))"

text \<open>The search for a free id. The fuel is one more than the number of used ids, which is
  enough: the candidates differ.\<close>

fun free_id :: "nat \<Rightarrow> string \<Rightarrow> nat \<Rightarrow> string list \<Rightarrow> string \<Rightarrow> string" where
  "free_id 0 base n used candidate = candidate"
| "free_id (Suc k) base n used candidate =
     (if candidate \<in> set used then free_id k base (n + 1) used (base @ ''-'' @ dec_of_nat n) else candidate)"

definition unique_id :: "string \<Rightarrow> kind \<Rightarrow> string list \<Rightarrow> string" where
  "unique_id target kind used =
     (let slug = slug_from_target target kind; base = (if slug = [] then ''resource'' else slug) in
      free_id (length used + 1) base 2 used base)"

section \<open>Processing\<close>

record view =
  vw_line :: string
  vw_id :: string
  vw_kind :: string
  vw_target :: string
  vw_tier :: string
  vw_error :: "string option"

definition view_json :: "view \<Rightarrow> json" where
  "view_json v = json_obj
     [(''line'', JStr (vw_line v)), (''id'', JStr (vw_id v)), (''kind'', JStr (vw_kind v)),
      (''target'', JStr (vw_target v)), (''tier'', JStr (vw_tier v)), (''error'', json_opt JStr (vw_error v))]"

text \<open>An accepted line, as an entry of the manifest.\<close>

record entry =
  en_id :: string
  en_kind :: kind
  en_target :: string

definition entry_json :: "entry \<Rightarrow> json" where
  "entry_json e = json_obj
     ([(''id'', JStr (en_id e)), (''kind'', JStr (kind_display (en_kind e))), (''target'', JStr (en_target e))]
      @ (case suggested_role (en_kind e) (en_target e) of None \<Rightarrow> [] | Some role \<Rightarrow> [(''role'', JStr role)]))"

fun process_lines :: "string list \<Rightarrow> string list \<Rightarrow> view list \<times> entry list" where
  "process_lines used [] = ([], [])"
| "process_lines used (raw_line # rest) =
     (let line = trim raw_line in
      if line = [] \<or> starts_with ''#'' line then process_lines used rest
      else case interpret_line line of
        Inl problem \<Rightarrow>
          (case process_lines used rest of
             (vs, es) \<Rightarrow>
               (\<lparr> vw_line = line, vw_id = [], vw_kind = [], vw_target = line, vw_tier = [], vw_error = Some problem \<rparr> # vs, es))
      | Inr (kind, target) \<Rightarrow>
          (let i = unique_id target kind used in
           case process_lines (used @ [i]) rest of
             (vs, es) \<Rightarrow>
               (\<lparr> vw_line = line, vw_id = i, vw_kind = kind_display kind, vw_target = target,
                  vw_tier = tier_display (classify kind target), vw_error = None \<rparr> # vs,
                \<lparr> en_id = i, en_kind = kind, en_target = target \<rparr> # es)))"

definition play_identity :: "play_request \<Rightarrow> string" where
  "play_identity q = ''murl://local/'' @ sanitize_slug (py_slug q) (py_name q)"

definition play_manifest :: "play_request \<Rightarrow> entry list \<Rightarrow> json" where
  "play_manifest q es =
     (let slug = sanitize_slug (py_slug q) (py_name q) in json_obj
       ([(''murlVersion'', JStr ''0.2''), (''id'', JStr (play_identity q)),
         (''name'', JStr (if trim (py_name q) = [] then slug else trim (py_name q))),
         (''resources'', JArr (map entry_json es))]
        @ (if trim (py_description q) = [] then [] else [(''description'', JStr (trim (py_description q)))])))"

definition issue_line :: "issue \<Rightarrow> string" where
  "issue_line i = is_path i @ '': '' @ is_message i"

definition play_verdict :: "ext \<Rightarrow> json \<Rightarrow> string list \<times> string list" where
  "play_verdict x manifest =
     (case manifest_from_slice (x_events x) default_limits (json_text x manifest) of
        Inl e \<Rightarrow> ([error_display e], [])
      | Inr parsed \<Rightarrow>
          (map issue_line (vr_errors (validate x parsed)), map issue_line (vr_warnings (validate x parsed))))"

definition play_published :: "play_request \<Rightarrow> json" where
  "play_published q =
     (let authority = trim (py_authority q); slug = sanitize_slug (py_slug q) (py_name q);
          candidate = ''murl://'' @ authority @ ''/'' @ slug in
      if authority \<noteq> [] \<and> is_ok (murl_parse candidate)
      then json_obj [(''murl'', JStr candidate), (''path'', JStr (''.well-known/murl/'' @ slug @ ''.murl.json'')),
             (''url'', JStr (''https://'' @ authority @ ''/.well-known/murl/'' @ slug @ ''.murl.json''))]
      else JNull)"

definition play_response :: "ext \<Rightarrow> play_request \<Rightarrow> json" where
  "play_response x q =
     (case process_lines [] (py_lines q) of
        (vs, es) \<Rightarrow>
          (let slug = sanitize_slug (py_slug q) (py_name q); manifest = play_manifest q es in
           if es = []
           then json_obj [(''ok'', JBool False), (''resources'', JArr (map view_json vs)),
                  (''errors'', JArr [JStr ''a manifest needs at least one resource'']), (''warnings'', JArr []),
                  (''murl'', JStr (play_identity q))]
           else case play_verdict x manifest of
             (errors, warnings) \<Rightarrow>
               json_obj [(''ok'', JBool (errors = [])), (''resources'', JArr (map view_json vs)),
                 (''errors'', JArr (map JStr errors)), (''warnings'', JArr (map JStr warnings)),
                 (''manifest'', JStr (pretty x 0 manifest)), (''murl'', JStr (play_identity q)), (''slug'', JStr slug),
                 (''filename'', JStr (slug @ ''.murl.json'')), (''published'', play_published q)]))"

definition play_process :: "ext \<Rightarrow> string \<Rightarrow> string" where
  "play_process x request =
     (case and_then (x_events x request) de_play_request of
        Inl e \<Rightarrow> json_text x (json_obj [(''ok'', JBool False), (''fatal'', JStr (''malformed request: '' @ e))])
      | Inr q \<Rightarrow> json_text x (play_response x q))"

section \<open>Ids are new\<close>

definition candidates :: "string \<Rightarrow> nat \<Rightarrow> nat \<Rightarrow> string set" where
  "candidates base n k = (\<lambda>j. base @ ''-'' @ dec_of_nat j) ` {n..<n + k}"

lemma free_id_used:
  "free_id k base n used c \<in> set used \<Longrightarrow> insert c (candidates base n k) \<subseteq> set used"
proof (induction k arbitrary: n c)
  case (Suc k)
  then have c: "c \<in> set used" "free_id k base (n + 1) used (base @ ''-'' @ dec_of_nat n) \<in> set used"
    by (auto split: if_splits)
  have "{n..<n + Suc k} = insert n {n + 1..<n + 1 + k}" by auto
  then show ?case using c(1) Suc.IH [OF c(2)] by (simp add: candidates_def)
qed (simp add: candidates_def)

lemma unique_id_new: "unique_id target kind used \<notin> set used"
proof
  define base where "base = (if slug_from_target target kind = [] then ''resource'' else slug_from_target target kind)"
  let ?k = "length used + 1"
  assume "unique_id target kind used \<in> set used"
  then have sub: "insert base (candidates base 2 ?k) \<subseteq> set used"
    unfolding unique_id_def Let_def base_def [symmetric] by (rule free_id_used)
  have "inj_on (\<lambda>j. base @ ''-'' @ dec_of_nat j) {2..<2 + ?k}"
    by (rule inj_onI) (metis append_same_eq nat_of_dec_of_nat same_append_eq)
  then have "card (candidates base 2 ?k) = ?k" by (simp add: candidates_def card_image)
  moreover have "card (candidates base 2 ?k) \<le> card (set used)" using sub by (intro card_mono) auto
  ultimately show False using card_length [of used] by simp
qed

lemma free_id_shape: "c = base \<or> (\<exists>j. c = base @ ''-'' @ dec_of_nat j) \<Longrightarrow>
   free_id k base n used c = base \<or> (\<exists>j. free_id k base n used c = base @ ''-'' @ dec_of_nat j)"
  by (induction k arbitrary: n c) auto

section \<open>Ids are valid, when they are short\<close>

definition slug_char :: "char \<Rightarrow> bool" where
  "slug_char c \<longleftrightarrow> lower_or_digit c \<or> c = CHR ''-''"

lemma sanitize_loop_ok:
  "list_all slug_char out \<Longrightarrow> length out < 64 \<Longrightarrow> list_all slug_char (sanitize_loop out s) \<and> length (sanitize_loop out s) \<le> 64"
  by (induction s arbitrary: out) (auto simp: Let_def slug_char_def lower_or_digit_def)

lemma set_trim_dashes: "set (trim_dashes s) \<subseteq> set s" "length (trim_dashes s) \<le> length s"
proof -
  show "set (trim_dashes s) \<subseteq> set s" by (auto simp: trim_dashes_def dest!: set_dropWhileD)
  show "length (trim_dashes s) \<le> length s"
    by (simp add: trim_dashes_def) (metis length_dropWhile_le length_rev order_trans)
qed

lemma sanitize_id_ok:
  assumes "sanitize_id s \<noteq> []"
  shows "is_valid_resource_id (sanitize_id s) \<and> list_all slug_char (sanitize_id s)"
proof -
  define t where "t = trim_dashes (sanitize_loop [] (to_ascii_lowercase s))"
  have t: "list_all slug_char t" "length t \<le> 64"
    using sanitize_loop_ok [of "[]" "to_ascii_lowercase s"] set_trim_dashes [of "sanitize_loop [] (to_ascii_lowercase s)"]
    by (auto simp: t_def list_all_iff)
  have i: "sanitize_id s = t" "t \<noteq> []" "lower_or_digit (hd t)"
    using assms by (auto simp: sanitize_id_def t_def [symmetric] lower_or_digit_def split: list.splits if_splits)
  then show ?thesis using t by (cases t) (auto simp: is_valid_resource_id_Cons slug_char_def list_all_iff)
qed

lemma sanitize_slug_ok: "is_valid_resource_id (sanitize_slug slug name) \<and> list_all slug_char (sanitize_slug slug name)"
proof -
  have "is_valid_resource_id ''destination'' \<and> list_all slug_char ''destination''" by code_simp
  then show ?thesis using sanitize_id_ok by (simp add: sanitize_slug_def)
qed

lemma unique_id_valid: "is_valid_resource_id (unique_id target kind used) \<longleftrightarrow> length (unique_id target kind used) \<le> 64"
proof
  define base where "base = (if slug_from_target target kind = [] then ''resource'' else slug_from_target target kind)"
  let ?u = "unique_id target kind used"
  have words: "is_valid_resource_id ''terminal''" "is_valid_resource_id ''resource''" by code_simp+
  have base: "is_valid_resource_id base"
    using words sanitize_id_ok by (auto simp: base_def slug_from_target_def Let_def)
  then obtain c b where cb: "base = c # b" by (cases base) auto
  assume len: "length ?u \<le> 64"
  have "?u = base \<or> (\<exists>j. ?u = base @ ''-'' @ dec_of_nat j)"
    using free_id_shape [of base base "length used + 1" 2 used] by (simp add: unique_id_def Let_def base_def)
  then show "is_valid_resource_id ?u"
  proof
    assume "\<exists>j. ?u = base @ ''-'' @ dec_of_nat j"
    then obtain j where u: "?u = base @ ''-'' @ dec_of_nat j" by blast
    have "list_all (\<lambda>b. lower_or_digit b \<or> b = CHR ''-'' \<or> b = CHR ''_'') (dec_of_nat j)"
      using all_digits_dec_of_nat [of j] by (auto simp: all_digits_def lower_or_digit_def list_all_iff)
    then show ?thesis using base len unfolding u cb by (simp add: is_valid_resource_id_Cons)
  qed (use base in simp)
qed (simp add: is_valid_resource_id_def)

section \<open>What the lines become\<close>

definition meaningful :: "string list \<Rightarrow> string list" where
  "meaningful lines = filter (\<lambda>l. l \<noteq> [] \<and> \<not> starts_with ''#'' l) (map trim lines)"

definition entry_of_view :: "view \<Rightarrow> entry \<Rightarrow> bool" where
  "entry_of_view v e \<longleftrightarrow> interpret_line (vw_line v) = Inr (en_kind e, en_target e) \<and> vw_id v = en_id e
     \<and> vw_kind v = kind_display (en_kind e) \<and> vw_target v = en_target e \<and> vw_tier v = tier_display (classify (en_kind e) (en_target e))"

definition entry_valid :: "entry \<Rightarrow> bool" where
  "entry_valid e \<longleftrightarrow> wf_kind (en_kind e) \<and> validate_target (en_kind e) (en_target e) = Inr ()
     \<and> (is_valid_resource_id (en_id e) \<longleftrightarrow> length (en_id e) \<le> 64)"

lemma check_line_iff: "check_line k t = Inr (k', t') \<longleftrightarrow> k' = k \<and> t' = t \<and> validate_target k t = Inr ()"
  by (auto simp: check_line_def)

lemma interpret_line_valid:
  assumes "interpret_line line = Inr (k, t)"
  shows "wf_kind k \<and> validate_target k t = Inr ()"
proof -
  have "wf_kind k \<and> validate_target k t = Inr ()" if "interpret_shape line = Inr (k, t)"
    using that by (auto simp: interpret_shape_def Let_def check_line_iff wf_kind_def split: if_splits)
  then show ?thesis using assms kind_parse_sound
    by (auto simp: interpret_line_def check_line_iff split: option.splits prod.splits sum.splits)
qed

lemma process_lines_sound:
  assumes "process_lines used lines = (vs, es)"
  shows "map vw_line vs = meaningful lines
    \<and> list_all2 entry_of_view (filter (\<lambda>v. vw_error v = None) vs) es
    \<and> (\<forall>v\<in>set vs. \<forall>why. vw_error v = Some why \<longrightarrow> interpret_line (vw_line v) = Inl why)
    \<and> list_all entry_valid es \<and> distinct (map en_id es) \<and> (\<forall>e\<in>set es. en_id e \<notin> set used)"
  using assms
proof (induction used lines arbitrary: vs es rule: process_lines.induct)
  case (2 used raw_line rest)
  let ?l = "trim raw_line"
  show ?case
  proof (cases "?l = [] \<or> starts_with ''#'' ?l")
    case True
    then show ?thesis using 2(1) [OF refl True] 2(4) by (auto simp: meaningful_def)
  next
    case False
    show ?thesis
    proof (cases "interpret_line ?l")
      case (Inl problem)
      obtain vs' es' where r: "process_lines used rest = (vs', es')" by fastforce
      then show ?thesis using 2(2) [OF refl False Inl r] 2(4) False Inl by (auto simp: Let_def meaningful_def)
    next
      case (Inr kt)
      obtain k t where kt: "kt = (k, t)" by fastforce
      let ?i = "unique_id t k used"
      obtain vs' es' where r: "process_lines (used @ [?i]) rest = (vs', es')" by fastforce
      note IH = 2(3) [OF refl False Inr kt [symmetric] refl r]
      have "\<forall>e\<in>set es'. en_id e \<noteq> ?i" using IH by simp
      then have "?i \<notin> en_id ` set es'" by (simp add: image_iff) metis
      moreover have "wf_kind k \<and> validate_target k t = Inr ()" using interpret_line_valid Inr kt by blast
      ultimately show ?thesis
        using IH 2(4) False Inr unique_id_new [of t k used] unique_id_valid [of t k used]
        by (auto simp: kt r Let_def meaningful_def entry_of_view_def entry_valid_def)
    qed
  qed
qed (simp add: meaningful_def)

section \<open>The verdict\<close>

lemma visit_written: "wf_json j \<Longrightarrow> integral j \<Longrightarrow> visit (as_raw j) = Inr j"
proof (induction j rule: as_raw.induct)
  case (6 vs)
  have "traverse visit (map as_raw vs) = Inr vs" using 6 by (induction vs) simp_all
  then show ?case by (simp add: visit_seq_traverse)
next
  case (7 m)
  have "list_all2 (\<lambda>p q. fst q = fst p \<and> visit (as_raw (snd p)) = Inr (snd q)) m m"
    using 7 by (force simp: list_all2_same)
  from visit_members [OF wf_map_distinct this] 7(2) obtain l where
    l: "visit (as_raw (JObj m)) = Inr (JObj l)" "map_of l = map_of m" by auto
  have "wf_map l" using visit_wf [OF l(1)] by simp
  then have "l = m" using wf_map_unique [of l m] l(2) 7(2) by simp
  then show ?case using l(1) by simp
qed simp_all

lemma obj_insert_spec:
  "wf_map m \<Longrightarrow> wf_map (obj_insert k v m) \<and> map_of (obj_insert k v m) = (map_of m)(k \<mapsto> v)
     \<and> set (obj_insert k v m) \<subseteq> insert (k, v) (set m)"
proof -
  have "set (fst (map_insert k v m)) \<subseteq> insert (k, v) (set m)"
    by (induction k v m rule: map_insert.induct) (auto split: prod.split)
  then show "wf_map m \<Longrightarrow> ?thesis"
    using map_insert_spec [of k v m, OF prod.collapse [symmetric]] by (simp add: obj_insert_def)
qed

lemma json_obj_spec:
  "\<exists>m. json_obj kvs = JObj m \<and> wf_map m \<and> map_of m = map_of (rev kvs) \<and> set m \<subseteq> set kvs"
proof -
  have "wf_map acc \<Longrightarrow> \<exists>m. fold (\<lambda>(k, v) m. obj_insert k v m) kvs acc = m \<and> wf_map m \<and> map_of m = map_of acc ++ map_of (rev kvs)
      \<and> set m \<subseteq> set acc \<union> set kvs" for acc
  proof (induction kvs arbitrary: acc)
    case (Cons kv kvs)
    obtain k v where kv: "kv = (k, v)" by fastforce
    note s = obj_insert_spec [OF Cons.prems, of k v]
    from Cons.IH [of "obj_insert k v acc"] s show ?case by (auto simp: kv map_add_def fun_eq_iff split: option.splits)
  qed simp
  from this [of "[]"] show ?thesis by (simp add: json_obj_def)
qed

definition doc_of :: "entry \<Rightarrow> resource_doc" where
  "doc_of e = \<lparr> rd_id = en_id e, rd_kind = kind_display (en_kind e), rd_target = en_target e, rd_label = None,
     rd_role = suggested_role (en_kind e) (en_target e), rd_required = False, rd_order = default_order, rd_depends_on = [],
     rd_tags = [], rd_integrity = None, rd_meta = None \<rparr>"

lemmas read_struct = fields_of_def optional_def required_def defaulted_def de_string_def

lemma entry_json_read: "de_resource (entry_json e) = Inr (doc_of e) \<and> wf_json (entry_json e) \<and> integral (entry_json e)"
proof -
  define role where "role = suggested_role (en_kind e) (en_target e)"
  define kvs where "kvs = [(''id'', JStr (en_id e)), (''kind'', JStr (kind_display (en_kind e))), (''target'', JStr (en_target e))]
      @ (case role of None \<Rightarrow> [] | Some r \<Rightarrow> [(''role'', JStr r)])"
  obtain m where m: "json_obj kvs = JObj m" "wf_map m" "map_of m = map_of (rev kvs)" "set m \<subseteq> set kvs"
    using json_obj_spec by blast
  have j: "entry_json e = JObj m" using m(1) by (simp add: entry_json_def kvs_def role_def)
  have f: "map_of m = (\<lambda>k. if k = ''id'' then Some (JStr (en_id e)) else if k = ''kind'' then Some (JStr (kind_display (en_kind e)))
      else if k = ''target'' then Some (JStr (en_target e)) else if k = ''role'' then map_option JStr role else None)"
    unfolding m(3) kvs_def by (auto simp: fun_eq_iff split: option.split)
  have "de_resource (JObj m) = Inr (doc_of e)"
    by (cases role) (simp_all add: de_resource_def read_struct f doc_of_def role_def [symmetric])
  moreover have "\<exists>s. snd kv = JStr s" if "kv \<in> set kvs" for kv using that by (auto simp: kvs_def split: option.splits)
  then have "\<forall>kv\<in>set m. wf_json (snd kv) \<and> integral (snd kv)" using m(4) by fastforce
  ultimately show ?thesis using m(2) by (simp add: j)
qed

definition shown_name :: "play_request \<Rightarrow> string" where
  "shown_name q = (if trim (py_name q) = [] then sanitize_slug (py_slug q) (py_name q) else trim (py_name q))"

definition play_doc :: "play_request \<Rightarrow> entry list \<Rightarrow> manifest_doc" where
  "play_doc q es = \<lparr> md_murl_version = ''0.2'', md_id = Some (play_identity q), md_name = shown_name q,
     md_description = (if trim (py_description q) = [] then None else Some (trim (py_description q))), md_version = None,
     md_not_before = None, md_expires = None, md_resources = map doc_of es, md_relations = [], md_signature = None \<rparr>"

lemma play_manifest_read:
  "\<exists>m. play_manifest q es = JObj m \<and> wf_json (JObj m) \<and> integral (JObj m) \<and> de_manifest (JObj m) = Inr (play_doc q es)"
proof -
  define desc where "desc = (if trim (py_description q) = [] then None else Some (trim (py_description q)))"
  define kvs where "kvs = [(''murlVersion'', JStr ''0.2''), (''id'', JStr (play_identity q)), (''name'', JStr (shown_name q)),
      (''resources'', JArr (map entry_json es))] @ (case desc of None \<Rightarrow> [] | Some d \<Rightarrow> [(''description'', JStr d)])"
  obtain m where m: "json_obj kvs = JObj m" "wf_map m" "map_of m = map_of (rev kvs)" "set m \<subseteq> set kvs"
    using json_obj_spec by blast
  have j: "play_manifest q es = JObj m" using m(1) by (simp add: play_manifest_def kvs_def desc_def shown_name_def Let_def split: if_splits)
  have f: "map_of m = (\<lambda>k. if k = ''murlVersion'' then Some (JStr ''0.2'') else if k = ''id'' then Some (JStr (play_identity q))
      else if k = ''name'' then Some (JStr (shown_name q)) else if k = ''resources'' then Some (JArr (map entry_json es))
      else if k = ''description'' then map_option JStr desc else None)"
    unfolding m(3) kvs_def by (auto simp: fun_eq_iff split: option.split)
  have "traverse de_resource (map entry_json es) = Inr (map doc_of es)"
    by (induction es) (simp_all add: entry_json_read)
  then have "de_manifest (JObj m) = Inr (play_doc q es)"
    by (cases desc) (simp_all add: de_manifest_def read_struct de_vec_def f play_doc_def desc_def [symmetric])
  moreover have "wf_json (snd kv) \<and> integral (snd kv)" if "kv \<in> set kvs" for kv
    using that by (auto simp: kvs_def entry_json_read split: option.splits)
  then have "\<forall>kv\<in>set m. wf_json (snd kv) \<and> integral (snd kv)" using m(4) by blast
  ultimately show ?thesis using m(2) by (simp add: j)
qed

lemma slug_char_plain: "slug_char c \<Longrightarrow> unreserved c \<and> byte c < 0x80 \<and> plain_cp (byte c)"
  by (auto simp: slug_char_def lower_or_digit_def unreserved_def is_alnum_def is_alpha_def is_lower_def is_digit_def in_range_def
      plain_cp_def is_control_def)

lemma utf8_ascii: "list_all (\<lambda>c. byte c < 0x80) s \<Longrightarrow> utf8_decode s = Some (map byte s)"
  by (induction s) (simp_all add: utf8_decode_Cons_ascii)

lemma slug_parses:
  assumes "is_valid_resource_id s" "list_all slug_char s"
  shows "\<exists>m. murl_parse (''murl://local/'' @ s) = Inr m \<and> mu_selector m = None \<and> mu_query m = None"
proof -
  define m where "m = \<lparr> mu_authority = Local, mu_name = [s], mu_version = Latest, mu_selector = None, mu_query = None \<rparr>"
  have c: "list_all unreserved s" "utf8_decode s = Some (map byte s)" "list_all plain_cp (map byte s)"
    using assms(2) slug_char_plain by (auto simp: list_all_iff intro: utf8_ascii)
  have len: "s \<noteq> []" "length s \<le> 64" using assms(1) by (auto simp: is_valid_resource_id_def)
  have "CHR ''.'' \<notin> set s" using assms(2) by (auto simp: list_all_iff slug_char_def lower_or_digit_def is_lower_def is_digit_def in_range_def)
  then have seg: "wf_segment s" using c len by (auto simp: wf_segment_def MAX_SEGMENT_BYTES_def)
  have d: "murl_display m = ''murl://local/'' @ s"
    using encode_segment_unreserved [OF c(1)] by (simp add: m_def murl_display_def identity_def selector_display_def LOCAL_AUTHORITY_def)
  have "wf_murl m"
    using seg len unfolding wf_murl_def d by (simp add: m_def MAX_SEGMENTS_def MAX_MURL_LEN_def)
  then show ?thesis using wf_murl_complete [of m] d by (auto simp: m_def)
qed

lemma no_dependencies: "(\<And>r. r \<in> set rs \<Longrightarrow> rd_depends_on r = []) \<Longrightarrow> dep_edges rs = {}"
  by (auto simp: dep_edges_def deps_of_def map_filter_simps)

lemma suggested_role_valid: "opt_all is_valid_role (suggested_role k t)"
proof -
  have "list_all is_valid_role [''source'', ''docs'', ''issues'', ''monitoring'', ''workspace'', ''terminal'']" by code_simp
  then show ?thesis by (cases k) (simp_all add: suggested_role_def Let_def)
qed

text \<open>What is left to the user: short enough, no control characters, and not too many.\<close>

definition presentable :: "play_request \<Rightarrow> entry list \<Rightarrow> bool" where
  "presentable q es \<longleftrightarrow>
     length es \<le> 64
     \<and> (\<forall>e\<in>set es. length (en_id e) \<le> 64 \<and> en_target e \<noteq> [] \<and> length (en_target e) \<le> MAX_TARGET_LEN \<and> \<not> has_control (en_target e))
     \<and> length (utf8_chars (shown_name q)) \<le> MAX_NAME_LEN \<and> \<not> has_control (shown_name q)
     \<and> length (utf8_chars (trim (py_description q))) \<le> MAX_DESCRIPTION_LEN \<and> \<not> has_control (trim (py_description q))"

lemma doc_of_wf:
  assumes "entry_valid e"
  shows "wf_resource all (doc_of e) \<longleftrightarrow>
    length (en_id e) \<le> 64 \<and> en_target e \<noteq> [] \<and> length (en_target e) \<le> MAX_TARGET_LEN \<and> \<not> has_control (en_target e)"
  using assms kind_parse_display [of "en_kind e"] suggested_role_valid
  by (auto simp: wf_resource_def wf_target_def doc_of_def entry_valid_def default_order_def MAX_TAGS_def MAX_DEPENDS_def)

lemma play_doc_wf:
  assumes "list_all entry_valid es" "distinct (map en_id es)" "es \<noteq> []"
  shows "wf_doc x (play_doc q es) \<longleftrightarrow> presentable q es"
proof -
  have rd: "map rd_id (map doc_of es) = map en_id es" by (simp add: doc_of_def)
  have "dep_edges (map doc_of es) = {}" by (rule no_dependencies) (auto simp: doc_of_def)
  then have r: "wf_resources (map doc_of es) \<longleftrightarrow> length es \<le> 64 \<and> (\<forall>e\<in>set es. length (en_id e) \<le> 64 \<and> en_target e \<noteq> []
      \<and> length (en_target e) \<le> MAX_TARGET_LEN \<and> \<not> has_control (en_target e))"
    using assms doc_of_wf [of _ "map doc_of es"]
    unfolding wf_resources_def rd by (auto simp: MAX_RESOURCES_PER_MANIFEST_def list_all_iff acyclic_def)
  have i: "\<exists>m. murl_parse (play_identity q) = Inr m \<and> mu_selector m = None \<and> mu_query m = None"
    using slug_parses sanitize_slug_ok [of "py_slug q" "py_name q"] by (simp add: play_identity_def)
  have n: "shown_name q \<noteq> []" using sanitize_slug_ok [of "py_slug q" "py_name q"] by (auto simp: shown_name_def)
  have e: "utf8_chars [] = []" "\<not> has_control []" by (simp_all add: utf8_chars_def has_control_def)
  show ?thesis
    using r i n e
    by (auto simp: wf_doc_def play_doc_def presentable_def wf_window_def wf_relations_def ACCEPTED_MURL_VERSIONS_def MAX_RELATIONS_def)
qed

section \<open>Properties\<close>

text \<open>
  Every pasted line is accounted for. The views are the lines that are neither empty nor
  comments, in order; a view carries an error exactly when the line cannot be interpreted,
  and the others are the resources of the manifest, in order, each of a known kind with a
  target the core accepts for it and shown with the tier the core classifies it in. No
  two have the same id, and an id is valid exactly when it has at most 64 bytes.
\<close>

lemma play_lines:
  assumes "process_lines [] lines = (vs, es)"
  shows "map vw_line vs = meaningful lines
    \<and> list_all2 entry_of_view (filter (\<lambda>v. vw_error v = None) vs) es
    \<and> (\<forall>v\<in>set vs. \<forall>why. vw_error v = Some why \<longrightarrow> interpret_line (vw_line v) = Inl why)
    \<and> list_all entry_valid es \<and> distinct (map en_id es)"
  using process_lines_sound [OF assms] by simp

lemma verdict_iff:
  assumes "process_lines [] (py_lines q) = (vs, es)" "es \<noteq> []"
    and "x_events x (json_text x (play_manifest q es)) = Inr (as_raw (play_manifest q es))"
    and "length (json_text x (play_manifest q es)) \<le> max_manifest_bytes default_limits"
  shows "fst (play_verdict x (play_manifest q es)) = [] \<longleftrightarrow> presentable q es"
proof -
  note p = process_lines_sound [OF assms(1)]
  obtain m where m: "play_manifest q es = JObj m" "wf_json (JObj m)" "integral (JObj m)" "de_manifest (JObj m) = Inr (play_doc q es)"
    using play_manifest_read by blast
  have "manifest_from_slice (x_events x) default_limits (json_text x (play_manifest q es))
      = Inr \<lparr> mf_raw = JObj m, mf_doc = play_doc q es \<rparr>"
    using assms(3,4) visit_written [OF m(2,3)] m(4)
    by (simp add: manifest_from_slice_def from_slice_strict_def m(1) del: as_raw.simps json_text.simps)
  then show ?thesis
    using validate_errors [of x "\<lparr> mf_raw = JObj m, mf_doc = play_doc q es \<rparr>"] play_doc_wf [of es x q] p assms(2) m(3)
    by (simp add: play_verdict_def wf_manifest_def del: integral.simps)
qed

text \<open>
  C39: what the playground offers is valid. Whenever a line was accepted, the manifest is
  reported as ok exactly when there are at most 64 resources, all texts the user gave are
  of legal length and free of control characters, and no id is longer than 64 characters.
  Of what the playground adds, the version, the default name, the identity, kinds and
  roles are never the reason for an error; an id is only by its length, which the suffix
  that makes it new can exceed (\<open>unique_id_too_long\<close>). The JSON parser is only assumed to read the manifest that was written, within the cap.
\<close>

theorem play_ok_exactly:
  assumes "process_lines [] (py_lines q) = (vs, es)" "es \<noteq> []"
    and "x_events x (json_text x (play_manifest q es)) = Inr (as_raw (play_manifest q es))"
    and "length (json_text x (play_manifest q es)) \<le> max_manifest_bytes default_limits"
  shows "\<exists>m. play_response x q = JObj m \<and> map_of m ''ok'' = Some (JBool (presentable q es))"
proof -
  obtain errors warnings where v: "play_verdict x (play_manifest q es) = (errors, warnings)" by fastforce
  then have e: "(errors = []) = presentable q es" using verdict_iff [OF assms] by simp
  define kvs where "kvs = [(''ok'', JBool (errors = [])), (''resources'', JArr (map view_json vs)),
      (''errors'', JArr (map JStr errors)), (''warnings'', JArr (map JStr warnings)),
      (''manifest'', JStr (pretty x 0 (play_manifest q es))), (''murl'', JStr (play_identity q)),
      (''slug'', JStr (sanitize_slug (py_slug q) (py_name q))),
      (''filename'', JStr (sanitize_slug (py_slug q) (py_name q) @ ''.murl.json'')), (''published'', play_published q)]"
  obtain m where m: "json_obj kvs = JObj m" "map_of m = map_of (rev kvs)" using json_obj_spec by blast
  have "play_response x q = JObj m" using assms(1,2) m(1) by (simp add: play_response_def Let_def v kvs_def)
  moreover have "map_of m ''ok'' = Some (JBool (errors = []))" unfolding m(2) by (simp add: kvs_def)
  ultimately show ?thesis using e by simp
qed

definition sample_play :: play_request where
  "sample_play = \<lparr> py_name = ''My project'', py_description = [], py_slug = [], py_authority = [],
     py_lines = [''# links'', ''https://github.com/a/b'', '' terminal ~/p '', ''what?'', ''/data/x.pdf''] \<rparr>"

definition sample_entries :: "entry list" where
  "sample_entries = [\<lparr> en_id = ''github'', en_kind = Https, en_target = ''https://github.com/a/b'' \<rparr>,
     \<lparr> en_id = ''terminal'', en_kind = Terminal, en_target = ''~/p'' \<rparr>,
     \<lparr> en_id = ''x'', en_kind = File, en_target = ''/data/x.pdf'' \<rparr>]"

lemma sample_lines: "snd (process_lines [] (py_lines sample_play)) = sample_entries"
  by code_simp

lemma play_lines_witness:
  "\<exists>vs. process_lines [] (py_lines sample_play) = (vs, sample_entries) \<and> map vw_line vs = meaningful (py_lines sample_play)
     \<and> distinct (map en_id sample_entries)"
proof -
  obtain vs where p: "process_lines [] (py_lines sample_play) = (vs, sample_entries)"
    using sample_lines by (cases "process_lines [] (py_lines sample_play)") simp
  then show ?thesis using play_lines [OF p] by blast
qed

definition play_ext :: ext where
  "play_ext = toy_ext\<lparr> x_events := (\<lambda>b.
     if b = json_text toy_ext (play_manifest sample_play sample_entries) then Inr (as_raw (play_manifest sample_play sample_entries))
     else Inl ''not JSON'') \<rparr>"

theorem play_ok_exactly_witness:
  "\<exists>m. play_response play_ext sample_play = JObj m \<and> map_of m ''ok'' = Some (JBool (presentable sample_play sample_entries))"
proof -
  obtain vs where p: "process_lines [] (py_lines sample_play) = (vs, sample_entries)"
    using sample_lines by (cases "process_lines [] (py_lines sample_play)") simp
  have n: "sample_entries \<noteq> []" by (simp add: sample_entries_def)
  have e: "json_text play_ext (play_manifest sample_play sample_entries) = json_text toy_ext (play_manifest sample_play sample_entries)"
    by code_simp
  have l: "length (json_text play_ext (play_manifest sample_play sample_entries)) \<le> max_manifest_bytes default_limits" by code_simp
  show ?thesis by (rule play_ok_exactly [OF p n _ l]) (simp only: e, simp add: play_ext_def)
qed

text \<open>The suffix that makes an id new does not respect its length: of two targets whose last
  segment has 64 letters, the second is given an id that is not valid.\<close>

lemma unique_id_too_long:
  assumes "length (slug_from_target target kind) = 64"
  shows "unique_id target kind [slug_from_target target kind] = slug_from_target target kind @ ''-2''
    \<and> \<not> is_valid_resource_id (slug_from_target target kind @ ''-2'')"
proof -
  have n: "slug_from_target target kind \<noteq> []" using assms by auto
  have "dec_of_nat 2 = ''2''" by code_simp
  then show ?thesis using assms n by (simp add: unique_id_def Let_def is_valid_resource_id_def eval_nat_numeral)
qed

end
