(* ===== verification/Commands.thy ===== *)
theory Commands
  imports Open World Playground
begin

text \<open>
  The remaining commands of \<open>murl-cli\<close>: signing (\<open>commands/keys.rs\<close>), pinned keys
  (\<open>trust_cmd.rs\<close>), the cache (\<open>cache_cmd.rs\<close>), \<open>validate\<close>, \<open>inspect\<close>, \<open>resolve\<close> and
  \<open>parse\<close>. Each gives its exit code and the state it leaves; what is printed is left out,
  but for the trust line of \<open>inspect\<close>.
\<close>

section \<open>Keys\<close>

definition de_key_file :: "raw \<Rightarrow> string + key_file" where
  "de_key_file r =
     and_then (raw_fields [''alg'', ''keyId'', ''publicKey'', ''secretKey''] r) (\<lambda>f.
     and_then (raw_required raw_string f ''alg'') (\<lambda>a.
     and_then (raw_required raw_string f ''keyId'') (\<lambda>i.
     and_then (raw_required raw_string f ''publicKey'') (\<lambda>k.
     and_then (raw_required raw_string f ''secretKey'') (\<lambda>s.
       Inr \<lparr> kf_alg = a, kf_key_id = i, kf_public_key = k, kf_secret_key = s \<rparr>)))))"

definition key_file_json :: "key_file \<Rightarrow> json" where
  "key_file_json f = JObj [(''alg'', JStr (kf_alg f)), (''keyId'', JStr (kf_key_id f)), (''publicKey'', JStr (kf_public_key f)),
     (''secretKey'', JStr (kf_secret_key f))]"

definition load_keypair :: "ext \<Rightarrow> disk \<Rightarrow> string \<Rightarrow> error + keypair" where
  "load_keypair x d p =
     and_then (map_err (\<lambda>e. ETrust (''cannot read key file '' @ p @ '': '' @ io_message e)) (d p)) (\<lambda>b.
     and_then (map_err (\<lambda>e. ETrust (''malformed key file: '' @ e)) (and_then (x_events x b) de_key_file)) (keypair_load x))"

text \<open>
  \<open>entropy\<close> is what the system gives for a seed. Creating the parent directories of the
  key file is part of the write that \<open>refuses\<close> can refuse; the mode 0600 that is set after
  it, and an error of setting it, are not modelled.
\<close>

definition keygen :: "ext \<Rightarrow> (string \<Rightarrow> string option) \<Rightarrow> string + bytes \<Rightarrow> string \<Rightarrow> bool \<Rightarrow> disk \<Rightarrow> (error + unit) \<times> disk" where
  "keygen x refuses entropy p force d =
     (if disk_exists d p \<and> \<not> force
      then (Inl (ETrust (p @ '' already exists; refusing to overwrite a signing key (pass --force if you mean it)'')), d)
      else case entropy of
        Inl e \<Rightarrow> (Inl (ETrust (''secure randomness unavailable: '' @ e)), d)
      | Inr seed \<Rightarrow> disk_write refuses p (pretty x 0 (key_file_json (keypair_save x \<lparr> kp_seed = seed \<rparr>))) d)"

definition signed_text :: "ext \<Rightarrow> limits \<Rightarrow> string \<Rightarrow> string \<Rightarrow> disk \<Rightarrow> error + bytes" where
  "signed_text x lim key_path file d =
     and_then (load_keypair x d key_path) (\<lambda>kp.
     and_then (map_err (\<lambda>e. ENotFound (''cannot read '' @ file @ '': '' @ io_message e)) (d file)) (\<lambda>b.
     and_then (manifest_from_slice (x_events x) lim b) (\<lambda>mf.
       if \<not> is_valid (validate x mf) then Inl (EValidation (file @ '' is invalid; fix it before signing''))
       else and_then (sign_manifest x (mf_raw mf) kp) (\<lambda>v. Inr (pretty x 0 v @ [LF])))))"

definition sign_cmd :: "ext \<Rightarrow> limits \<Rightarrow> (string \<Rightarrow> string option) \<Rightarrow> string \<Rightarrow> string \<Rightarrow> disk \<Rightarrow> (error + unit) \<times> disk" where
  "sign_cmd x lim refuses key_path file d =
     (case signed_text x lim key_path file d of
        Inl e \<Rightarrow> (Inl e, d)
      | Inr text \<Rightarrow> disk_write refuses file text d)"

definition verify_cmd :: "app \<Rightarrow> disk \<Rightarrow> fs \<Rightarrow> string \<Rightarrow> (fault + int) \<times> fs" where
  "verify_cmd a d cache target =
     (case fetch_root_of a d cache target of
        (Inl e, cache1) \<Rightarrow> (Inl e, cache1)
      | (Inr (mf, orig, ws, m), cache1) \<Rightarrow>
          (Inr (case verify_manifest (rv_ext (ap_resolver a)) (mf_raw mf) of Inl _ \<Rightarrow> 1 | Inr None \<Rightarrow> 2 | Inr (Some _) \<Rightarrow> 0), cache1))"

section \<open>Reading commands\<close>

definition validate_cmd :: "app \<Rightarrow> disk \<Rightarrow> fs \<Rightarrow> string \<Rightarrow> (fault + int) \<times> fs" where
  "validate_cmd a d cache target =
     (case fetch_root_of a d cache target of
        (Inl e, cache1) \<Rightarrow> (Inl e, cache1)
      | (Inr (mf, orig, ws, m), cache1) \<Rightarrow>
          (Inr (if is_valid (validate (rv_ext (ap_resolver a)) mf) then 0 else 2), cache1))"

definition trust_line :: "resolver \<Rightarrow> manifest \<Rightarrow> origin \<Rightarrow> murl option \<Rightarrow> string" where
  "trust_line v mf orig om =
     (case verify_manifest (rv_ext v) (mf_raw mf) of
        Inl e \<Rightarrow> ''INVALID SIGNATURE '' @ em_dash @ '' '' @ error_display e
      | Inr None \<Rightarrow> if is_remote orig then ''UNSIGNED (remote)'' else ''LOCAL (unsigned)''
      | Inr (Some sg) \<Rightarrow>
          if is_remote orig
          then (let auth = (case om of Some m \<Rightarrow> authority_display (mu_authority m) | None \<Rightarrow> []) in
                if is_trusted (rv_trust_store v) auth (vs_key_id sg)
                then ''TRUSTED '' @ em_dash @ '' signed with pinned key '' @ vs_key_id sg
                else ''SIGNED '' @ em_dash @ '' key '' @ vs_key_id sg @ '' is not pinned for `'' @ auth @ ''`'')
          else ''LOCAL (signed, key '' @ vs_key_id sg @ '')'')"

definition inspect_cmd :: "app \<Rightarrow> disk \<Rightarrow> fs \<Rightarrow> string \<Rightarrow> (fault + string) \<times> fs" where
  "inspect_cmd a d cache target =
     (case fetch_root_of a d cache target of
        (Inl e, cache1) \<Rightarrow> (Inl e, cache1)
      | (Inr (mf, orig, ws, om), cache1) \<Rightarrow> (Inr (trust_line (ap_resolver a) mf orig om), cache1))"

definition resolve_cmd :: "cli \<Rightarrow> disk \<Rightarrow> fs \<Rightarrow> string \<Rightarrow> (fault + resolution) \<times> fs" where
  "resolve_cmd c d cache target =
     (case resolve_target (cli_app c) d cache target of
        (Inl e, cache1) \<Rightarrow> (Inl e, cache1)
      | (Inr r0, cache1) \<Rightarrow> (case apply_policy (cl_policy c) r0 of None \<Rightarrow> (Inl Panic, cache1) | Some r \<Rightarrow> (Inr r, cache1)))"

section \<open>Pinned keys\<close>

definition json_member :: "json \<Rightarrow> string \<Rightarrow> json option" where
  "json_member v k = (case v of JObj m \<Rightarrow> map_of m k | _ \<Rightarrow> None)"

text \<open>The argument is a public key, or the path of a file that carries one.\<close>

definition extract_key :: "ext \<Rightarrow> disk \<Rightarrow> string \<Rightarrow> error + string" where
  "extract_key x d key =
     (if \<not> disk_exists d key then Inr key
      else
        and_then (map_err (\<lambda>e. EIo (io_message e)) (d key)) (\<lambda>b.
        and_then (map_err (\<lambda>e. ETrust (key @ '' is not JSON: '' @ e)) (x_events x b)) (\<lambda>r.
          let v = value_of r in
          case (case json_member v ''publicKey'' of
                  Some k \<Rightarrow> Some k
                | None \<Rightarrow> (case json_member v ''signature'' of Some s \<Rightarrow> json_member s ''publicKey'' | None \<Rightarrow> None)) of
            Some (JStr k) \<Rightarrow> Inr k
          | _ \<Rightarrow> Inl (ETrust (key @ '' contains no `publicKey` (expected a key file or a signed manifest)'')))))"

definition trust_add_cmd ::
  "ext \<Rightarrow> (string \<Rightarrow> trust_doc \<Rightarrow> error + unit) \<Rightarrow> disk \<Rightarrow> string \<Rightarrow> string \<Rightarrow> nat \<Rightarrow> trust_store \<Rightarrow> (error + string) \<times> trust_store"
where
  "trust_add_cmd x write d auth key now st =
     (case extract_key x d key of Inl e \<Rightarrow> (Inl e, st) | Inr public_key \<Rightarrow> trust_add x write auth public_key now st)"

definition trust_remove_cmd ::
  "(string \<Rightarrow> trust_doc \<Rightarrow> error + unit) \<Rightarrow> string \<Rightarrow> string \<Rightarrow> trust_store \<Rightarrow> (error + unit) \<times> trust_store"
where
  "trust_remove_cmd write auth key_id st =
     (case trust_remove write auth key_id st of
        (Inl e, st') \<Rightarrow> (Inl e, st')
      | (Inr removed, st') \<Rightarrow>
          (if removed then Inr () else Inl (ENotFound (''no pinned key '' @ key_id @ '' for `'' @ auth @ ''`'')), st'))"

section \<open>The cache\<close>

definition cache_evict_cmd :: "ext \<Rightarrow> path \<Rightarrow> string \<Rightarrow> fs \<Rightarrow> (error + unit) \<times> fs" where
  "cache_evict_cmd x root u f =
     (case murl_parse u of
        Inl e \<Rightarrow> (Inl (EParse e), f)
      | Inr m \<Rightarrow>
          (case cache_evict x root (identity m) f of
             (Inl e, g) \<Rightarrow> (Inl e, g)
           | (Inr evicted, g) \<Rightarrow> (if evicted then Inr () else Inl (ENotFound (identity m @ '' is not cached'')), g)))"

section \<open>A signed manifest stays valid\<close>

lemma keypair_save_load:
  assumes "ext_laws x" "length seed = 32"
  shows "keypair_load x (keypair_save x \<lparr> kp_seed = seed \<rparr>) = Inr \<lparr> kp_seed = seed \<rparr>"
  using assms by (simp add: keypair_load_def keypair_save_def ext_laws_def)

lemma key_file_read: "de_key_file (as_raw (key_file_json f)) = Inr f"
  by (simp add: de_key_file_def key_file_json_def raw_fields_def raw_required_def raw_string_def)

lemma lower_hex_valid: "d < 16 \<Longrightarrow> is_hexdigit (lower_hex d) \<and> \<not> is_upper (lower_hex d)"
  by (auto simp: lower_hex_def is_hexdigit_def is_digit_def is_upper_def in_range_def)

lemma sha256_hex_shape:
  assumes "ext_laws x"
  shows "length (sha256_hex x b) = 64 \<and> list_all (\<lambda>c. is_hexdigit c \<and> \<not> is_upper c) (sha256_hex x b)"
proof -
  have "length (concat (map (\<lambda>c. [lower_hex (byte c div 16), lower_hex (byte c mod 16)]) s)) = 2 * length s" for s
    by (induction s) simp_all
  moreover have "byte c div 16 < 16" for c using byte_less_256 [of c] by (simp add: less_mult_imp_div_less)
  then have "list_all (\<lambda>c. is_hexdigit c \<and> \<not> is_upper c) (concat (map (\<lambda>c. [lower_hex (byte c div 16), lower_hex (byte c mod 16)]) s))" for s
    by (induction s) (simp_all add: lower_hex_valid)
  ultimately show ?thesis using assms by (simp add: sha256_hex_def ext_laws_def)
qed

lemma key_id_valid:
  assumes "ext_laws x"
  shows "valid_key_id (key_id_for x pk)"
proof -
  have "list_all P (take n s)" if "list_all P s" for P n and s :: string
    using that by (meson in_set_takeD list_all_iff)
  then show ?thesis using sha256_hex_shape [OF assms, of pk] by (simp add: valid_key_id_def key_id_for_def)
qed

definition signature_of :: "ext \<Rightarrow> keypair \<Rightarrow> bytes \<Rightarrow> signature_block" where
  "signature_of x kp sig = \<lparr> sg_alg = ''ed25519'', sg_key_id = keypair_key_id x kp, sg_public_key = public_key_b64 x kp,
     sg_sig = x_b64_encode x sig \<rparr>"

lemma signature_value_read:
  "de_signature (signature_value x kp sig) = Inr (signature_of x kp sig)"
  "wf_json (signature_value x kp sig)" "integral (signature_value x kp sig)" "signature_value x kp sig \<noteq> JNull"
proof -
  have "wf_map [(''alg'', a), (''keyId'', b), (''publicKey'', c), (''sig'', e)]" for a b c e :: json
    unfolding wf_map_def list.map fst_conv by code_simp
  then show "wf_json (signature_value x kp sig)" by (simp add: signature_value_def)
qed (simp_all add: signature_value_def de_signature_def fields_of_def required_def de_string_def signature_of_def)

lemma signature_of_wf:
  assumes "ext_laws x"
  shows "wf_signature x (signature_of x kp (keypair_sign x kp b))"
  using assms key_id_valid [OF assms]
  by (simp add: wf_signature_def signature_of_def decodes_to_length_def public_key_b64_def keypair_key_id_def keypair_sign_def ext_laws_def)

lemma read_other:
  "k \<noteq> j \<Longrightarrow> required rd (f(k \<mapsto> v)) j = required rd f j"
  "k \<noteq> j \<Longrightarrow> optional rd (f(k \<mapsto> v)) j = optional rd f j"
  "k \<noteq> j \<Longrightarrow> defaulted dv rd (f(k \<mapsto> v)) j = defaulted dv rd f j"
  by (simp_all add: required_def optional_def defaulted_def)

lemma signed_doc:
  assumes "de_manifest (JObj m) = Inr doc" "map_of m' = (map_of m)(''signature'' \<mapsto> v)" "de_signature v = Inr sg" "v \<noteq> JNull"
  shows "de_manifest (JObj m') = Inr (doc\<lparr> md_signature := Some sg \<rparr>)"
proof -
  have o: "optional de_signature ((map_of m)(''signature'' \<mapsto> v)) ''signature'' = Inr (Some sg)"
    using assms(3,4) by (cases v) (simp_all add: optional_def)
  show ?thesis
    using assms(1) unfolding de_manifest_def fields_of_def json.case assms(2) and_then.simps o
    by (auto simp: read_other)
qed

lemma signed_valid:
  assumes "ext_laws x" "wf_manifest x mf" "mf_raw mf = JObj m" "wf_json (JObj m)" "de_manifest (JObj m) = Inr (mf_doc mf)"
    and "sign_manifest x (JObj m) kp = Inr out"
  shows "\<exists>m' doc. out = JObj m' \<and> wf_json out \<and> integral out \<and> de_manifest out = Inr doc
    \<and> wf_manifest x \<lparr> mf_raw = out, mf_doc = doc \<rparr>"
proof -
  obtain b where b: "out = JObj (obj_insert ''signature'' (signature_value x kp (keypair_sign x kp b)) m)"
    using assms(6) by (auto simp: sign_manifest_def)
  let ?v = "signature_value x kp (keypair_sign x kp b)"
  let ?m = "obj_insert ''signature'' ?v m"
  have wf: "wf_map m" using assms(4) by simp
  note s = obj_insert_spec [OF wf, of "''signature''" ?v]
  note v = signature_value_read [of x kp "keypair_sign x kp b"]
  have "wf_json (JObj ?m)" using s v(2) assms(4) by auto
  moreover have int: "integral (JObj m)" using assms(2,3) by (simp add: wf_manifest_def del: integral.simps)
  then have "integral (JObj ?m)" using s v(3) by auto
  moreover have "de_manifest (JObj ?m) = Inr ((mf_doc mf)\<lparr> md_signature := Some (signature_of x kp (keypair_sign x kp b)) \<rparr>)"
    using signed_doc [OF assms(5) _ v(1,4)] s by blast
  moreover have "wf_doc x ((mf_doc mf)\<lparr> md_signature := Some (signature_of x kp (keypair_sign x kp b)) \<rparr>)"
    using assms(2) signature_of_wf [OF assms(1)] by (simp add: wf_manifest_def wf_doc_def)
  ultimately show ?thesis unfolding b by (simp add: wf_manifest_def del: integral.simps wf_json.simps)
qed

lemma keygen_then_load:
  assumes "ext_laws x" "length seed = 32" "keygen x refuses (Inr seed) p force d = (Inr (), d')"
    and "x_events x (pretty x 0 (key_file_json (keypair_save x \<lparr> kp_seed = seed \<rparr>)))
      = Inr (as_raw (key_file_json (keypair_save x \<lparr> kp_seed = seed \<rparr>)))"
  shows "load_keypair x d' p = Inr \<lparr> kp_seed = seed \<rparr>"
proof -
  have "d' p = Inr (pretty x 0 (key_file_json (keypair_save x \<lparr> kp_seed = seed \<rparr>)))"
    using assms(3) by (auto simp: keygen_def disk_write_def split: if_splits option.splits)
  then show ?thesis
    using assms(4) keypair_save_load [OF assms(1,2)] by (simp add: load_keypair_def key_file_read del: as_raw.simps)
qed

lemma keygen_no_overwrite: "disk_exists d p \<Longrightarrow> snd (keygen x refuses entropy p False d) = d"
  by (simp add: keygen_def)

lemma manifest_written:
  assumes "wf_json out" "integral out" "de_manifest out = Inr doc" "out = JObj m" "x_events x b = Inr (as_raw out)"
    and "length b \<le> max_manifest_bytes lim"
  shows "manifest_from_slice (x_events x) lim b = Inr \<lparr> mf_raw = out, mf_doc = doc \<rparr>"
  using assms visit_written [OF assms(1,2)]
  by (simp add: manifest_from_slice_def from_slice_strict_def del: as_raw.simps integral.simps wf_json.simps)

lemma fetch_root_file:
  assumes "murl_prefixed p = Inr False" "d p = Inr b"
    and "manifest_from_slice (x_events (rv_ext (ap_resolver a))) (rv_limits (ap_resolver a)) b = Inr mf"
  shows "fetch_root_of a d cache p = (Inr (mf, LocalFile p, [], None), cache)"
  using assms by (simp add: fetch_root_of_def parse_target_def cannot_read_def)

lemma sign_cmd_writes:
  assumes "sign_cmd x lim refuses key p d = (Inr (), d')" "load_keypair x d key = Inr kp" "d p = Inr b"
    and "manifest_from_slice (x_events x) lim b = Inr mf" "sign_manifest x (mf_raw mf) kp = Inr out"
  shows "wf_manifest x mf \<and> d' = d(p := Inr (pretty x 0 out @ [LF]))"
proof -
  have v: "is_valid (validate x mf)"
    using assms by (simp add: sign_cmd_def signed_text_def split: if_splits)
  then have "signed_text x lim key p d = Inr (pretty x 0 out @ [LF])"
    using assms by (simp add: signed_text_def)
  then show ?thesis
    using assms(1) wf_of_valid [OF v] by (auto simp: sign_cmd_def disk_write_def split: option.splits)
qed

text \<open>
  C38: signing a file. When \<open>murl sign\<close> succeeds on a manifest file, it changed no other
  file, and of the file it wrote \<open>murl verify\<close> says it is signed (exit code 0),
  \<open>murl validate\<close> says it is valid, and \<open>murl inspect\<close> names the key that signed. The JSON
  parser is only assumed to read back the text that was written, within the size cap.
\<close>

theorem sign_then_verify_files:
  assumes "ext_laws (rv_ext (ap_resolver a))" "murl_prefixed p = Inr False"
    and "load_keypair (rv_ext (ap_resolver a)) d key = Inr kp" "d p = Inr b"
    and "manifest_from_slice (x_events (rv_ext (ap_resolver a))) (rv_limits (ap_resolver a)) b = Inr mf"
    and "sign_manifest (rv_ext (ap_resolver a)) (mf_raw mf) kp = Inr out"
    and "x_events (rv_ext (ap_resolver a)) (pretty (rv_ext (ap_resolver a)) 0 out @ [LF]) = Inr (as_raw out)"
    and "length (pretty (rv_ext (ap_resolver a)) 0 out @ [LF]) \<le> max_manifest_bytes (rv_limits (ap_resolver a))"
    and "sign_cmd (rv_ext (ap_resolver a)) (rv_limits (ap_resolver a)) refuses key p d = (Inr (), d')"
  shows "verify_cmd a d' cache p = (Inr 0, cache) \<and> validate_cmd a d' cache p = (Inr 0, cache)
    \<and> inspect_cmd a d' cache p = (Inr (''LOCAL (signed, key '' @ keypair_key_id (rv_ext (ap_resolver a)) kp @ '')''), cache)
    \<and> (\<forall>q. q \<noteq> p \<longrightarrow> d' q = d q)"
proof -
  define x where "x = rv_ext (ap_resolver a)"
  note a = assms [folded x_def]
  obtain m where m: "mf_raw mf = JObj m" "wf_json (JObj m)" "de_manifest (mf_raw mf) = Inr (mf_doc mf)"
    using manifest_from_slice_ok [OF a(5)] by blast
  have d': "wf_manifest x mf" "d' = d(p := Inr (pretty x 0 out @ [LF]))"
    using sign_cmd_writes [OF a(9) a(3,4,5,6)] by simp_all
  obtain m' doc where o: "out = JObj m'" "wf_json out" "integral out" "de_manifest out = Inr doc"
    "wf_manifest x \<lparr> mf_raw = out, mf_doc = doc \<rparr>"
    using signed_valid [OF a(1) d'(1) m(1,2)] m a(6) by metis
  have f: "fetch_root_of a d' cache p = (Inr (\<lparr> mf_raw = out, mf_doc = doc \<rparr>, LocalFile p, [], None), cache)"
    using fetch_root_file [of p d' _ a, OF a(2)] manifest_written [OF o(2,3,4,1) a(7,8)] unfolding d'(2) x_def by simp
  have v: "verify_manifest x out = Inr (Some \<lparr> vs_key_id = keypair_key_id x kp, vs_public_key_b64 = public_key_b64 x kp \<rparr>)"
    using signed_verifies [OF a(1) m(2)] a(6) m(1) by simp
  show ?thesis
    using f v o(5) d'(2) unfolding x_def
    by (simp add: verify_cmd_def validate_cmd_def inspect_cmd_def trust_line_def is_valid_def validate_errors)
qed

definition sign_kp :: keypair where
  "sign_kp = \<lparr> kp_seed = replicate 32 CHR ''k'' \<rparr>"

definition signed_sample :: json where
  "signed_sample = projr (sign_manifest toy_ext (mf_raw (sample_manifest ''root'')) sign_kp)"

definition sign_ext :: ext where
  "sign_ext = toy_ext\<lparr> x_events := (\<lambda>b.
     if b = ''key'' then Inr (as_raw (key_file_json (keypair_save toy_ext sign_kp)))
     else if b = ''root'' then sample_events b
     else Inr (as_raw signed_sample)) \<rparr>"

definition sign_app :: app where
  "sign_app = \<lparr> ap_resolver = sample_resolver\<lparr> rv_ext := sign_ext \<rparr>, ap_offline = False, ap_refresh = False \<rparr>"

definition sign_disk :: disk where
  "sign_disk p = (if p = ''k.json'' then Inr ''key'' else if p = ''m.json'' then Inr ''root'' else Inl IoNotFound)"

lemma sign_ext_laws: "ext_laws sign_ext"
  using toy_ext_laws by (simp add: ext_laws_def sign_ext_def)

lemma sign_sample_key: "load_keypair sign_ext sign_disk ''k.json'' = Inr sign_kp"
proof -
  have e: "x_events sign_ext ''key'' = Inr (as_raw (key_file_json (keypair_save sign_ext sign_kp)))"
    by (simp add: sign_ext_def keypair_save_def keypair_key_id_def public_key_b64_def key_id_for_def sha256_hex_def)
  show ?thesis
    using keypair_save_load [OF sign_ext_laws, of "replicate 32 CHR ''k''"]
    by (simp add: load_keypair_def sign_disk_def e key_file_read sign_kp_def)
qed

lemma sign_sample_manifest:
  "manifest_from_slice (x_events sign_ext) default_limits ''root'' = Inr (sample_manifest ''root'')"
  "is_valid (validate sign_ext (sample_manifest ''root''))"
proof -
  have e: "x_events sign_ext ''root'' = sample_events ''root''" by (simp add: sign_ext_def)
  show "manifest_from_slice (x_events sign_ext) default_limits ''root'' = Inr (sample_manifest ''root'')"
    using sample_checked(1) unfolding manifest_from_slice_def from_slice_strict_def by (simp only: e)
  show "is_valid (validate sign_ext (sample_manifest ''root''))" by code_simp
qed

lemma sign_sample_out:
  "sign_manifest sign_ext (mf_raw (sample_manifest ''root'')) sign_kp = Inr signed_sample"
  "length (pretty sign_ext 0 signed_sample @ [LF]) \<le> max_manifest_bytes default_limits"
proof -
  have "is_ok (sign_manifest toy_ext (mf_raw (sample_manifest ''root'')) sign_kp)" by code_simp
  moreover have e: "canonical_error_display sign_ext = canonical_error_display toy_ext"
  proof
    show "canonical_error_display sign_ext e = canonical_error_display toy_ext e" for e
      by (cases e) (simp add: canonical_error_display_def sign_ext_def)
  qed
  have g: "signature_value sign_ext kp b = signature_value toy_ext kp b" "keypair_sign sign_ext kp = keypair_sign toy_ext kp" for kp b
    by (simp_all add: signature_value_def keypair_key_id_def public_key_b64_def key_id_for_def sha256_hex_def keypair_sign_def sign_ext_def fun_eq_iff)
  have "sign_manifest sign_ext r kp = sign_manifest toy_ext r kp" for r kp
    unfolding sign_manifest_def signable_bytes_def e g ..
  ultimately show "sign_manifest sign_ext (mf_raw (sample_manifest ''root'')) sign_kp = Inr signed_sample"
    by (auto simp: signed_sample_def is_ok_iff)
  show "length (pretty sign_ext 0 signed_sample @ [LF]) \<le> max_manifest_bytes default_limits" by code_simp
qed

theorem sign_then_verify_files_witness:
  "\<exists>d'. sign_cmd sign_ext default_limits (\<lambda>_. None) ''k.json'' ''m.json'' sign_disk = (Inr (), d')
     \<and> verify_cmd sign_app d' [] ''m.json'' = (Inr 0, []) \<and> validate_cmd sign_app d' [] ''m.json'' = (Inr 0, [])
     \<and> d' ''k.json'' = Inr ''key''"
proof -
  have r: "rv_ext (ap_resolver sign_app) = sign_ext" "rv_limits (ap_resolver sign_app) = default_limits"
    by (simp_all add: sign_app_def sample_resolver_def)
  have m: "sign_disk ''m.json'' = Inr ''root''" "murl_prefixed ''m.json'' = Inr False"
    by (simp add: sign_disk_def, code_simp)
  have "signed_text sign_ext default_limits ''k.json'' ''m.json'' sign_disk = Inr (pretty sign_ext 0 signed_sample @ [LF])"
    by (simp only: signed_text_def sign_sample_key and_then.simps m(1) map_err.simps sign_sample_manifest sign_sample_out(1) if_False not_True_eq_False)
  then obtain d' where s: "sign_cmd sign_ext default_limits (\<lambda>_. None) ''k.json'' ''m.json'' sign_disk = (Inr (), d')"
    by (simp add: sign_cmd_def disk_write_def)
  have "x_events sign_ext (s @ [LF]) = Inr (as_raw signed_sample)" for s
    by (simp add: sign_ext_def LF_def)
  then have e: "x_events sign_ext (pretty sign_ext 0 signed_sample @ [LF]) = Inr (as_raw signed_sample)" .
  have "sign_disk ''k.json'' = Inr ''key''" by (simp add: sign_disk_def)
  then show ?thesis
    using sign_then_verify_files [of sign_app "''m.json''" sign_disk "''k.json''" sign_kp "''root''" "sample_manifest ''root''"
        signed_sample "\<lambda>_. None" d' "[]", unfolded r, OF sign_ext_laws m(2) sign_sample_key m(1) sign_sample_manifest(1) sign_sample_out(1) e sign_sample_out(2) s] s
    by simp
qed

end
