(* ===== verification/Create.thy ===== *)
theory Create
  imports Commands
begin

text \<open>
  \<open>murl create\<close>, \<open>murl-cli/src/commands/create.rs\<close>: a starter manifest from a template, or
  from the answers typed at the terminal. The input is the list of lines still to be
  read; behind its end every read gives the empty line. What is printed is left out.
\<close>

section \<open>Names, kinds and ids\<close>

text \<open>The bytes of a character outside ASCII are not alphanumeric, as the character is not.\<close>

fun slugify_loop :: "bool \<Rightarrow> string \<Rightarrow> string" where
  "slugify_loop last_dash [] = []"
| "slugify_loop last_dash (c # s) =
     (if is_alnum c then lower_char c # slugify_loop False s
      else if \<not> last_dash then CHR ''-'' # slugify_loop True s
      else slugify_loop last_dash s)"

definition slugify :: "string \<Rightarrow> string" where
  "slugify name =
     (let out = trim_end_matches (\<lambda>c. c = CHR ''-'') (slugify_loop True name) in
      if out = [] then ''destination'' else out)"

definition guess_kind :: "string \<Rightarrow> string" where
  "guess_kind target =
     (if starts_with ''https://'' target \<or> starts_with ''http://'' target then ''https''
      else if starts_with ''murl:'' target then ''murl''
      else if ends_with ''/'' target \<or> CHR ''.'' \<notin> set (last_component target) then ''dir''
      else ''file'')"

definition default_id_for :: "string \<Rightarrow> nat \<Rightarrow> string" where
  "default_id_for target index =
     (let body = (case after_scheme target of Some rest \<Rightarrow> rest | None \<Rightarrow> target);
          last = last_component (trim_end_matches (\<lambda>c. c = CHR ''/'') body);
          slug = slugify (takeWhile (\<lambda>c. c \<noteq> CHR ''.'') last)
      in if slug = [] \<or> slug = ''destination'' then ''resource-'' @ dec_of_nat (index + 1) else slug)"

section \<open>The document\<close>

record draft =
  dr_id :: string
  dr_kind :: string
  dr_target :: string
  dr_order :: int
  dr_label :: string
  dr_role :: string

definition nonempty_member :: "string \<Rightarrow> string \<Rightarrow> (string \<times> json) list" where
  "nonempty_member key s = (if s = [] then [] else [(key, JStr s)])"

definition draft_json :: "draft \<Rightarrow> json" where
  "draft_json r = json_obj
     ([(''id'', JStr (dr_id r)), (''kind'', JStr (dr_kind r)), (''target'', JStr (dr_target r)), (''order'', JNum (NInt (dr_order r)))]
      @ nonempty_member ''label'' (dr_label r) @ nonempty_member ''role'' (dr_role r))"

definition destination_json :: "string \<Rightarrow> string \<Rightarrow> string \<Rightarrow> draft list \<Rightarrow> json" where
  "destination_json slug name description rs = json_obj
     ([(''murlVersion'', JStr ''0.2''), (''id'', JStr (''murl://local/'' @ slug)), (''name'', JStr name),
       (''resources'', JArr (map draft_json rs))]
      @ nonempty_member ''description'' description)"

definition template_resources :: "string \<Rightarrow> draft list" where
  "template_resources slug =
     [\<lparr> dr_id = ''docs'', dr_kind = ''https'', dr_target = ''https://example.com/docs'', dr_order = 10,
        dr_label = ''Documentation'', dr_role = ''docs'' \<rparr>,
      \<lparr> dr_id = ''workspace'', dr_kind = ''dir'', dr_target = ''~/projects/'' @ slug, dr_order = 20,
        dr_label = ''Local workspace'', dr_role = ''workspace'' \<rparr>]"

definition template_description :: "string \<Rightarrow> string" where
  "template_description name = name @ '' '' @ em_dash @ '' everything this destination is made of.''"

definition template :: "string \<Rightarrow> json" where
  "template name =
     (let slug = slugify name in destination_json slug name (template_description name) (template_resources slug))"

section \<open>Asking\<close>

text \<open>A line that is not UTF-8 reads as an empty one.\<close>

fun ask :: "bytes list \<Rightarrow> string \<times> bytes list" where
  "ask [] = ([], [])"
| "ask (l # ls) = (if utf8_decode l = None then [] else trim l, ls)"

definition or_default :: "string \<Rightarrow> string \<Rightarrow> string" where
  "or_default d entered = (if entered = [] then d else entered)"

text \<open>Both loops ask until the answer will do. \<open>None\<close>: the input has ended and the default will
  not do, so the question is repeated for ever.\<close>

fun ask_until :: "(string \<Rightarrow> bool) \<Rightarrow> string \<Rightarrow> bytes list \<Rightarrow> (string \<times> bytes list) option" where
  "ask_until ok d [] = (if ok d then Some (d, []) else None)"
| "ask_until ok d (l # ls) =
     (let candidate = or_default d (fst (ask (l # ls))) in
      if ok candidate then Some (candidate, ls) else ask_until ok d ls)"

definition ask_kind :: "string \<Rightarrow> bytes list \<Rightarrow> (string \<times> bytes list) option" where
  "ask_kind target = ask_until (\<lambda>k. is_ok (kind_parse k)) (guess_kind target)"

definition ask_id :: "string \<Rightarrow> string list \<Rightarrow> bytes list \<Rightarrow> (string \<times> bytes list) option" where
  "ask_id target used = ask_until (\<lambda>i. is_valid_resource_id i \<and> i \<notin> set used) (default_id_for target (length used))"

lemma ask_until_length: "ask_until ok d ls = Some (v, rest) \<Longrightarrow> length rest \<le> length ls"
  by (induction ok d ls rule: ask_until.induct) (auto simp: Let_def split: if_splits)

lemma ask_length: "length (snd (ask ls)) \<le> length ls" "fst (ask ls) \<noteq> [] \<Longrightarrow> length (snd (ask ls)) < length ls"
  by (cases ls; simp)+

text \<open>One resource: its target is not empty. Then the list of them, until the empty target. The order,
  an \<open>i32\<close> in the code, stays in range for fewer than 200 million lines.\<close>

definition ask_resource :: "string list \<Rightarrow> int \<Rightarrow> string \<Rightarrow> bytes list \<Rightarrow> (draft \<times> bytes list) option" where
  "ask_resource used order target ls =
     (case ask_kind target ls of
        None \<Rightarrow> None
      | Some (kind, ls2) \<Rightarrow>
          (case ask_id target used ls2 of
             None \<Rightarrow> None
           | Some (i, ls3) \<Rightarrow>
               (let (label, ls4) = ask ls3; (role, ls5) = ask ls4 in
                Some (\<lparr> dr_id = i, dr_kind = kind, dr_target = target, dr_order = order, dr_label = label, dr_role = role \<rparr>, ls5))))"

lemma ask_resource_length:
  assumes "ask_resource used order target ls = Some (r, rest)"
  shows "length rest \<le> length ls"
proof -
  obtain kind ls2 i ls3 where a: "ask_kind target ls = Some (kind, ls2)" "ask_id target used ls2 = Some (i, ls3)"
    "rest = snd (ask (snd (ask ls3)))"
    using assms by (auto simp: ask_resource_def split: option.splits prod.splits)
  then have "length ls2 \<le> length ls" "length ls3 \<le> length ls2"
    using ask_until_length by (auto simp: ask_kind_def ask_id_def)
  then show ?thesis using a(3) ask_length(1) [of ls3] ask_length(1) [of "snd (ask ls3)"] by simp
qed

function ask_resources :: "draft list \<Rightarrow> int \<Rightarrow> bytes list \<Rightarrow> (draft list \<times> bytes list) option" where
  "ask_resources acc order ls =
     (let target = fst (ask ls) in
      if target = [] then Some (acc, snd (ask ls))
      else case ask_resource (map dr_id acc) order target (snd (ask ls)) of
        None \<Rightarrow> None
      | Some (r, rest) \<Rightarrow> ask_resources (acc @ [r]) (order + 10) rest)"
  by pat_completeness auto
termination
  by (relation "measure (\<lambda>(_, _, ls). length ls)")
     (auto dest!: ask_resource_length ask_length(2))

declare ask_resources.simps [simp del]

definition build_interactively :: "string option \<Rightarrow> bytes list \<Rightarrow> (error + json \<times> string) option" where
  "build_interactively name_arg ls =
     (let (name, ls1) = (case name_arg of Some n \<Rightarrow> (n, ls) | None \<Rightarrow> (or_default ''My Project'' (fst (ask ls)), snd (ask ls)));
          slug = slugify name;
          (description, ls2) = ask ls1
      in case ask_resources [] 10 ls2 of
        None \<Rightarrow> None
      | Some (rs, _) \<Rightarrow>
          Some (if rs = [] then Inl (EValidation ''a destination needs at least one resource'')
                else Inr (destination_json slug name description rs, slug)))"

section \<open>The command\<close>

record create_args =
  cr_name :: "string option"
  cr_output :: "string option"
  cr_force :: bool
  cr_interactive :: bool

text \<open>\<open>None\<close>: the command never returns.\<close>

definition create_document :: "bool \<Rightarrow> bytes list \<Rightarrow> create_args \<Rightarrow> (error + json \<times> string) option" where
  "create_document terminal input a =
     (if cr_interactive a
      then if \<not> terminal then Some (Inl (EValidation ''--interactive needs a terminal; drop the flag to use the template''))
           else build_interactively (cr_name a) input
      else let name = (case cr_name a of Some n \<Rightarrow> n | None \<Rightarrow> ''My Project'') in
           Some (Inr (template name, slugify name)))"

definition checked_bytes :: "ext \<Rightarrow> limits \<Rightarrow> json \<Rightarrow> error + bytes" where
  "checked_bytes x lim doc =
     and_then (manifest_from_slice (x_events x) lim (pretty x 0 doc)) (\<lambda>mf.
       if is_valid (validate x mf) then Inr (pretty x 0 doc)
       else Inl (EValidation ''the generated manifest is invalid; please report this as a bug''))"

definition create_write ::
  "(string \<Rightarrow> string option) \<Rightarrow> create_args \<Rightarrow> string \<Rightarrow> bytes \<Rightarrow> disk \<Rightarrow> (error + exported) \<times> disk" where
  "create_write refuses a slug bytes d =
     (if cr_output a = Some ''-'' then (Inr (ToStdout (bytes @ [LF])), d)
      else (let path = (case cr_output a of Some p \<Rightarrow> p | None \<Rightarrow> slug @ ''.murl.json'') in
           if disk_exists d path \<and> \<not> cr_force a
           then (Inl (EValidation (path @ '' already exists (pass --force to overwrite)'')), d)
           else case disk_write refuses path (bytes @ [LF]) d of
             (Inl e, d') \<Rightarrow> (Inl e, d')
           | (Inr _, d') \<Rightarrow> (Inr (ToFile path (bytes @ [LF])), d')))"

definition create_run ::
  "ext \<Rightarrow> limits \<Rightarrow> (string \<Rightarrow> string option) \<Rightarrow> bool \<Rightarrow> bytes list \<Rightarrow> create_args \<Rightarrow> disk \<Rightarrow> ((error + exported) \<times> disk) option"
where
  "create_run x lim refuses terminal input a d =
     map_option
       (\<lambda>made. case and_then made (\<lambda>(doc, slug). and_then (checked_bytes x lim doc) (\<lambda>b. Inr (b, slug))) of
          Inl e \<Rightarrow> (Inl e, d)
        | Inr (b, slug) \<Rightarrow> create_write refuses a slug b d)
       (create_document terminal input a)"

section \<open>What the document reads as\<close>

definition some_text :: "string \<Rightarrow> string option" where
  "some_text s = (if s = [] then None else Some s)"

definition doc_of_draft :: "draft \<Rightarrow> resource_doc" where
  "doc_of_draft r = \<lparr> rd_id = dr_id r, rd_kind = dr_kind r, rd_target = dr_target r, rd_label = some_text (dr_label r),
     rd_role = some_text (dr_role r), rd_required = False, rd_order = dr_order r, rd_depends_on = [], rd_tags = [],
     rd_integrity = None, rd_meta = None \<rparr>"

definition destination_doc :: "string \<Rightarrow> string \<Rightarrow> string \<Rightarrow> draft list \<Rightarrow> manifest_doc" where
  "destination_doc slug name description rs = \<lparr> md_murl_version = ''0.2'', md_id = Some (''murl://local/'' @ slug), md_name = name,
     md_description = some_text description, md_version = None, md_not_before = None, md_expires = None,
     md_resources = map doc_of_draft rs, md_relations = [], md_signature = None \<rparr>"

lemma nonempty_member_of:
  "map_of (rev (nonempty_member key s)) = (\<lambda>k. if k = key then map_option JStr (some_text s) else None)"
  "kv \<in> set (nonempty_member key s) \<Longrightarrow> snd kv = JStr s"
  by (auto simp: nonempty_member_def some_text_def split: if_splits)

lemma map_of_rev_append: "map_of (rev (a @ b)) k = (case map_of (rev b) k of Some v \<Rightarrow> Some v | None \<Rightarrow> map_of (rev a) k)"
  by (simp add: map_add_def)

definition order_fits :: "draft \<Rightarrow> bool" where
  "order_fits r \<longleftrightarrow> - (2 ^ 63) \<le> dr_order r \<and> dr_order r < 2 ^ 63"

lemma draft_json_read:
  assumes "order_fits r"
  shows "de_resource (draft_json r) = Inr (doc_of_draft r) \<and> wf_json (draft_json r) \<and> integral (draft_json r)"
proof -
  define base where "base = [(''id'', JStr (dr_id r)), (''kind'', JStr (dr_kind r)), (''target'', JStr (dr_target r)),
      (''order'', JNum (NInt (dr_order r)))]"
  define kvs where "kvs = base @ nonempty_member ''label'' (dr_label r) @ nonempty_member ''role'' (dr_role r)"
  obtain m where m: "json_obj kvs = JObj m" "wf_map m" "map_of m = map_of (rev kvs)" "set m \<subseteq> set kvs"
    using json_obj_spec by blast
  have j: "draft_json r = JObj m" using m(1) by (simp add: draft_json_def kvs_def base_def)
  have f: "map_of m = (\<lambda>k. if k = ''id'' then Some (JStr (dr_id r)) else if k = ''kind'' then Some (JStr (dr_kind r))
      else if k = ''target'' then Some (JStr (dr_target r)) else if k = ''order'' then Some (JNum (NInt (dr_order r)))
      else if k = ''label'' then map_option JStr (some_text (dr_label r))
      else if k = ''role'' then map_option JStr (some_text (dr_role r)) else None)"
    unfolding m(3) kvs_def map_of_rev_append nonempty_member_of base_def
    by (rule ext) (cases "some_text (dr_label r)"; cases "some_text (dr_role r)"; simp)
  have "de_resource (JObj m) = Inr (doc_of_draft r)"
    using assms by (cases "some_text (dr_label r)"; cases "some_text (dr_role r)")
      (simp_all add: de_resource_def read_struct f doc_of_draft_def de_i64_def order_fits_def)
  moreover have "wf_json (snd kv) \<and> integral (snd kv)" if "kv \<in> set kvs" for kv
    using that assms by (auto simp: kvs_def base_def order_fits_def dest: nonempty_member_of(2))
  then have "\<forall>kv\<in>set m. wf_json (snd kv) \<and> integral (snd kv)" using m(4) by blast
  ultimately show ?thesis using m(2) by (simp add: j)
qed

lemma destination_read:
  assumes "list_all order_fits rs"
  shows "\<exists>m. destination_json slug name description rs = JObj m \<and> wf_json (JObj m) \<and> integral (JObj m)
    \<and> de_manifest (JObj m) = Inr (destination_doc slug name description rs)"
proof -
  define base where "base = [(''murlVersion'', JStr ''0.2''), (''id'', JStr (''murl://local/'' @ slug)), (''name'', JStr name),
      (''resources'', JArr (map draft_json rs))]"
  define kvs where "kvs = base @ nonempty_member ''description'' description"
  obtain m where m: "json_obj kvs = JObj m" "wf_map m" "map_of m = map_of (rev kvs)" "set m \<subseteq> set kvs"
    using json_obj_spec by blast
  have j: "destination_json slug name description rs = JObj m" using m(1) by (simp add: destination_json_def kvs_def base_def)
  have f: "map_of m = (\<lambda>k. if k = ''murlVersion'' then Some (JStr ''0.2'') else if k = ''id'' then Some (JStr (''murl://local/'' @ slug))
      else if k = ''name'' then Some (JStr name) else if k = ''resources'' then Some (JArr (map draft_json rs))
      else if k = ''description'' then map_option JStr (some_text description) else None)"
    unfolding m(3) kvs_def map_of_rev_append nonempty_member_of base_def
    by (rule ext) (cases "some_text description"; simp)
  have rs: "\<forall>r\<in>set rs. de_resource (draft_json r) = Inr (doc_of_draft r) \<and> wf_json (draft_json r) \<and> integral (draft_json r)"
    using assms draft_json_read by (auto simp: list_all_iff)
  then have "traverse de_resource (map draft_json rs) = Inr (map doc_of_draft rs)"
    by (induction rs) simp_all
  then have "de_manifest (JObj m) = Inr (destination_doc slug name description rs)"
    by (cases "some_text description") (simp_all add: de_manifest_def read_struct de_vec_def f destination_doc_def)
  moreover have "wf_json (snd kv) \<and> integral (snd kv)" if "kv \<in> set kvs" for kv
    using that rs by (auto simp: kvs_def base_def dest: nonempty_member_of(2))
  then have "\<forall>kv\<in>set m. wf_json (snd kv) \<and> integral (snd kv)" using m(4) by blast
  ultimately show ?thesis using m(2) by (simp add: j)
qed

section \<open>Slugs\<close>

lemma lower_char_slug: "is_alnum c \<Longrightarrow> lower_or_digit (lower_char c)"
proof -
  have "is_lower (lower_char c)" if "is_alpha c"
    using that by (cases "is_upper c") (auto simp: is_alpha_def is_upper_def is_lower_def in_range_def byte_lower_char lower_char_id)
  moreover have "is_digit c \<Longrightarrow> lower_char c = c"
    by (rule lower_char_id) (auto simp: is_digit_def is_upper_def in_range_def)
  ultimately show "is_alnum c \<Longrightarrow> ?thesis" by (auto simp: is_alnum_def lower_or_digit_def)
qed

lemma slugify_loop_chars:
  "list_all slug_char (slugify_loop b s) \<and> (b \<and> slugify_loop b s \<noteq> [] \<longrightarrow> lower_or_digit (hd (slugify_loop b s)))"
  by (induction b s rule: slugify_loop.induct) (auto simp: slug_char_def lower_char_slug)

lemma slugify_ok: "slugify name \<noteq> [] \<and> list_all slug_char (slugify name) \<and> lower_or_digit (hd (slugify name))"
proof -
  define t where "t = trim_end_matches (\<lambda>c. c = CHR ''-'') (slugify_loop True name)"
  have word: "list_all slug_char ''destination''" "lower_or_digit (hd ''destination'')" by code_simp+
  obtain junk where j: "slugify_loop True name = t @ junk"
    unfolding t_def trim_end_matches_def by (metis rev_append rev_rev_ident takeWhile_dropWhile_id)
  have "list_all slug_char t \<and> (t \<noteq> [] \<longrightarrow> lower_or_digit (hd t))"
    using slugify_loop_chars [of True name] unfolding j by (cases t) simp_all
  then show ?thesis using word unfolding slugify_def Let_def t_def [symmetric] by simp
qed

lemma slugify_valid: "is_valid_resource_id (slugify name) \<longleftrightarrow> length (slugify name) \<le> 64"
proof -
  obtain c s where cs: "slugify name = c # s" using slugify_ok by (cases "slugify name") auto
  have "lower_or_digit c" "list_all (\<lambda>b. lower_or_digit b \<or> b = CHR ''-'' \<or> b = CHR ''_'') s"
    using slugify_ok [of name] by (auto simp: cs slug_char_def list_all_iff)
  then show ?thesis by (auto simp: cs is_valid_resource_id_Cons)
qed

lemma slug_too_long:
  assumes "murl_parse (''murl://local/'' @ s) = Inr m" "list_all slug_char s" "s \<noteq> []"
  shows "length s \<le> 64"
proof (rule murl_parse_parts [OF assms(1)])
  fix rest0 rest1 rest frag auth path
  assume p: "strip_scheme (''murl://local/'' @ s) = Some rest0"
    "cut_at CHR ''#'' rest0 = (rest1, frag)" "cut_at CHR ''?'' rest1 = (rest, mu_query m)"
    "split_once CHR ''/'' rest = Some (auth, path)" "parse_path path = Inr (mu_name m, mu_version m)"
  have no: "c \<notin> set s" if "\<not> slug_char c" for c using that assms(2) by (auto simp: list_all_iff)
  have plain: "CHR ''#'' \<notin> set s" "CHR ''?'' \<notin> set s" "CHR ''/'' \<notin> set s" "CHR ''@'' \<notin> set s"
    by (rule no, code_simp)+
  have "eq_ignore_ascii_case ''murl://'' ''murl://''" by code_simp
  then have "rest0 = ''local/'' @ s" using p(1) by (simp add: strip_scheme_def)
  moreover from this have "rest1 = rest0" using p(2) plain by (simp add: cut_at_absent)
  ultimately have "rest = ''local/'' @ s" using p(3) plain by (simp add: cut_at_absent)
  then have "path = s" using p(4) split_once_append [of "CHR ''/''" "''local''" s] by simp
  then have "is_ok (decode_segment s)"
    using p(5) plain assms(3) by (auto simp: parse_path_def split_on_absent split: if_splits)
  moreover have "list_all unreserved s" using assms(2) slug_char_plain by (auto simp: list_all_iff)
  then have "percent_decode s = Inr s" using percent_decode_encode [of s s] by (simp add: percent_decode_def encode_segment_unreserved)
  ultimately show "length s \<le> 64" by (auto simp: is_ok_iff decode_segment_iff MAX_SEGMENT_BYTES_def)
qed

lemma slug_identity:
  "(\<exists>m. murl_parse (''murl://local/'' @ slugify name) = Inr m \<and> mu_selector m = None \<and> mu_query m = None)
   \<longleftrightarrow> length (slugify name) \<le> 64"
proof
  assume "\<exists>m. murl_parse (''murl://local/'' @ slugify name) = Inr m \<and> mu_selector m = None \<and> mu_query m = None"
  then obtain m where "murl_parse (''murl://local/'' @ slugify name) = Inr m" by blast
  then show "length (slugify name) \<le> 64" by (rule slug_too_long) (use slugify_ok in simp_all)
next
  assume "length (slugify name) \<le> 64"
  then show "\<exists>m. murl_parse (''murl://local/'' @ slugify name) = Inr m \<and> mu_selector m = None \<and> mu_query m = None"
    using slug_parses slugify_valid slugify_ok by blast
qed

section \<open>When the document is valid\<close>

definition legal_draft :: "draft \<Rightarrow> bool" where
  "legal_draft r \<longleftrightarrow> is_valid_resource_id (dr_id r) \<and> wf_target (doc_of_draft r) \<and> opt_all wf_label (some_text (dr_label r))
     \<and> opt_all is_valid_role (some_text (dr_role r)) \<and> 0 \<le> dr_order r \<and> dr_order r \<le> 10000"

definition legal_text :: "nat \<Rightarrow> string \<Rightarrow> bool" where
  "legal_text n s \<longleftrightarrow> length (utf8_chars s) \<le> n \<and> \<not> has_control s"

lemma destination_wf:
  "wf_doc x (destination_doc (slugify name) name description rs) \<longleftrightarrow>
     name \<noteq> [] \<and> legal_text MAX_NAME_LEN name \<and> legal_text MAX_DESCRIPTION_LEN description \<and> length (slugify name) \<le> 64
     \<and> rs \<noteq> [] \<and> length rs \<le> 64 \<and> distinct (map dr_id rs) \<and> list_all legal_draft rs"
proof -
  have ids: "map rd_id (map doc_of_draft rs) = map dr_id rs" by (simp add: doc_of_draft_def)
  have "dep_edges (map doc_of_draft rs) = {}" by (rule no_dependencies) (auto simp: doc_of_draft_def)
  moreover have "wf_resource all (doc_of_draft r) \<longleftrightarrow> legal_draft r" for all r
    by (auto simp: wf_resource_def legal_draft_def doc_of_draft_def MAX_TAGS_def MAX_DEPENDS_def)
  ultimately have r: "wf_resources (map doc_of_draft rs) \<longleftrightarrow> rs \<noteq> [] \<and> length rs \<le> 64 \<and> distinct (map dr_id rs) \<and> list_all legal_draft rs"
    unfolding wf_resources_def ids by (auto simp: MAX_RESOURCES_PER_MANIFEST_def list_all_iff acyclic_def)
  have e: "opt_all (\<lambda>t. length (utf8_chars t) \<le> MAX_DESCRIPTION_LEN \<and> \<not> has_control t) (some_text description)
      \<longleftrightarrow> legal_text MAX_DESCRIPTION_LEN description"
    by (simp add: some_text_def legal_text_def utf8_chars_def has_control_def)
  show ?thesis
    unfolding wf_doc_def destination_doc_def manifest_doc.simps e r opt_all.simps slug_identity
    by (auto simp: wf_window_def wf_relations_def ACCEPTED_MURL_VERSIONS_def MAX_RELATIONS_def legal_text_def)
qed

lemma checked_bytes_iff:
  assumes "list_all order_fits rs" "doc = destination_json (slugify name) name description rs"
    and "x_events x (pretty x 0 doc) = Inr (as_raw doc)" "length (pretty x 0 doc) \<le> max_manifest_bytes lim"
  shows "checked_bytes x lim doc =
    (if wf_doc x (destination_doc (slugify name) name description rs) then Inr (pretty x 0 doc)
     else Inl (EValidation ''the generated manifest is invalid; please report this as a bug''))"
proof -
  obtain m where m: "doc = JObj m" "wf_json doc" "integral doc" "de_manifest doc = Inr (destination_doc (slugify name) name description rs)"
    using destination_read [OF assms(1)] unfolding assms(2) by metis
  then have "manifest_from_slice (x_events x) lim (pretty x 0 doc)
      = Inr \<lparr> mf_raw = doc, mf_doc = destination_doc (slugify name) name description rs \<rparr>"
    using manifest_written assms(3,4) by blast
  then show ?thesis using m(3) by (simp add: checked_bytes_def is_valid_def validate_errors wf_manifest_def)
qed

section \<open>The template\<close>

lemma utf8_decode_append: "utf8_decode s = Some cs \<Longrightarrow> utf8_decode t = Some ds \<Longrightarrow> utf8_decode (s @ t) = Some (cs @ ds)"
proof (induction s arbitrary: cs rule: utf8_decode.induct)
  case (2 a s)
  then show ?case by (auto simp: utf8_decode.simps(2) split: if_splits list.splits)
qed simp

definition template_tail :: string where
  "template_tail = '' '' @ em_dash @ '' everything this destination is made of.''"

lemma template_tail_chars:
  "\<exists>ds. utf8_decode template_tail = Some ds \<and> length ds \<le> 60 \<and> \<not> list_ex is_control ds"
proof -
  have "case utf8_decode template_tail of Some ds \<Rightarrow> length ds \<le> 60 \<and> \<not> list_ex is_control ds | None \<Rightarrow> False" by code_simp
  then show ?thesis by (cases "utf8_decode template_tail") simp_all
qed

lemma template_description_legal:
  assumes "utf8_decode name \<noteq> None" "legal_text MAX_NAME_LEN name"
  shows "legal_text MAX_DESCRIPTION_LEN (template_description name)"
proof -
  obtain cs ds where c: "utf8_decode name = Some cs" "utf8_decode template_tail = Some ds" "length ds \<le> 60" "\<not> list_ex is_control ds"
    using assms(1) template_tail_chars by blast
  have "template_description name = name @ template_tail" by (simp add: template_description_def template_tail_def)
  then have "utf8_decode (template_description name) = Some (cs @ ds)" using utf8_decode_append [OF c(1,2)] by simp
  then show ?thesis
    using assms(2) c by (simp add: legal_text_def utf8_chars_def has_control_def MAX_NAME_LEN_def MAX_DESCRIPTION_LEN_def)
qed

lemma split_by_plain: "(\<And>c. c \<in> set s \<Longrightarrow> \<not> P c) \<Longrightarrow> split_by P s = [s]"
  by (induction s) auto

lemma workspace_target:
  assumes "list_all slug_char s" "s \<noteq> []" "length s \<le> 64"
  shows "validate_path_target (''~/projects/'' @ s) = Inr ()" "\<not> has_control (''~/projects/'' @ s)"
proof -
  have no: "c \<notin> set s" if "\<not> slug_char c" for c using that assms(1) by (auto simp: list_all_iff)
  have plain: "CHR ''/'' \<notin> set s" "CHR 0x5C \<notin> set s" "CHR '':'' \<notin> set s" "CHR ''.'' \<notin> set s"
    by (rule no, code_simp)+
  have sep: "\<not> is_separator c" if "c \<in> set s" for c using that plain by (auto simp: is_separator_def)
  have parts: "split_by is_separator (''projects/'' @ s) = [''projects'', s]"
    using split_by_plain [of s is_separator] sep by (simp add: is_separator_def)
  have drive: "\<not> starts_with_drive s" using plain by (cases s rule: remdups_adj.cases) (auto simp: starts_with_drive_def)
  have last: "strip_last_separator (''projects/'' @ s) = ''projects/'' @ s"
    using assms(2) sep by (simp add: strip_last_separator_def)
  have dots: "s \<noteq> ''..''" "s \<noteq> ''.''" using plain by auto
  have "check_home_segments (''~/projects/'' @ s) = Inr ()"
    using parts last drive assms(2) by (simp add: check_home_segments_def starts_with_drive_def)
  moreover have "path_body (''~/projects/'' @ s) = Inr (''projects/'' @ s)" by (simp add: path_body_def)
  moreover have "\<not> is_network_path (''~/projects/'' @ s)" by (simp add: is_network_path_def is_separator_def)
  ultimately show "validate_path_target (''~/projects/'' @ s) = Inr ()"
    using parts dots unfolding validate_path_target_def by simp
  have "list_all (\<lambda>c. byte c < 0x80 \<and> \<not> is_control (byte c)) ''~/projects/''" by code_simp
  moreover have "\<forall>c\<in>set s. byte c < 0x80 \<and> \<not> is_control (byte c)"
    using assms(1) slug_char_plain by (auto simp: list_all_iff plain_cp_def)
  ultimately have "list_all (\<lambda>c. byte c < 0x80 \<and> \<not> is_control (byte c)) (''~/projects/'' @ s)"
    unfolding list_all_append by (simp only: list_all_iff)
  then show "\<not> has_control (''~/projects/'' @ s)"
    using utf8_ascii [of "''~/projects/'' @ s"] by (simp add: has_control_def utf8_chars_def list_all_iff list_ex_iff)
qed

definition presentable_name :: "string \<Rightarrow> bool" where
  "presentable_name name \<longleftrightarrow> name \<noteq> [] \<and> legal_text MAX_NAME_LEN name \<and> length (slugify name) \<le> 64"

lemma template_legal:
  assumes "length (slugify name) \<le> 64"
  shows "list_all legal_draft (template_resources (slugify name)) \<and> list_all order_fits (template_resources (slugify name))
    \<and> distinct (map dr_id (template_resources (slugify name)))"
proof -
  have docs: "validate_target Https ''https://example.com/docs'' = Inr () \<and> \<not> has_control ''https://example.com/docs''" by code_simp
  have kinds: "kind_parse ''https'' = Inr Https" "kind_parse ''dir'' = Inr Dir" by code_simp+
  have words: "is_valid_resource_id ''docs'' \<and> is_valid_resource_id ''workspace'' \<and> is_valid_role ''docs'' \<and> is_valid_role ''workspace''
      \<and> wf_label ''Documentation'' \<and> wf_label ''Local workspace''" by code_simp
  have w: "validate_path_target (''~/projects/'' @ slugify name) = Inr ()" "\<not> has_control (''~/projects/'' @ slugify name)"
    using workspace_target [of "slugify name"] slugify_ok [of name] assms by simp_all
  show ?thesis
    using docs words w assms kinds
    by (simp add: template_resources_def legal_draft_def wf_target_def doc_of_draft_def some_text_def order_fits_def MAX_TARGET_LEN_def)
qed

lemma template_wf:
  assumes "utf8_decode name \<noteq> None"
  shows "wf_doc x (destination_doc (slugify name) name (template_description name) (template_resources (slugify name)))
    \<longleftrightarrow> presentable_name name"
  using template_description_legal [OF assms] template_legal [of name]
  by (auto simp: destination_wf presentable_name_def) (simp_all add: template_resources_def)

section \<open>The answers\<close>

definition answers_ok :: "draft list \<Rightarrow> bool" where
  "answers_ok rs \<longleftrightarrow> distinct (map dr_id rs) \<and> map dr_order rs = map (\<lambda>i. 10 * (int i + 1)) [0..<length rs]
     \<and> (\<forall>r\<in>set rs. is_valid_resource_id (dr_id r) \<and> is_ok (kind_parse (dr_kind r)) \<and> dr_target r \<noteq> [])"

lemma ask_until_ok: "ask_until ok d ls = Some (v, rest) \<Longrightarrow> ok v"
  by (induction ok d ls rule: ask_until.induct) (auto simp: Let_def split: if_splits)

lemma ask_until_None: "ask_until ok d ls = None \<Longrightarrow> \<not> ok d"
  by (induction ok d ls rule: ask_until.induct) (auto simp: Let_def split: if_splits)

lemma ask_resource_ok:
  assumes "ask_resource used order target ls = Some (r, rest)"
  shows "is_valid_resource_id (dr_id r) \<and> dr_id r \<notin> set used \<and> is_ok (kind_parse (dr_kind r)) \<and> dr_target r = target \<and> dr_order r = order"
proof -
  obtain kind ls2 i ls3 where a: "ask_kind target ls = Some (kind, ls2)" "ask_id target used ls2 = Some (i, ls3)"
    "dr_id r = i" "dr_kind r = kind" "dr_target r = target" "dr_order r = order"
    using assms by (auto simp: ask_resource_def split: option.splits prod.splits)
  then show ?thesis
    using ask_until_ok [OF a(1) [unfolded ask_kind_def]] ask_until_ok [OF a(2) [unfolded ask_id_def]] by simp
qed

lemma answers_ok_snoc:
  assumes "answers_ok rs" "is_valid_resource_id (dr_id r) \<and> dr_id r \<notin> set (map dr_id rs) \<and> is_ok (kind_parse (dr_kind r))
      \<and> dr_target r \<noteq> [] \<and> dr_order r = 10 * (int (length rs) + 1)"
  shows "answers_ok (rs @ [r])"
  using assms by (auto simp: answers_ok_def)

lemma ask_resources_answered:
  "ask_resources acc order ls = Some (rs, rest) \<Longrightarrow> answers_ok acc \<Longrightarrow> order = 10 * (int (length acc) + 1) \<Longrightarrow>
   answers_ok rs \<and> length rs \<le> length acc + length ls"
proof (induction acc order ls arbitrary: rs rest rule: ask_resources.induct)
  case (1 acc order ls)
  let ?t = "fst (ask ls)"
  show ?case
  proof (cases "?t = []")
    case True
    then show ?thesis using 1(2-) by (subst (asm) ask_resources.simps) simp
  next
    case False
    then obtain r ls2 where r: "ask_resource (map dr_id acc) order ?t (snd (ask ls)) = Some (r, ls2)"
      "ask_resources (acc @ [r]) (order + 10) ls2 = Some (rs, rest)"
      using 1(2) by (subst (asm) ask_resources.simps) (auto simp: Let_def split: option.splits)
    have "answers_ok (acc @ [r])" using answers_ok_snoc [OF 1(3)] ask_resource_ok [OF r(1)] 1(4) False by simp
    moreover have "length ls2 < length ls" using ask_resource_length [OF r(1)] ask_length(2) [OF False] by simp
    ultimately show ?thesis using 1(1) [OF refl False r(1) refl r(2)] 1(4) by simp
  qed
qed

lemma ask_resources_None:
  "ask_resources acc order ls = None \<Longrightarrow> \<exists>target used. target \<noteq> []
     \<and> \<not> (is_valid_resource_id (default_id_for target (length used)) \<and> default_id_for target (length used) \<notin> set used)"
proof (induction acc order ls rule: ask_resources.induct)
  case (1 acc order ls)
  let ?t = "fst (ask ls)"
  have t: "?t \<noteq> []" using 1(2) by (subst (asm) ask_resources.simps) (auto simp: Let_def)
  show ?case
  proof (cases "ask_resource (map dr_id acc) order ?t (snd (ask ls))")
    case None
    have "is_ok (kind_parse (guess_kind ?t))"
    proof -
      have "is_ok (kind_parse ''https'') \<and> is_ok (kind_parse ''murl'') \<and> is_ok (kind_parse ''dir'') \<and> is_ok (kind_parse ''file'')" by code_simp
      then show ?thesis by (simp add: guess_kind_def)
    qed
    then obtain ls2 where "ask_id ?t (map dr_id acc) ls2 = None"
      using None ask_until_None [of _ "guess_kind ?t"] by (auto simp: ask_resource_def ask_kind_def Let_def split: option.splits prod.splits)
    then show ?thesis using t ask_until_None unfolding ask_id_def by blast
  next
    case (Some p)
    obtain r ls2 where p: "p = (r, ls2)" by fastforce
    have "ask_resources (acc @ [r]) (order + 10) ls2 = None"
      using 1(2) t Some p by (subst (asm) ask_resources.simps) (simp add: Let_def)
    then show ?thesis using 1(1) [OF refl t Some p [symmetric]] by blast
  qed
qed

section \<open>Properties\<close>

text \<open>
  \<open>murl create\<close> from the template. For a name in UTF-8 the command writes the template
  (or refuses to overwrite a file) exactly when the name is a legal manifest name whose
  slug has at most 64 letters; nothing the template adds is ever the reason for an
  error. Otherwise it fails and changes no file. The JSON parser is only assumed to
  read the text that was written, within the cap.
\<close>

lemma create_from_template:
  assumes "utf8_decode name \<noteq> None" "\<not> cr_interactive a" "cr_name a = Some name"
    and "x_events x (pretty x 0 (template name)) = Inr (as_raw (template name))"
    and "length (pretty x 0 (template name)) \<le> max_manifest_bytes lim"
  shows "create_run x lim refuses terminal input a d = Some
    (if presentable_name name then create_write refuses a (slugify name) (pretty x 0 (template name)) d
     else (Inl (EValidation ''the generated manifest is invalid; please report this as a bug''), d))"
proof -
  have "list_all order_fits (template_resources (slugify name))"
    by (simp add: template_resources_def order_fits_def)
  note c = checked_bytes_iff [OF this _ assms(4,5), unfolded template_def Let_def, OF refl, folded template_def [unfolded Let_def]]
  show ?thesis
    using assms(2,3) c template_wf [OF assms(1)] by (simp add: create_run_def create_document_def)
qed

text \<open>
  \<open>murl create --interactive\<close>. When the questions come to an end with resources, the
  document has the answers: at least one resource, with ids that are valid and distinct,
  known kinds, targets that are not empty, in the order typed. Whether it is then written
  depends only on what is not checked while it is typed: the name, the description, the
  number of resources, and each target, label and role.
\<close>

lemma interactive_answers:
  assumes "build_interactively name_arg ls = Some (Inr (doc, slug))" "length ls \<le> 200000000"
    and "x_events x (pretty x 0 doc) = Inr (as_raw doc)" "length (pretty x 0 doc) \<le> max_manifest_bytes lim"
  shows "\<exists>name description rs. slug = slugify name \<and> doc = destination_json slug name description rs \<and> rs \<noteq> [] \<and> answers_ok rs
    \<and> (is_ok (checked_bytes x lim doc) \<longleftrightarrow>
         name \<noteq> [] \<and> legal_text MAX_NAME_LEN name \<and> legal_text MAX_DESCRIPTION_LEN description \<and> length slug \<le> 64 \<and> length rs \<le> 64
         \<and> (\<forall>r\<in>set rs. wf_target (doc_of_draft r) \<and> opt_all wf_label (some_text (dr_label r)) \<and> opt_all is_valid_role (some_text (dr_role r))))"
proof -
  obtain name ls1 where n: "(case name_arg of Some n \<Rightarrow> (n, ls) | None \<Rightarrow> (or_default ''My Project'' (fst (ask ls)), snd (ask ls))) = (name, ls1)"
    by fastforce
  obtain description ls2 where d: "ask ls1 = (description, ls2)" by fastforce
  obtain rs rest where r: "ask_resources [] 10 ls2 = Some (rs, rest)" "rs \<noteq> []" "slug = slugify name"
    "doc = destination_json (slugify name) name description rs"
    using assms(1) unfolding build_interactively_def n by (auto simp: Let_def d split: option.splits if_splits)
  have "length ls1 \<le> length ls" using n ask_length(1) [of ls] by (cases name_arg) auto
  then have "length ls2 \<le> 200000000" using ask_length(1) [of ls1] d assms(2) by simp
  moreover have "answers_ok []" by (simp add: answers_ok_def)
  ultimately have a: "answers_ok rs" "length rs \<le> 200000000" using ask_resources_answered [OF r(1)] by simp_all
  have order: "0 \<le> dr_order x \<and> dr_order x \<le> 10 * int (length rs)" if "x \<in> set rs" for x
  proof -
    have "dr_order x \<in> set (map (\<lambda>i. 10 * (int i + 1)) [0..<length rs])" using that a(1) unfolding answers_ok_def by (metis image_eqI set_map)
    then show ?thesis by auto
  qed
  then have "list_all order_fits rs" using a(2) by (fastforce simp: list_all_iff order_fits_def)
  note c = checked_bytes_iff [OF this r(4) assms(3,4)]
  have "length rs \<le> 64 \<Longrightarrow> list_all legal_draft rs \<longleftrightarrow> (\<forall>r\<in>set rs. wf_target (doc_of_draft r) \<and> opt_all wf_label (some_text (dr_label r))
      \<and> opt_all is_valid_role (some_text (dr_role r)))"
    using a(1) order by (fastforce simp: list_all_iff legal_draft_def answers_ok_def)
  then have "is_ok (checked_bytes x lim doc) \<longleftrightarrow>
      name \<noteq> [] \<and> legal_text MAX_NAME_LEN name \<and> legal_text MAX_DESCRIPTION_LEN description \<and> length slug \<le> 64 \<and> length rs \<le> 64
      \<and> (\<forall>r\<in>set rs. wf_target (doc_of_draft r) \<and> opt_all wf_label (some_text (dr_label r)) \<and> opt_all is_valid_role (some_text (dr_role r)))"
    using a(1) r(2,3) unfolding c destination_wf by (auto simp: is_ok_iff answers_ok_def)
  then show ?thesis using r a(1) by blast
qed

text \<open>A parser for which every text is the document at hand.\<close>

definition create_ext :: "json \<Rightarrow> ext" where
  "create_ext doc = toy_ext\<lparr> x_events := (\<lambda>_. Inr (as_raw doc)) \<rparr>"

lemma create_ext_reads: "x_events (create_ext doc) b = Inr (as_raw doc)"
  by (simp add: create_ext_def)

definition sample_args :: create_args where
  "sample_args = \<lparr> cr_name = Some ''Project X'', cr_output = None, cr_force = False, cr_interactive = False \<rparr>"

lemma create_from_template_witness:
  "\<exists>out. create_run (create_ext (template ''Project X'')) default_limits (\<lambda>_. None) False [] sample_args (\<lambda>_. Inl IoNotFound) = Some out
     \<and> is_ok (fst out) \<and> is_ok (snd out ''project-x.murl.json'')"
proof -
  have u: "utf8_decode ''Project X'' \<noteq> None" by code_simp
  have p: "presentable_name ''Project X''" "slugify ''Project X'' = ''project-x''" by code_simp+
  have l: "length (pretty (create_ext (template ''Project X'')) 0 (template ''Project X'')) \<le> max_manifest_bytes default_limits" by code_simp
  have a: "\<not> cr_interactive sample_args" "cr_name sample_args = Some ''Project X''" "cr_output sample_args = None" "\<not> cr_force sample_args"
    by (simp_all add: sample_args_def)
  show ?thesis
    using create_from_template [OF u a(1,2) create_ext_reads l, of "\<lambda>_. None" False "[]" "\<lambda>_. Inl IoNotFound"] p a(3,4)
    by (simp add: create_write_def disk_exists_def disk_write_def Let_def)
qed

definition typed :: "bytes list" where
  "typed = [''All of X'', ''https://example.com/'', [], [], ''Site'', []]"

lemma interactive_answers_witness:
  "\<exists>doc slug name description rs. build_interactively (Some ''X'') typed = Some (Inr (doc, slug))
     \<and> doc = destination_json slug name description rs \<and> rs \<noteq> [] \<and> answers_ok rs
     \<and> is_ok (checked_bytes (create_ext doc) default_limits doc) \<and> (\<forall>r\<in>set rs. wf_target (doc_of_draft r))"
proof -
  define rs where "rs = [\<lparr> dr_id = ''example'', dr_kind = ''https'', dr_target = ''https://example.com/'', dr_order = 10,
     dr_label = ''Site'', dr_role = [] \<rparr>]"
  define doc where "doc = destination_json ''x'' ''X'' ''All of X'' rs"
  have b: "build_interactively (Some ''X'') typed = Some (Inr (doc, ''x''))" unfolding doc_def rs_def by code_simp
  have l: "length (pretty (create_ext doc) 0 doc) \<le> max_manifest_bytes default_limits" unfolding doc_def rs_def by code_simp
  have n: "length typed \<le> 200000000" by (simp add: typed_def)
  have x: "slugify ''X'' = ''x''" "legal_text MAX_NAME_LEN ''X''" "legal_text MAX_DESCRIPTION_LEN ''All of X''" by code_simp+
  have "kind_parse ''https'' = Inr Https" "validate_target Https ''https://example.com/'' = Inr () \<and> \<not> has_control ''https://example.com/''"
    "is_valid_resource_id ''example''" "wf_label ''Site''" by code_simp+
  then have "list_all legal_draft rs"
    by (simp add: rs_def legal_draft_def wf_target_def doc_of_draft_def some_text_def MAX_TARGET_LEN_def)
  then have "wf_doc (create_ext doc) (destination_doc (slugify ''X'') ''X'' ''All of X'' rs)"
    by (intro iffD2 [OF destination_wf] conjI x) (simp_all add: x rs_def)
  moreover have "list_all order_fits rs" by (simp add: rs_def order_fits_def)
  ultimately have c: "is_ok (checked_bytes (create_ext doc) default_limits doc)"
    using checked_bytes_iff [OF _ _ create_ext_reads l, of rs "''X''" "''All of X''"] unfolding x by (simp add: doc_def)
  obtain name description as where r: "doc = destination_json ''x'' name description as" "as \<noteq> []" "answers_ok as" "\<forall>r\<in>set as. wf_target (doc_of_draft r)"
    using interactive_answers [OF b n create_ext_reads l] c by (elim exE conjE) simp
  show ?thesis by (rule exI [of _ doc], rule exI [of _ "''x''"], rule exI [of _ name], rule exI [of _ description], rule exI [of _ as])
      (intro conjI b r c)
qed

text \<open>What the answers are not checked for. A target that its kind does not allow, and a name whose
  slug is too long, are reported only when all is typed, as a bug of the program.\<close>

lemma answers_not_checked:
  "build_interactively (Some ''X'') [[], ''ftp://x.example/'', ''https'', ''x'', [], ''Not a role!''] =
     Some (Inr (destination_json ''x'' ''X'' [] [\<lparr> dr_id = ''x'', dr_kind = ''https'', dr_target = ''ftp://x.example/'', dr_order = 10,
       dr_label = [], dr_role = ''Not a role!'' \<rparr>], ''x''))
   \<and> validate_target Https ''ftp://x.example/'' \<noteq> Inr () \<and> \<not> is_valid_role ''Not a role!''"
  by code_simp

lemma long_name_refused:
  "length (replicate 65 CHR ''a'') \<le> MAX_NAME_LEN \<and> \<not> presentable_name (replicate 65 CHR ''a'')"
proof -
  have "length (slugify (replicate 65 CHR ''a'')) = 65" by code_simp
  then show ?thesis by (simp add: presentable_name_def MAX_NAME_LEN_def)
qed

text \<open>The input ends while an id is asked for whose default is taken: the question is asked for ever.\<close>

lemma asks_for_ever:
  "build_interactively (Some ''X'') [[], ''/a/notes'', [], [], [], [], ''/b/notes''] = None"
  by code_simp

lemma only_ids_hang:
  assumes "build_interactively name_arg ls = None"
  shows "\<exists>target used. target \<noteq> []
     \<and> \<not> (is_valid_resource_id (default_id_for target (length used)) \<and> default_id_for target (length used) \<notin> set used)"
  using assms ask_resources_None unfolding build_interactively_def
  by (auto simp: Let_def split: option.splits prod.splits)

end
