(* ===== verification/Install.thy ===== *)
theory Install
  imports Commands
begin

text \<open>
  Registration with the system: the scheme handler, \<open>murl-cli/src/commands/os_cmd.rs\<close>, the
  service unit, \<open>murl-daemon/src/service.rs\<close>, and the search for handler programs,
  \<open>commands/detect.rs\<close>. What a command does outside the process is a list of effects, each
  of which the system may refuse; the status commands, which only print, are left out.
\<close>

section \<open>Effects\<close>

datatype os_effect =
    MakeDir string
  | WriteFile string bytes
  | RemoveFile string
  | RunProgram string "string list"

type_synonym 'a os_io = "os_effect list \<Rightarrow> (error + 'a) \<times> os_effect list"

definition attempt :: "(os_effect \<Rightarrow> error option) \<Rightarrow> os_effect \<Rightarrow> unit os_io" where
  "attempt fails e log = (case fails e of Some err \<Rightarrow> Inl err | None \<Rightarrow> Inr (), log @ [e])"

definition bind_io :: "'a os_io \<Rightarrow> ('a \<Rightarrow> 'b os_io) \<Rightarrow> 'b os_io" where
  "bind_io m f log = (case m log of (Inl e, log') \<Rightarrow> (Inl e, log') | (Inr a, log') \<Rightarrow> f a log')"

definition lift_io :: "error + 'a \<Rightarrow> 'a os_io" where
  "lift_io r log = (r, log)"

text \<open>A step whose failure is ignored.\<close>

definition try_io :: "unit os_io \<Rightarrow> unit os_io" where
  "try_io m log = (Inr (), snd (m log))"

fun all_io :: "unit os_io list \<Rightarrow> unit os_io" where
  "all_io [] log = (Inr (), log)"
| "all_io (m # ms) log = bind_io m (\<lambda>_. all_io ms) log"

definition dquoted :: "string \<Rightarrow> string" where
  "dquoted s = CHR 0x22 # s @ [CHR 0x22]"

definition file_lines :: "string list \<Rightarrow> string" where
  "file_lines ls = concat (map (\<lambda>l. l @ [LF]) ls)"

section \<open>The scheme handler\<close>

definition DESKTOP_FILE :: string where
  "DESKTOP_FILE = ''murl-handler.desktop''"

definition REG_KEY :: string where
  "REG_KEY = ''HKCU'' @ [CHR 0x5C] @ ''Software'' @ [CHR 0x5C] @ ''Classes'' @ [CHR 0x5C] @ ''murl''"

definition applications_dir :: "platform \<Rightarrow> environment \<Rightarrow> error + string" where
  "applications_dir pf env =
     and_then (ok_or (EDispatch ''cannot determine XDG data directory'')
       (case set_env env ''XDG_DATA_HOME'' of
          Some base \<Rightarrow> Some base
        | None \<Rightarrow> map_option (\<lambda>h. path_push h ''.local/share'') (home_dir pf env)))
     (\<lambda>base. Inr (path_push base ''applications''))"

definition desktop_lines :: "string \<Rightarrow> string list" where
  "desktop_lines exe =
     [''[Desktop Entry]'', ''Type=Application'', ''Name=mURL Resolver'',
      ''Comment=Resolve and open mURL multi-resource identifiers'',
      ''Exec='' @ dquoted exe @ '' open-url %u'',
      ''Terminal=true'', ''NoDisplay=true'', ''MimeType=x-scheme-handler/murl;'']"

definition desktop_entry :: "bytes \<Rightarrow> error + string" where
  "desktop_entry exe =
     (if utf8_decode exe = None
      then Inl (EDispatch ''executable path is not valid UTF-8; cannot write a desktop entry'')
      else if CHR 0x22 \<in> set exe \<or> LF \<in> set exe
      then Inl (EDispatch ''executable path contains characters unsafe for a desktop entry'')
      else Inr (file_lines (desktop_lines exe)))"

definition linux_install :: "environment \<Rightarrow> (os_effect \<Rightarrow> error option) \<Rightarrow> error + bytes \<Rightarrow> int os_io" where
  "linux_install env fails current_exe =
     bind_io (lift_io (and_then current_exe desktop_entry)) (\<lambda>content.
     bind_io (lift_io (applications_dir Linux env)) (\<lambda>apps.
     bind_io (all_io
       [attempt fails (MakeDir apps),
        attempt fails (WriteFile (path_push apps DESKTOP_FILE) content),
        attempt fails (RunProgram ''xdg-mime'' [''default'', DESKTOP_FILE, ''x-scheme-handler/murl'']),
        try_io (attempt fails (RunProgram ''update-desktop-database'' [apps]))])
     (\<lambda>_. lift_io (Inr 0))))"

definition linux_uninstall :: "environment \<Rightarrow> (string \<Rightarrow> bool) \<Rightarrow> (os_effect \<Rightarrow> error option) \<Rightarrow> int os_io" where
  "linux_uninstall env present fails =
     bind_io (lift_io (applications_dir Linux env)) (\<lambda>apps.
       let p = path_push apps DESKTOP_FILE in
       bind_io (if present p then attempt fails (RemoveFile p) else lift_io (Inr ())) (\<lambda>_. lift_io (Inr 0)))"

definition windows_install :: "(os_effect \<Rightarrow> error option) \<Rightarrow> error + string \<Rightarrow> int os_io" where
  "windows_install fails current_exe =
     bind_io (lift_io current_exe) (\<lambda>exe.
     bind_io (all_io
       [attempt fails (RunProgram ''reg.exe'' [''add'', REG_KEY, ''/ve'', ''/t'', ''REG_SZ'', ''/d'', ''URL:mURL Protocol'', ''/f'']),
        attempt fails (RunProgram ''reg.exe'' [''add'', REG_KEY, ''/v'', ''URL Protocol'', ''/t'', ''REG_SZ'', ''/d'', [], ''/f'']),
        attempt fails (RunProgram ''reg.exe''
          [''add'', REG_KEY @ [CHR 0x5C] @ ''shell'' @ [CHR 0x5C] @ ''open'' @ [CHR 0x5C] @ ''command'', ''/ve'', ''/t'', ''REG_SZ'', ''/d'',
           dquoted exe @ '' open-url '' @ dquoted ''%1'', ''/f''])])
     (\<lambda>_. lift_io (Inr 0)))"

definition windows_uninstall :: "(os_effect \<Rightarrow> error option) \<Rightarrow> int os_io" where
  "windows_uninstall fails =
     bind_io (attempt fails (RunProgram ''reg.exe'' [''delete'', REG_KEY, ''/f''])) (\<lambda>_. lift_io (Inr 0))"

fun os_install :: "platform \<Rightarrow> environment \<Rightarrow> (os_effect \<Rightarrow> error option) \<Rightarrow> error + bytes \<Rightarrow> int os_io" where
  "os_install Linux env fails exe = linux_install env fails exe"
| "os_install Windows env fails exe = windows_install fails exe"
| "os_install MacOS env fails exe = lift_io (Inr 1)"

fun os_uninstall :: "platform \<Rightarrow> environment \<Rightarrow> (string \<Rightarrow> bool) \<Rightarrow> (os_effect \<Rightarrow> error option) \<Rightarrow> int os_io" where
  "os_uninstall Linux env present fails = linux_uninstall env present fails"
| "os_uninstall Windows env present fails = windows_uninstall fails"
| "os_uninstall MacOS env present fails = lift_io (Inl (EDispatch (''unsupported platform '' @ quoted ''macos'')))"

section \<open>The service unit\<close>

definition unit_path :: "platform \<Rightarrow> environment \<Rightarrow> error + string" where
  "unit_path pf env =
     and_then (ok_or (EDispatch ''cannot determine the home directory'') (home_dir pf env)) (\<lambda>home.
       case pf of
         MacOS \<Rightarrow> Inr (path_push home ''Library/LaunchAgents/dev.murl.daemon.plist'')
       | Linux \<Rightarrow>
           (let base = (case set_env env ''XDG_CONFIG_HOME'' of Some b \<Rightarrow> b | None \<Rightarrow> path_push home ''.config'') in
            Inr (path_push base ''systemd/user/murl-daemon.service''))
       | Windows \<Rightarrow> Inl (EDispatch ''no service integration on this platform yet; run `murl-daemon run` directly''))"

definition plist_lines :: "string \<Rightarrow> string list" where
  "plist_lines exe =
     [''<?xml version='' @ dquoted ''1.0'' @ '' encoding='' @ dquoted ''UTF-8'' @ ''?>'',
      ''<!DOCTYPE plist PUBLIC '' @ dquoted ''-//Apple//DTD PLIST 1.0//EN'' @ '' ''
        @ dquoted ''http://www.apple.com/DTDs/PropertyList-1.0.dtd'' @ ''>'',
      ''<plist version='' @ dquoted ''1.0'' @ ''>'',
      ''<dict>'',
      ''    <key>Label</key>'',
      ''    <string>dev.murl.daemon</string>'',
      ''    <key>ProgramArguments</key>'',
      ''    <array>'',
      ''        <string>'' @ exe @ ''</string>'',
      ''        <string>run</string>'',
      ''    </array>'',
      ''    <key>RunAtLoad</key>'',
      ''    <true/>'',
      ''    <key>KeepAlive</key>'',
      ''    <true/>'',
      ''    <key>ProcessType</key>'',
      ''    <string>Interactive</string>'',
      ''</dict>'',
      ''</plist>'']"

definition systemd_lines :: "string \<Rightarrow> string list" where
  "systemd_lines exe =
     [''[Unit]'',
      ''Description=mURL resolver (consent surface for murl:// activations)'',
      ''Documentation=https://github.com/thatwasyahya/mURL'',
      ''After=graphical-session.target'',
      [],
      ''[Service]'',
      ''Type=simple'',
      ''ExecStart='' @ dquoted exe @ '' run'',
      ''Restart=on-failure'',
      ''RestartSec=2'',
      [],
      ''[Install]'',
      ''WantedBy=default.target'']"

definition unit_contents :: "platform \<Rightarrow> bytes \<Rightarrow> error + string" where
  "unit_contents pf exe =
     (if utf8_decode exe = None then Inl (EDispatch ''executable path is not valid UTF-8'')
      else if pf = MacOS
      then if list_ex (\<lambda>c. c \<in> {CHR ''<'', CHR ''>'', CHR ''&'', CHR 0x22}) exe
           then Inl (EDispatch ''executable path contains characters unsafe for a plist'')
           else Inr (file_lines (plist_lines exe))
      else if LF \<in> set exe \<or> CHR 0x22 \<in> set exe
           then Inl (EDispatch ''executable path contains characters unsafe for a unit file'')
           else Inr (file_lines (systemd_lines exe)))"

definition service_install :: "platform \<Rightarrow> environment \<Rightarrow> (os_effect \<Rightarrow> error option) \<Rightarrow> error + bytes \<Rightarrow> int os_io" where
  "service_install pf env fails current_exe =
     bind_io (lift_io current_exe) (\<lambda>exe.
     bind_io (lift_io (unit_path pf env)) (\<lambda>p.
     bind_io (lift_io (unit_contents pf exe)) (\<lambda>contents.
     bind_io (case path_parent p of Some parent \<Rightarrow> attempt fails (MakeDir parent) | None \<Rightarrow> lift_io (Inr ())) (\<lambda>_.
     bind_io (attempt fails (WriteFile p contents)) (\<lambda>_. lift_io (Inr 0))))))"

definition service_uninstall :: "platform \<Rightarrow> environment \<Rightarrow> (string \<Rightarrow> bool) \<Rightarrow> (os_effect \<Rightarrow> error option) \<Rightarrow> int os_io" where
  "service_uninstall pf env present fails =
     bind_io (lift_io (unit_path pf env)) (\<lambda>p.
     bind_io (if present p then attempt fails (RemoveFile p) else lift_io (Inr ())) (\<lambda>_. lift_io (Inr 0)))"

section \<open>What a registration does\<close>

lemma split_file_lines: "list_all (\<lambda>l. LF \<notin> set l) ls \<Longrightarrow> split_on LF (file_lines ls) = ls @ [[]]"
proof (induction ls)
  case (Cons l ls)
  then show ?case using split_on_append [of LF l "file_lines ls"] by (simp add: file_lines_def)
qed (simp add: file_lines_def)

lemma desktop_entry_lines:
  assumes "desktop_entry exe = Inr content"
  shows "split_on LF content = desktop_lines exe @ [[]] \<and> CHR 0x22 \<notin> set exe \<and> LF \<notin> set exe"
proof -
  have e: "content = file_lines (desktop_lines exe)" "CHR 0x22 \<notin> set exe" "LF \<notin> set exe"
    using assms by (auto simp: desktop_entry_def split: if_splits)
  have "list_all (\<lambda>l. LF \<notin> set l) (desktop_lines [])" by code_simp
  then have "list_all (\<lambda>l. LF \<notin> set l) (desktop_lines exe)" using e(3) by (simp add: desktop_lines_def dquoted_def)
  then show ?thesis using e split_file_lines by simp
qed

lemma unit_lines:
  assumes "unit_contents pf exe = Inr content" "pf \<noteq> MacOS"
  shows "split_on LF content = systemd_lines exe @ [[]] \<and> CHR 0x22 \<notin> set exe \<and> LF \<notin> set exe"
proof -
  have e: "content = file_lines (systemd_lines exe)" "CHR 0x22 \<notin> set exe" "LF \<notin> set exe"
    using assms by (auto simp: unit_contents_def split: if_splits)
  have "list_all (\<lambda>l. LF \<notin> set l) (systemd_lines [])" by code_simp
  then have "list_all (\<lambda>l. LF \<notin> set l) (systemd_lines exe)" using e(3) by (simp add: systemd_lines_def dquoted_def)
  then show ?thesis using e split_file_lines by simp
qed

text \<open>The line of the program's path is the only one that depends on it.\<close>

lemma only_exec_line:
  "desktop_lines exe = take 4 (desktop_lines []) @ (''Exec='' @ dquoted exe @ '' open-url %u'') # drop 5 (desktop_lines [])"
  "systemd_lines exe = take 7 (systemd_lines []) @ (''ExecStart='' @ dquoted exe @ '' run'') # drop 8 (systemd_lines [])"
  by (simp_all add: desktop_lines_def systemd_lines_def)

definition registers :: "environment \<Rightarrow> error + bytes \<Rightarrow> os_effect \<Rightarrow> bool" where
  "registers env current_exe e \<longleftrightarrow>
     (case e of
        MakeDir p \<Rightarrow> applications_dir Linux env = Inr p
      | WriteFile p content \<Rightarrow>
          (\<exists>apps exe. applications_dir Linux env = Inr apps \<and> p = path_push apps DESKTOP_FILE
             \<and> current_exe = Inr exe \<and> desktop_entry exe = Inr content)
      | RemoveFile p \<Rightarrow> False
      | RunProgram program args \<Rightarrow> program \<in> {''xdg-mime'', ''update-desktop-database'', ''reg.exe''})"

definition keeps :: "(os_effect \<Rightarrow> bool) \<Rightarrow> 'a os_io \<Rightarrow> bool" where
  "keeps P m \<longleftrightarrow> (\<forall>log. list_all P log \<longrightarrow> list_all P (snd (m log)))"

lemma keeps_bind:
  assumes "keeps P m" "\<And>a log log'. m log = (Inr a, log') \<Longrightarrow> keeps P (f a)"
  shows "keeps P (bind_io m f)"
  using assms unfolding keeps_def bind_io_def by (fastforce split: prod.split sum.split)

lemma keeps_lift: "keeps P (lift_io r)"
  by (simp add: keeps_def lift_io_def)

lemma keeps_attempt: "P e \<Longrightarrow> keeps P (attempt fails e)"
  by (simp add: keeps_def attempt_def)

lemma keeps_try: "keeps P m \<Longrightarrow> keeps P (try_io m)"
  by (simp add: keeps_def try_io_def)

lemma keeps_all: "list_all (keeps P) ms \<Longrightarrow> keeps P (all_io ms)"
proof (induction ms)
  case (Cons m ms)
  then have "keeps P (bind_io m (\<lambda>_. all_io ms))" by (intro keeps_bind) simp_all
  then show ?case by (simp add: keeps_def)
qed (simp add: keeps_def)

lemmas keeps_rules = keeps_bind keeps_lift keeps_attempt keeps_try keeps_all

text \<open>
  Whatever fails, registering the scheme handler makes the one directory, writes the one
  desktop entry, and runs the three known programs, all by their argument vectors; it
  removes nothing, and writes nothing when the path of the program is not safe to quote.
\<close>

lemma registration_confined:
  "list_all (registers env current_exe) (snd (os_install pf env fails current_exe []))"
proof -
  have lift: "lift_io r log = (Inr a, log') \<longleftrightarrow> r = Inr a \<and> log' = log" for r :: "error + 'b" and a log log'
    by (auto simp: lift_io_def)
  have "keeps (registers env current_exe) (linux_install env fails current_exe)"
    unfolding linux_install_def by (intro keeps_rules) (auto simp: lift registers_def intro!: keeps_attempt keeps_try)
  moreover have "keeps (registers env current_exe) (windows_install fails current_exe)"
    unfolding windows_install_def by (intro keeps_rules) (auto simp: registers_def intro!: keeps_attempt)
  ultimately show ?thesis by (cases pf) (simp_all add: keeps_def lift_io_def)
qed

end
