(* ===== verification/Detect.thy ===== *)
theory Detect
  imports Install
begin

text \<open>
  \<open>murl handler detect\<close>, \<open>murl-cli/src/commands/detect.rs\<close>: which of the known programs are on
  the search path, and the commands that would register them. The directories of the
  search path and the metadata of files are parameters; the command changes nothing.
\<close>

section \<open>The known programs\<close>

record candidate =
  ca_program :: string
  ca_args :: "string list"
  ca_note :: string

definition candidate :: "string \<Rightarrow> string list \<Rightarrow> string \<Rightarrow> candidate" where
  "candidate program args note = \<lparr> ca_program = program, ca_args = args, ca_note = note \<rparr>"

definition TERMINALS :: "candidate list" where
  "TERMINALS =
     [candidate ''wezterm'' [''start'', ''--cwd'', ''{target}''] [],
      candidate ''kitty'' [''--directory'', ''{target}''] [],
      candidate ''alacritty'' [''--working-directory'', ''{target}''] [],
      candidate ''gnome-terminal'' [''--working-directory={target}''] [],
      candidate ''konsole'' [''--workdir'', ''{target}''] [],
      candidate ''xfce4-terminal'' [''--working-directory={target}''] [],
      candidate ''foot'' [''--working-directory={target}''] [],
      candidate ''x-terminal-emulator'' [] ''Debian alternatives symlink; the concrete terminal may take a different flag'',
      candidate ''wt.exe'' [''-d'', ''{target}''] ''Windows Terminal'']"

definition SSH_CLIENTS :: "candidate list" where
  "SSH_CLIENTS =
     [candidate ''wezterm'' [''start'', ''--'', ''ssh'', ''{target}''] ''runs ssh inside a new window'',
      candidate ''kitty'' [''ssh'', ''{target}''] [],
      candidate ''x-terminal-emulator'' [''-e'', ''ssh'', ''{target}''] [],
      candidate ''ssh'' [''{target}''] ''only useful when murl itself runs in a terminal'']"

definition REMOTE_DESKTOP_CLIENTS :: "candidate list" where
  "REMOTE_DESKTOP_CLIENTS =
     [candidate ''xfreerdp'' [''{target}''] ''rdp:// targets'',
      candidate ''remmina'' [''-c'', ''{target}''] ''rdp:// and vnc://'',
      candidate ''vinagre'' [''{target}''] ''vnc://'',
      candidate ''mstsc.exe'' [] (''Windows RDP client; takes a .rdp file, not a URL '' @ em_dash @ '' needs a wrapper'')]"

section \<open>The search\<close>

record file_meta =
  fm_is_file :: bool
  fm_mode :: "32 word"

definition is_executable :: "platform \<Rightarrow> (string \<Rightarrow> file_meta option) \<Rightarrow> string \<Rightarrow> bool" where
  "is_executable pf meta p =
     (case meta p of
        None \<Rightarrow> False
      | Some m \<Rightarrow> fm_is_file m \<and> (pf = Windows \<or> fm_mode m AND 0x49 \<noteq> 0))"

fun which_in :: "platform \<Rightarrow> (string \<Rightarrow> file_meta option) \<Rightarrow> string \<Rightarrow> string list \<Rightarrow> string option" where
  "which_in pf meta program [] = None"
| "which_in pf meta program (dir # dirs) =
     (if is_executable pf meta (path_push dir program) then Some (path_push dir program)
      else if pf = Windows \<and> CHR ''.'' \<notin> set program \<and> is_executable pf meta (path_push dir (program @ ''.exe''))
      then Some (path_push dir (program @ ''.exe''))
      else which_in pf meta program dirs)"

definition which :: "platform \<Rightarrow> (string \<Rightarrow> file_meta option) \<Rightarrow> string list option \<Rightarrow> string \<Rightarrow> string option" where
  "which pf meta path program = (case path of None \<Rightarrow> None | Some dirs \<Rightarrow> which_in pf meta program dirs)"

record suggestion =
  su_kind :: string
  su_subcommand :: string
  su_path :: string
  su_argv :: "string list"
  su_note :: string

definition GROUPS :: "(string \<times> string \<times> candidate list) list" where
  "GROUPS = [(''terminal'', ''set-terminal'', TERMINALS), (''ssh'', ''set-ssh'', SSH_CLIENTS),
     (''remote-desktop'', ''set-remote-desktop'', REMOTE_DESKTOP_CLIENTS)]"

definition detect_found :: "platform \<Rightarrow> (string \<Rightarrow> file_meta option) \<Rightarrow> string list option \<Rightarrow> suggestion list" where
  "detect_found pf meta path =
     concat (map (\<lambda>(kind, subcommand, candidates).
       List.map_filter (\<lambda>c.
         map_option (\<lambda>p. \<lparr> su_kind = kind, su_subcommand = subcommand, su_path = p, su_argv = ca_program c # ca_args c, su_note = ca_note c \<rparr>)
           (which pf meta path (ca_program c))) candidates) GROUPS)"

definition suggestion_json :: "suggestion \<Rightarrow> json" where
  "suggestion_json s = json_obj
     [(''kind'', JStr (su_kind s)), (''path'', JStr (su_path s)), (''argv'', jstr_list (su_argv s)), (''note'', JStr (su_note s)),
      (''command'', JStr (''murl handler '' @ su_subcommand s @ '' -- '' @ join '' '' (su_argv s)))]"

definition detect_json :: "suggestion list \<Rightarrow> handlers_file \<Rightarrow> json" where
  "detect_json found configured = json_obj
     [(''detected'', JArr (map suggestion_json found)),
      (''configured'', json_obj [(''terminal'', argv_json (hf_terminal configured)), (''ssh'', argv_json (hf_ssh configured)),
         (''remoteDesktop'', argv_json (hf_remote_desktop configured))])]"

definition detect_run ::
  "platform \<Rightarrow> (string \<Rightarrow> file_meta option) \<Rightarrow> string list option \<Rightarrow> string \<Rightarrow> (bytes \<Rightarrow> string + raw) \<Rightarrow> disk \<Rightarrow> error + json" where
  "detect_run pf meta path handlers events d =
     and_then (handlers_load handlers events (d handlers)) (\<lambda>configured. Inr (detect_json (detect_found pf meta path) configured))"

section \<open>What is suggested\<close>

lemma which_in_executable:
  "which_in pf meta program dirs = Some p \<Longrightarrow> is_executable pf meta p"
  by (induction dirs) (auto split: if_splits)

lemma which_in_None:
  "which_in pf meta program dirs = None \<Longrightarrow> dir \<in> set dirs \<Longrightarrow> \<not> is_executable pf meta (path_push dir program)"
  by (induction dirs) (auto split: if_splits)

text \<open>The command that registers a suggestion.\<close>

definition suggestion_cmd :: "suggestion \<Rightarrow> handler_cmd" where
  "suggestion_cmd s =
     (if su_kind s = ''terminal'' then SetTerminal (su_argv s)
      else if su_kind s = ''ssh'' then SetSsh (su_argv s) else SetRemoteDesktop (su_argv s))"

lemma candidates_ok:
  "list_all (\<lambda>(kind, subcommand, cs). list_all (\<lambda>c. argv_ok (ca_program c # ca_args c)
      \<and> (list_ex (contains ''{target}'') (ca_args c) \<or> ca_note c \<noteq> [])
      \<and> \<not> contains ''{target}'' (ca_program c)) cs) GROUPS"
  by code_simp

lemma suggestion_from:
  assumes "s \<in> set (detect_found pf meta path)"
  shows "\<exists>kind subcommand cs c. (kind, subcommand, cs) \<in> set GROUPS \<and> c \<in> set cs \<and> su_kind s = kind
    \<and> su_argv s = ca_program c # ca_args c \<and> which pf meta path (ca_program c) = Some (su_path s) \<and> su_note s = ca_note c"
  using assms by (fastforce simp: detect_found_def List.map_filter_def)

text \<open>A suggestion names a program that was found and is executable. It can be registered as it
  stands, then the target is one argument of that program or, where the note says so, the
  last; and it is never the program itself.\<close>

lemma suggestion_usable:
  assumes "s \<in> set (detect_found pf meta path)"
  shows "is_executable pf meta (su_path s) \<and> argv_ok (su_argv s)
    \<and> (\<exists>h. handler_effect (suggestion_cmd s) h0 = Some h)
    \<and> hd (substitute (su_argv s) target) = hd (su_argv s)
    \<and> (list_ex (contains ''{target}'') (su_argv s) \<or> su_note s \<noteq> [])"
proof -
  obtain kind subcommand cs c where c: "(kind, subcommand, cs) \<in> set GROUPS" "c \<in> set cs"
    "su_argv s = ca_program c # ca_args c" "which pf meta path (ca_program c) = Some (su_path s)" "su_note s = ca_note c"
    using suggestion_from [OF assms] by blast
  have ok: "argv_ok (su_argv s)" "list_ex (contains ''{target}'') (ca_args c) \<or> ca_note c \<noteq> []" "\<not> contains ''{target}'' (ca_program c)"
    using candidates_ok c(1,2) unfolding c(3) by (auto simp: list_all_iff)
  have "is_executable pf meta (su_path s)" using c(4) which_in_executable by (auto simp: which_def split: option.splits)
  moreover have "hd (substitute (su_argv s) target) = hd (su_argv s)" using ok(3) by (simp add: c(3) substitute_def Let_def)
  moreover have "\<exists>h. handler_effect (suggestion_cmd s) h0 = Some h" using ok(1) by (auto simp: suggestion_cmd_def)
  ultimately show ?thesis using ok c(3,5) by auto
qed

end
