(* ===== verification/Render.thy ===== *)
theory Render
  imports Commands
begin

text \<open>
  What the user reads: the plan and the report, \<open>murl-cli/src/render.rs\<close>, the question that
  asks for consent, \<open>consent.rs\<close>, and the text of \<open>inspect\<close> and \<open>parse\<close>. The lemmas show
  that a manifest cannot add a row to the question, and that it can to \<open>inspect\<close>.
\<close>

section \<open>Padding and symbols\<close>

text \<open>\<open>{:n}\<close> counts characters.\<close>

definition pad :: "nat \<Rightarrow> string \<Rightarrow> string" where
  "pad n s = s @ replicate (n - length (utf8_chars s)) CHR '' ''"

definition last_branch :: string where "last_branch = [CHR 0xE2, CHR 0x94, CHR 0x94, CHR 0xE2, CHR 0x94, CHR 0x80]"
definition inner_branch :: string where "inner_branch = [CHR 0xE2, CHR 0x94, CHR 0x9C, CHR 0xE2, CHR 0x94, CHR 0x80]"
definition cross_mark :: string where "cross_mark = [CHR 0xE2, CHR 0x9C, CHR 0x97]"
definition check_mark :: string where "check_mark = [CHR 0xE2, CHR 0x9C, CHR 0x93]"
definition warning_sign :: string where "warning_sign = [CHR 0xE2, CHR 0x9A, CHR 0xA0]"
definition bullet_mark :: string where "bullet_mark = [CHR 0xE2, CHR 0x80, CHR 0xA2]"

definition id_width :: "string list \<Rightarrow> nat" where
  "id_width ids = foldr max (map length ids) 0"

definition optional_text :: "string \<Rightarrow> string \<Rightarrow> string option \<Rightarrow> string" where
  "optional_text before after t = (case t of None \<Rightarrow> [] | Some s \<Rightarrow> before @ s @ after)"

section \<open>The plan\<close>

definition node_line :: "resolved_node \<Rightarrow> string" where
  "node_line n = ''  manifest: '' @ origin_describe (rn_origin n) @ ''  trust: '' @ trust_status_display (rn_trust n)
     @ (if rn_expired n then ''  [EXPIRED]'' else [])"

definition decision_note :: "planned_resource \<Rightarrow> string" where
  "decision_note pr =
     (case pr_decision pr of
        Some (Deny reason) \<Rightarrow> [LF] @ ''         '' @ cross_mark @ '' denied: '' @ reason
      | Some (Prompt reasons) \<Rightarrow>
          if reasons = [] then [] else [LF] @ ''         '' @ warning_sign @ '' consent: '' @ join ''; '' reasons
      | _ \<Rightarrow> [])"

definition resource_line :: "nat \<Rightarrow> bool \<Rightarrow> planned_resource \<Rightarrow> string" where
  "resource_line width is_last pr =
     ''    '' @ (if is_last then last_branch else inner_branch) @ '' '' @ pad width (rd_id (pr_resource pr)) @ ''  ''
       @ pad 9 (tier_display (pr_tier pr)) @ ''  '' @ pad 9 (kind_display (pr_kind pr)) @ ''  '' @ rd_target (pr_resource pr)
       @ decision_note pr"

definition plan_text :: "resolution \<Rightarrow> string option" where
  "plan_text r =
     map_option (\<lambda>root.
       md_name (mf_doc (rn_manifest root)) @ optional_text ''  ('' '')'' (rn_identity root) @ [LF]
       @ optional_text ''  '' [LF] (md_description (mf_doc (rn_manifest root)))
       @ concat (map (\<lambda>n. node_line n @ [LF]) (rs_nodes r))
       @ optional_text ''  selector: #'' [LF] (rs_selector r)
       @ [LF] @ ''  resources:'' @ [LF]
       @ (if rs_resources r = [] then ''    (none)'' @ [LF] else [])
       @ (let width = id_width (map (rd_id \<circ> pr_resource) (rs_resources r)); n = length (rs_resources r) in
          concat (map (\<lambda>(i, pr). resource_line width (i + 1 = n) pr @ [LF]) (enumerate 0 (rs_resources r))))
       @ (if rs_warnings r = [] then []
          else [LF] @ ''  warnings:'' @ [LF] @ concat (map (\<lambda>w. ''    '' @ warning_sign @ '' '' @ w @ [LF]) (rs_warnings r))))
     (root_node r)"

section \<open>The report\<close>

definition status_symbol :: "outcome_status \<Rightarrow> string" where
  "status_symbol s =
     (case s of OOpened \<Rightarrow> check_mark | OSkipped \<Rightarrow> bullet_mark | OUnavailable \<Rightarrow> warning_sign | _ \<Rightarrow> cross_mark)"

text \<open>\<open>{}\<close> of a status, as of an aggregate, is its text.\<close>

definition report_text :: "string \<Rightarrow> execution_report \<Rightarrow> string" where
  "report_text name report =
     name @ '': '' @ aggregate_display (er_aggregate report) @ [LF]
     @ concat (map (\<lambda>o1. ''  '' @ status_symbol (ro_status o1) @ '' '' @ pad (id_width (map ro_id (er_outcomes report))) (ro_id o1)
           @ ''  '' @ outcome_status_display (ro_status o1) @ optional_text '' ('' '')'' (ro_detail o1) @ [LF])
         (er_outcomes report))"

section \<open>The question\<close>

definition prompt_row :: "planned_resource \<Rightarrow> string" where
  "prompt_row pr =
     ''  '' @ pad 10 (rd_id (pr_resource pr)) @ '' '' @ pad 9 (tier_display (pr_tier pr)) @ '' ''
       @ pad 9 (kind_display (pr_kind pr)) @ '' '' @ rd_target (pr_resource pr)
       @ (case pr_decision pr of
            Some (Prompt reasons) \<Rightarrow> if reasons = [] then [] else ''  ['' @ join ''; '' reasons @ '']''
          | _ \<Rightarrow> [])"

definition prompt_text :: "planned_resource list \<Rightarrow> string" where
  "prompt_text pending =
     [LF] @ ''The following resources need your consent:'' @ [LF]
     @ concat (map (\<lambda>pr. prompt_row pr @ [LF]) pending)
     @ [LF] @ ''Open these? [a]ll / [s]elect individually / [N]one: ''"

definition select_text :: "planned_resource \<Rightarrow> string" where
  "select_text pr = ''  open '' @ rd_id (pr_resource pr) @ '' ('' @ tier_display (pr_tier pr) @ '' '' @ kind_display (pr_kind pr)
     @ '' '' @ rd_target (pr_resource pr) @ '')? [y/N]: ''"

text \<open>The resources the command has no answer for yet, in the order of the plan.\<close>

definition pending_resources :: "open_options \<Rightarrow> resolution \<Rightarrow> planned_resource list" where
  "pending_resources opts r = filter (\<lambda>pr. decide_slot opts pr = Some None) (rs_resources r)"

section \<open>Inspecting\<close>

definition padded_field :: "string \<Rightarrow> string \<Rightarrow> string" where
  "padded_field name s = pad 13 (name @ '':'') @ s @ [LF]"

definition inspect_resource :: "nat \<Rightarrow> resource_doc \<Rightarrow> string" where
  "inspect_resource width r =
     ''  '' @ pad width (rd_id r) @ ''  ''
       @ pad 9 (case kind_parse (rd_kind r) of Inr k \<Rightarrow> tier_display (classify k (rd_target r)) | Inl _ \<Rightarrow> ''?'')
       @ ''  '' @ pad 9 (rd_kind r) @ ''  '' @ rd_target r @ optional_text ''  ['' '']'' (rd_role r) @ [LF]"

definition inspect_text :: "resolver \<Rightarrow> manifest \<Rightarrow> origin \<Rightarrow> murl option \<Rightarrow> string" where
  "inspect_text v mf orig om =
     (let d = mf_doc mf; report = validate (rv_ext v) mf; field = padded_field;
          opt = (\<lambda>name t. case t of None \<Rightarrow> [] | Some s \<Rightarrow> padded_field name s)
      in field ''name'' (md_name d) @ opt ''id'' (md_id d) @ opt ''description'' (md_description d)
         @ opt ''version'' (md_version d) @ opt ''expires'' (md_expires d)
         @ field ''origin'' (origin_describe orig) @ field ''trust'' (trust_line v mf orig om)
         @ field ''validation''
             (if is_valid report then ''valid ('' @ dec_of_nat (length (vr_warnings report)) @ '' warnings)''
              else dec_of_nat (length (vr_errors report)) @ '' ERRORS'')
         @ [LF] @ ''resources ('' @ dec_of_nat (length (md_resources d)) @ ''):'' @ [LF]
         @ concat (map (inspect_resource (id_width (map rd_id (md_resources d)))) (md_resources d))
         @ (if md_relations d = [] then []
            else [LF] @ ''relations:'' @ [LF]
              @ concat (map (\<lambda>rl. ''  '' @ rl_from rl @ '' --'' @ rl_rel rl @ ''--> '' @ rl_to rl @ [LF]) (md_relations d))))"

definition inspect_output :: "app \<Rightarrow> disk \<Rightarrow> fs \<Rightarrow> string \<Rightarrow> (fault + string) \<times> fs" where
  "inspect_output a d cache target =
     (case fetch_root_of a d cache target of
        (Inl e, cache1) \<Rightarrow> (Inl e, cache1)
      | (Inr (mf, orig, ws, om), cache1) \<Rightarrow> (Inr (inspect_text (ap_resolver a) mf orig om), cache1))"

section \<open>Validating, and the forms for machines\<close>

definition plural :: "nat \<Rightarrow> string" where
  "plural n = (if n = 1 then [] else ''s'')"

definition validate_text :: "string \<Rightarrow> validation_report \<Rightarrow> string" where
  "validate_text target report =
     (let e = length (vr_errors report); w = length (vr_warnings report) in
      concat (map (\<lambda>i. ''error   '' @ is_path i @ '': '' @ is_message i @ [LF]) (vr_errors report))
      @ concat (map (\<lambda>i. ''warning '' @ is_path i @ '': '' @ is_message i @ [LF]) (vr_warnings report))
      @ (if is_valid report
         then ''OK: '' @ quoted target @ '' is a valid mURL v0.1 manifest ('' @ dec_of_nat w @ '' warning'' @ plural w @ '')''
         else ''INVALID: '' @ dec_of_nat e @ '' error'' @ plural e @ '', '' @ dec_of_nat w @ '' warning'' @ plural w)
      @ [LF])"

definition issue_json :: "issue \<Rightarrow> json" where
  "issue_json i = json_obj [(''path'', JStr (is_path i)), (''message'', JStr (is_message i))]"

definition validate_json :: "string \<Rightarrow> origin \<Rightarrow> validation_report \<Rightarrow> json" where
  "validate_json target orig report = json_obj
     [(''target'', JStr target), (''origin'', JStr (origin_describe orig)), (''valid'', JBool (is_valid report)),
      (''errors'', JArr (map issue_json (vr_errors report))), (''warnings'', JArr (map issue_json (vr_warnings report)))]"

definition validate_output :: "app \<Rightarrow> bool \<Rightarrow> disk \<Rightarrow> fs \<Rightarrow> string \<Rightarrow> (fault + string \<times> int) \<times> fs" where
  "validate_output a as_json d cache target =
     (let x = rv_ext (ap_resolver a) in
      case fetch_root_of a d cache target of
        (Inl e, cache1) \<Rightarrow> (Inl e, cache1)
      | (Inr (mf, orig, ws, m), cache1) \<Rightarrow>
          (let report = validate x mf in
           (Inr (if as_json then pretty x 0 (validate_json target orig report) @ [LF] else validate_text target report,
              if is_valid report then 0 else 2), cache1)))"

definition inspect_json :: "resolver \<Rightarrow> string \<Rightarrow> manifest \<Rightarrow> origin \<Rightarrow> murl option \<Rightarrow> json" where
  "inspect_json v target mf orig om =
     (let report = validate (rv_ext v) mf in json_obj
       [(''target'', JStr target), (''origin'', JStr (origin_describe orig)), (''trust'', JStr (trust_line v mf orig om)),
        (''valid'', JBool (is_valid report)), (''errors'', JArr (map issue_json (vr_errors report))),
        (''warnings'', JArr (map issue_json (vr_warnings report))), (''manifest'', mf_raw mf)])"

text \<open>The exit code is that of \<open>validate_cmd\<close>, and says what the text says.\<close>

lemma validate_output_code:
  "map_sum id snd (fst (validate_output a as_json d cache target)) = fst (validate_cmd a d cache target)"
  by (auto simp: validate_output_def validate_cmd_def Let_def split: sum.split prod.split)

section \<open>Listings\<close>

definition cache_list_text :: "cache_meta list \<Rightarrow> string" where
  "cache_list_text entries =
     (if entries = [] then ''(cache is empty)'' @ [LF]
      else concat (map (\<lambda>e. cm_identity e @ ''  fetched_at='' @ dec_of_nat (cm_fetched_at e) @ ''  '' @ cm_url e @ [LF]) entries))"

definition cache_list_cmd :: "meta_codec \<Rightarrow> path \<Rightarrow> fs \<Rightarrow> error + string" where
  "cache_list_cmd mc root f = and_then (cache_list mc root f) (\<lambda>entries. Inr (cache_list_text entries))"

definition cache_clear_cmd :: "ext \<Rightarrow> meta_codec \<Rightarrow> path \<Rightarrow> fs \<Rightarrow> (error + string) \<times> fs" where
  "cache_clear_cmd x mc root f =
     (case cache_clear x mc root f of
        (Inl e, g) \<Rightarrow> (Inl e, g)
      | (Inr n, g) \<Rightarrow> (Inr (''cleared '' @ dec_of_nat n @ '' cached manifest'' @ plural n @ [LF]), g))"

definition trust_list_text :: "trust_store \<Rightarrow> string" where
  "trust_list_text st =
     (if trust_entries st = [] then ''(no pinned keys; pin one with `murl trust add <authority> <publicKey>`)'' @ [LF]
      else concat (map (\<lambda>(a, k). a @ ''  '' @ pk_key_id k @ ''  '' @ pk_public_key k @ [LF]) (trust_entries st)))"

definition trust_list_json :: "trust_store \<Rightarrow> json" where
  "trust_list_json st = JArr (map (\<lambda>(a, k). json_obj
     [(''authority'', JStr a), (''keyId'', JStr (pk_key_id k)), (''publicKey'', JStr (pk_public_key k)),
      (''addedAt'', json_opt json_nat (pk_added_at k))]) (trust_entries st))"

section \<open>Parsing\<close>

definition name_path :: "murl \<Rightarrow> string" where
  "name_path m = join ''/'' (mu_name m)"

definition parse_text :: "murl \<Rightarrow> string" where
  "parse_text m =
     ''identity:   '' @ identity m @ [LF]
     @ ''authority:  '' @ authority_display (mu_authority m) @ '' ('' @ (if is_local (mu_authority m) then ''local store'' else ''remote'') @ '')'' @ [LF]
     @ ''name:       '' @ name_path m @ [LF]
     @ ''version:    '' @ version_display (mu_version m) @ [LF]
     @ optional_text ''selector:   #'' [LF] (selector_display m)
     @ optional_text ''query:      ?'' [LF] (mu_query m)
     @ optional_text ''manifest:   '' [LF] (well_known_url m)"

definition parse_cmd :: "string \<Rightarrow> error + string" where
  "parse_cmd s = and_then (map_err EParse (murl_parse s)) (\<lambda>m. Inr (parse_text m))"

section \<open>No row but the rows\<close>

lemma pad_plain: "d \<noteq> CHR '' '' \<Longrightarrow> d \<in> set (pad n s) \<longleftrightarrow> d \<in> set s"
  by (auto simp: pad_def)

lemma LF_not_space: "LF \<noteq> CHR '' ''"
  by (simp add: LF_def)

lemma tier_no_LF: "LF \<notin> set (tier_display t)"
  by (cases t) (simp_all add: LF_def)

lemma kind_no_LF:
  assumes "wf_kind k"
  shows "LF \<notin> set (kind_display k)"
proof (cases k)
  case (Custom name)
  have "lower_or_digit c \<or> c = CHR ''-'' \<or> c = CHR ''_''" if "c \<in> set name" for c
  proof -
    obtain d n where n: "name = d # n" using \<open>c \<in> set name\<close> by (cases name) auto
    have "lower_or_digit d \<and> list_all (\<lambda>b. lower_or_digit b \<or> b = CHR ''-'' \<or> b = CHR ''_'') n"
      using assms by (simp add: Custom wf_kind_def custom_name_ok_def n list_all_enumerate_Cons del: enumerate_simps)
    then show ?thesis using that by (auto simp: n list_all_iff)
  qed
  moreover have "\<not> (lower_or_digit LF \<or> LF = CHR ''-'' \<or> LF = CHR ''_'')" "LF \<notin> set ''custom:''" by code_simp+
  ultimately show ?thesis by (auto simp: Custom)
qed (simp_all add: LF_def)

lemma id_no_LF: "is_valid_resource_id s \<Longrightarrow> LF \<notin> set s"
proof
  have "\<not> (lower_or_digit LF \<or> LF = CHR ''-'' \<or> LF = CHR ''_'')" by code_simp
  then show "is_valid_resource_id s \<Longrightarrow> LF \<in> set s \<Longrightarrow> False" using resource_id_chars by blast
qed

lemma text_no_LF:
  assumes "utf8_decode s \<noteq> None" "\<not> has_control s"
  shows "LF \<notin> set s"
proof -
  obtain cs where cs: "utf8_decode s = Some cs" using assms(1) by blast
  have "is_control (byte LF)" "byte LF < 0x80" by code_simp+
  then show ?thesis
    using utf8_decode_ascii [OF cs, of LF] assms(2) by (auto simp: has_control_def utf8_chars_def cs list_ex_iff)
qed

lemma evaluate_reasons:
  assumes "evaluate p k t ctx = Prompt reasons"
  shows "list_all (\<lambda>r. LF \<notin> set r) reasons"
proof -
  have tier: "LF \<notin> set (tier_display t @ '' resource'')" using tier_no_LF by (simp add: LF_def)
  have fixed: "list_all (\<lambda>r. LF \<notin> set r) [''manifest is expired'', ''manifest is not yet valid (notBefore)'',
      ''remote manifest references the local filesystem'', ''dangerous resource from an untrusted manifest'']" by code_simp
  have "set reasons \<subseteq> insert (tier_display t @ '' resource'') (set [''manifest is expired'', ''manifest is not yet valid (notBefore)'',
      ''remote manifest references the local filesystem'', ''dangerous resource from an untrusted manifest''])"
    using assms unfolding evaluate_def Let_def by (auto split: if_splits)
  then show ?thesis using tier fixed unfolding list_all_iff by blast
qed

lemma join_no: "d \<notin> set sep \<Longrightarrow> list_all (\<lambda>r. d \<notin> set r) rs \<Longrightarrow> d \<notin> set (join sep rs)"
  using set_join [of sep rs] by (auto simp: list_all_iff)

definition row_plain :: "planned_resource \<Rightarrow> bool" where
  "row_plain pr \<longleftrightarrow> LF \<notin> set (rd_id (pr_resource pr)) \<and> LF \<notin> set (rd_target (pr_resource pr)) \<and> wf_kind (pr_kind pr)
     \<and> (\<forall>reasons. pr_decision pr = Some (Prompt reasons) \<longrightarrow> list_all (\<lambda>r. LF \<notin> set r) reasons)"

lemma prompt_row_plain:
  assumes "row_plain pr"
  shows "LF \<notin> set (prompt_row pr)" "LF \<notin> set (select_text pr)"
proof -
  have sp: "LF \<notin> set '' ''" "LF \<notin> set ''  ''" "LF \<notin> set ''  [''" "LF \<notin> set '']''" "LF \<notin> set ''; ''"
    "LF \<notin> set ''  open ''" "LF \<notin> set '' (''" "LF \<notin> set '')? [y/N]: ''" by code_simp+
  have "LF \<notin> set (case pr_decision pr of Some (Prompt reasons) \<Rightarrow> if reasons = [] then [] else ''  ['' @ join ''; '' reasons @ '']'' | _ \<Rightarrow> [])"
    using assms sp(3,4) join_no [OF sp(5)] unfolding row_plain_def
    by (cases "pr_decision pr") (auto simp: LF_def split: decision.split)
  then show "LF \<notin> set (prompt_row pr)"
    using assms sp tier_no_LF kind_no_LF unfolding prompt_row_def row_plain_def set_append pad_plain [OF LF_not_space]
    by (simp add: pad_plain [OF LF_not_space] del: set_simps)
  show "LF \<notin> set (select_text pr)"
    using assms sp tier_no_LF kind_no_LF unfolding select_text_def row_plain_def by simp
qed

lemma planned_row_plain:
  assumes "resolve v cache m = (Inr r0, s)" "apply_policy p r0 = Some r" "pr \<in> set (rs_resources r)"
    and "utf8_decode (rd_target (pr_resource pr)) \<noteq> None"
  shows "row_plain pr"
proof -
  have ok: "resolution_ok v r0" using resolve_success [OF assms(1)] by simp
  obtain pr0 where pr0: "pr0 \<in> set (rs_resources r0)" "pr = pr0\<lparr> pr_decision := Some (evaluate p (pr_kind pr0) (pr_tier pr0)
      (node_context (rs_nodes r0 ! pr_node pr0))) \<rparr>"
    using assms(2,3) by (auto simp: policy_total [OF ok])
  define n where "n = rs_nodes r0 ! pr_node pr0"
  have pl: "pr_node pr0 < length (rs_nodes r0)" "pr_resource pr0 \<in> set (md_resources (mf_doc (rn_manifest n)))"
    "kind_parse (rd_kind (pr_resource pr0)) = Inr (pr_kind pr0)"
    using ok pr0(1) by (auto simp: resolution_ok_def planned_from_def list_all_iff n_def)
  have "wf_doc (rv_ext v) (mf_doc (rn_manifest n))"
    using ok pl(1) by (auto simp: resolution_ok_def list_all_iff wf_manifest_def n_def)
  then have w: "is_valid_resource_id (rd_id (pr_resource pr0))" "\<not> has_control (rd_target (pr_resource pr0))"
    using pl(2) by (auto simp: wf_doc_def wf_resources_def wf_resource_def wf_target_def list_all_iff)
  then show ?thesis
    using pr0(2) assms(4) pl(3) id_no_LF text_no_LF kind_parse_sound evaluate_reasons by (auto simp: row_plain_def)
qed

lemma split_rows:
  "list_all (\<lambda>l. LF \<notin> set l) ls \<Longrightarrow> split_on LF (concat (map (\<lambda>l. l @ [LF]) ls) @ t) = ls @ split_on LF t"
proof (induction ls)
  case (Cons l ls)
  then show ?case using split_on_append [of LF l "concat (map (\<lambda>l. l @ [LF]) ls) @ t"] by simp
qed simp

section \<open>Properties\<close>

text \<open>
  C40: what is asked is what is shown. When consent for a resolved plan is asked for at the
  terminal, the lines of the question are the heading, one row for each pending resource
  in the order in which they are decided, and the question: no text of a manifest adds,
  removes or breaks a row. Targets are UTF-8, as Rust strings are.
\<close>

theorem prompt_rows:
  assumes "resolve v cache m = (Inr r0, s)" "apply_policy p r0 = Some r"
    and "list_all (\<lambda>pr. utf8_decode (rd_target (pr_resource pr)) \<noteq> None) (rs_resources r)"
  shows "split_on LF (prompt_text (pending_resources opts r)) =
    [[], ''The following resources need your consent:''] @ map prompt_row (pending_resources opts r)
    @ [[], ''Open these? [a]ll / [s]elect individually / [N]one: '']"
proof -
  let ?rows = "map prompt_row (pending_resources opts r)"
  have "list_all row_plain (rs_resources r)"
    using planned_row_plain [OF assms(1,2)] assms(3) by (auto simp: list_all_iff)
  then have "list_all (\<lambda>l. LF \<notin> set l) ?rows"
    using prompt_row_plain(1) by (auto simp: pending_resources_def list_all_iff)
  moreover have "list_all (\<lambda>l. LF \<notin> set l) [[], ''The following resources need your consent:'']" by code_simp
  ultimately have rows: "list_all (\<lambda>l. LF \<notin> set l) ([[], ''The following resources need your consent:''] @ ?rows @ [[]])" by simp
  have q: "LF \<notin> set ''Open these? [a]ll / [s]elect individually / [N]one: ''" by code_simp
  have "prompt_text (pending_resources opts r) = concat (map (\<lambda>l. l @ [LF]) ([[], ''The following resources need your consent:''] @ ?rows @ [[]]))
      @ ''Open these? [a]ll / [s]elect individually / [N]one: ''"
    by (simp add: prompt_text_def comp_def)
  then show ?thesis using split_rows [OF rows] split_on_absent [OF q] by simp
qed

lemma sample_targets:
  assumes "manifest_from_slice (x_events (rv_ext sample_resolver)) (rv_limits sample_resolver) b = Inr mf"
  shows "list_all (\<lambda>d. utf8_decode (rd_target d) \<noteq> None) (md_resources (mf_doc mf))"
proof -
  have e: "x_events (rv_ext sample_resolver) = sample_events" "rv_limits sample_resolver = default_limits"
    by (simp_all add: sample_resolver_def)
  have "b = ''root'' \<or> b = ''kid''"
  proof (rule ccontr)
    assume "\<not> ?thesis"
    then have "\<not> is_ok (sample_events b)" by (simp add: sample_events_def)
    then show False using assms unfolding e by (auto simp: manifest_from_slice_def from_slice_strict_def split: if_splits)
  qed
  moreover have "mf = sample_manifest b" using assms unfolding e by (simp add: sample_manifest_def)
  ultimately consider "mf = sample_manifest ''root''" | "mf = sample_manifest ''kid''" by blast
  moreover have "utf8_decode ''https://x.example/'' \<noteq> None" "utf8_decode ''murl://local/kid'' \<noteq> None" "utf8_decode ''~/src'' \<noteq> None"
    by code_simp+
  ultimately show ?thesis by cases (simp_all only: sample_docs sample_doc_def list.pred_inject resource_doc.simps simp_thms)
qed

theorem prompt_rows_witness:
  "\<exists>r0 s r. resolve sample_resolver [] (sample_name ''root'') = (Inr r0, s) \<and> apply_policy default_policy r0 = Some r
     \<and> length (split_on LF (prompt_text (pending_resources default_options r))) = 4 + length (pending_resources default_options r)"
proof -
  obtain r0 s where r0: "resolve sample_resolver [] (sample_name ''root'') = (Inr r0, s)" using sample_resolves by blast
  have ok: "resolution_ok sample_resolver r0" using resolve_success [OF r0] by simp
  obtain r where r: "apply_policy default_policy r0 = Some r"
    "map pr_resource (rs_resources r) = map pr_resource (rs_resources r0)"
    using policy_total [OF ok, of default_policy] by simp
  have "utf8_decode (rd_target (pr_resource pr)) \<noteq> None" if "pr \<in> set (rs_resources r0)" for pr
    using that ok sample_targets by (fastforce simp: resolution_ok_def planned_from_def list_all_iff)
  then have "list_all (\<lambda>d. utf8_decode (rd_target d) \<noteq> None) (map pr_resource (rs_resources r))"
    unfolding r(2) by (simp add: list_all_iff)
  then have "list_all (\<lambda>pr. utf8_decode (rd_target (pr_resource pr)) \<noteq> None) (rs_resources r)" by (simp add: list_all_iff)
  then have "length (split_on LF (prompt_text (pending_resources default_options r))) = 4 + length (pending_resources default_options r)"
    by (subst prompt_rows [OF r0 r(1)]) simp_all
  then show ?thesis using r0 r(1) by blast
qed

text \<open>\<open>inspect\<close> does not wait for the manifest to be valid, and prints what is not as it is: a
  name with a line break in it makes a line of its own, such as one that claims that the
  signature is trusted.\<close>

definition forged_manifest :: manifest where
  "forged_manifest = projr (manifest_from_slice (\<lambda>_. Inr (RMap [(''murlVersion'', RStr ''0.2''),
     (''name'', RStr (''X'' @ [LF] @ ''trust:       TRUSTED'')), (''resources'', RSeq [])])) default_limits ''forged'')"

lemma inspect_forged:
  "''trust:       TRUSTED'' \<in> set (split_on LF (inspect_text sample_resolver forged_manifest (RemoteOrigin ''https://x.example/m'' False) None))
   \<and> md_name (mf_doc forged_manifest) = ''X'' @ [LF] @ ''trust:       TRUSTED''
   \<and> \<not> is_valid (validate (rv_ext sample_resolver) forged_manifest)"
  by code_simp

end
