(* ===== verification/Spec2Isabelle.thy ===== *)
theory Spec2Isabelle
  imports Net Create Detect Render
begin

text \<open>
  A model of mURL (the crates \<open>murl-core\<close>, \<open>murl-net\<close>, \<open>murl-daemon\<close>, \<open>murl-cli\<close> and \<open>murl-wasm\<close>
  under \<open>src/crates\<close>): a scheme whose names resolve to manifests, and manifests to sets
  of local actions that run only with the user's consent.

  How the parts work together. A name is parsed (\<open>Murl\<close>), looked up in the local store, the cache
  or on the network (\<open>Fetch\<close>, \<open>Cache\<close>, \<open>Net\<close>), its bytes are read strictly (\<open>Json\<close>, \<open>Doc\<close>) and
  validated (\<open>Manifest\<close>, with \<open>Grammar\<close>, \<open>Kind\<close>, \<open>Target\<close>, \<open>Time\<close>, \<open>Graph\<close>); its signature is verified over
  canonical bytes (\<open>Canonical\<close>, \<open>Trust\<close>). The resolver walks nested names within limits (\<open>Errors\<close>,
  \<open>Resolver\<close>) into a plan (\<open>Resolution\<close>), which the policy decides (\<open>Policy\<close>), the user consents to
  (\<open>Consent\<close>, \<open>Dialog\<close>) and the dispatcher executes (\<open>Dispatch\<close>). The same pipeline runs in the
  process (\<open>Open\<close>) or in the daemon behind a socket (\<open>Protocol\<close>, \<open>Server\<close>, \<open>Socket\<close>, \<open>Client\<close>).

  Theories and sources (\<open>core\<close>, \<open>daemon\<close>, \<open>cli\<close> stand for \<open>murl-core/src\<close> and so on):
  \<^item> \<open>Prelude\<close>: results as sums, Rust strings as byte lists, UTF-8, splitting, decimals.
  \<^item> \<open>Grammar\<close>, \<open>Murl\<close>, \<open>Time\<close>, \<open>Kind\<close>, \<open>Json\<close>, \<open>Canonical\<close>, \<open>Graph\<close>: \<open>core/grammar.rs\<close>, \<open>murl.rs\<close>, \<open>time.rs\<close>,
    \<open>kind.rs\<close>, \<open>json.rs\<close>, \<open>canonical.rs\<close>, \<open>graph.rs\<close>. Parsers are proved sound and complete for a
    grammar, or equal to a reference; the order of execution is the unique least one.
  \<^item> \<open>Errors\<close>, \<open>Ext\<close>: \<open>core/error.rs\<close>, \<open>limits.rs\<close>, and the third-party functions as one record.
  \<^item> \<open>Doc\<close>, \<open>Target\<close>, \<open>Manifest\<close>: \<open>core/manifest.rs\<close>; \<open>validate\<close> accepts exactly \<open>wf_manifest\<close>.
  \<^item> \<open>Trust\<close>, \<open>Policy\<close>, \<open>Fetch\<close>, \<open>Cache\<close>, \<open>Resolution\<close>, \<open>Resolver\<close> (with \<open>Resolver_Rules\<close>, \<open>Resolver_Sample\<close>,
    \<open>Resolver_Props\<close>), \<open>Dispatch\<close>, \<open>Bundle\<close>, \<open>Config\<close>: \<open>core/trust.rs\<close>, \<open>policy.rs\<close>, \<open>fetch.rs\<close>, \<open>cache.rs\<close>,
    \<open>resolver.rs\<close>, \<open>dispatch.rs\<close>, \<open>bundle.rs\<close>, \<open>config.rs\<close> and the handler commands. The resolver's state
    invariant is kept by every step; stores refine maps; a launch needs an approval.
  \<^item> \<open>Net\<close>: \<open>murl-net/src/lib.rs\<close>, the address guard and the redirects of the fetcher.
  \<^item> \<open>Protocol\<close>, \<open>Server\<close>, \<open>Dialog\<close>, \<open>Socket\<close>, \<open>Client\<close>: \<open>daemon/protocol.rs\<close>, \<open>server.rs\<close>, \<open>consent_ui.rs\<close>,
    \<open>dialog_ui.rs\<close>, \<open>socket.rs\<close>, \<open>client.rs\<close>; \<open>Consent\<close> also \<open>cli/consent.rs\<close> and \<open>daemon/terminal_ui.rs\<close>.
  \<^item> \<open>Names_Cmd\<close>, \<open>Export\<close>, \<open>Open\<close>, \<open>Commands\<close>, \<open>Create\<close>, \<open>Detect\<close>, \<open>Install\<close>, \<open>Render\<close>: the commands of
    \<open>cli/commands\<close>, \<open>cli/ctx.rs\<close>, \<open>daemon_client.rs\<close>, \<open>render.rs\<close> and \<open>daemon/service.rs\<close>, from their parsed
    arguments to exit code, files and effects. \<open>World\<close>: \<open>paths.rs\<close> of both programs and what
    each reads when it starts. \<open>Playground\<close>: \<open>murl-wasm/src/lib.rs\<close>.

  State. A file system is a map from paths to nodes (\<open>Fetch\<close>), or from path texts to contents
  where directories do not matter (\<open>Fetch.disk\<close>: \<open>Export\<close>, \<open>World\<close>, \<open>Commands\<close>); the socket directory has owners and
  modes (\<open>Socket\<close>). The resolver, the server and the dispatcher pass a state record or a log
  of effects; properties speak of that log (what was read, asked, launched, and when).

  Errors are values: \<open>error + 'a\<close>, and \<open>fault + 'a\<close> where the code can panic (an index, an
  \<open>expect\<close>, a slice inside a character); \<open>None\<close> in \<open>Create\<close> is a command that never returns.
  Machine integers are words where the code computes with them (ports, versions, addresses,
  modes); lengths and counters are \<open>nat\<close>, below the limits that are checked first.

  Termination and fuel. The resolver recurses with the depth left below \<open>max_depth\<close>. Stripping
  white space has the length as fuel, each step taking a byte; making directories the
  length of the path; the search for a free id one more than the ids in use. The wait for
  a dialog polls a bounded number of times, which \<open>Dialog.dialog_answers\<close> shows to end
  with an answer; a connection ends within its budget (\<open>Server.connection_bounded\<close>).

  Hypotheses. Third-party code is a parameter: SHA-256, base64, ed25519, serde's tokenizer and
  float printer (\<open>ext\<close>, with \<open>ext_laws\<close> and the witness \<open>toy_ext\<close>), the codec of cache records,
  the transport, the HTTP client and DNS, the launcher, the clock, the terminal. Where a
  program reads what it wrote, the tokenizer is assumed to read that one text.

  Abstractions. A write that fails leaves its file as it was; \<open>std::fs::write\<close> may leave it cut
  short. A path whose metadata cannot be read counts as existing (\<open>Fetch.disk_exists\<close>). The
  clock of a resolution moves only with the lookups it logs; the wait for a dialog counts
  polls, not seconds, and is without the last wait for its output; the client's peer has
  no timeout. A regular file in the place of the socket's directory is not refused when
  binding. A name without segments, on which \<open>manifest_path\<close> would panic, is never parsed.

  Not modelled: argument parsing (derived by clap), the logger and the status commands, which
  only print; the start of a process itself; threads, since the daemon serves one
  connection after another; the memory interface of WebAssembly; Windows pipes; the Debug
  form of an argument vector, which \<open>handler list\<close> prints; fuzz targets and tests.

  The properties are C1 to C40 in the theories named above. Lemmas after them record where the
  code falls short of what it means to do: a dialog answer is matched by resource id
  (\<open>Dialog.dialog_wrong_row\<close>), the daemon reads other directories on macOS (\<open>World.macos_differs\<close>),
  an unread reply opens twice (\<open>Open.unheard_activates\<close>), \<open>inspect\<close> prints what is not valid
  (\<open>Render.inspect_forged\<close>), and others of that kind.
\<close>

end
